(* ===== verification/Prelude.thy ===== *)
theory Prelude
  imports Main "HOL-Library.Word" "HOL-Library.Monad_Syntax"
begin

unbundle bit_operations_syntax

text \<open>
  What the component theories share: the machine integer types of the C++ sources, the
  status codes of \<^verbatim>\<open>Status.hpp\<close>, little-endian memory images of integers (the corpus
  writes its structs with \<^verbatim>\<open>memcpy\<close> on a little-endian target), and the collections of
  rewrite rules the component proofs use.

  Unsigned integers are words read with \<open>unat\<close>; signed 64-bit integers are words too,
  read with \<open>sint\<close>, so that every field has exactly the values its C++ type has.
\<close>

type_synonym u8 = "8 word"
type_synonym u16 = "16 word"
type_synonym u32 = "32 word"
type_synonym u64 = "64 word"
type_synonym i64 = "64 word"
type_synonym bytes = "8 word list"

named_theorems flag_simps \<open>bit masks and flag tests\<close>
named_theorems budget_simps \<open>overflow-checked byte budgets\<close>
named_theorems json_simps \<open>steps of the JSON reader on rendered text\<close>
named_theorems layout_simps \<open>sizes and fields of struct images\<close>

section \<open>Status codes\<close>

datatype status = Ok | InvalidArgument | IoError | OutOfRange | CorruptData
  | Unimplemented | Cancelled | Unknown

fun statusToString :: "status \<Rightarrow> string" where
  "statusToString Ok = ''Ok''"
| "statusToString InvalidArgument = ''InvalidArgument''"
| "statusToString IoError = ''IoError''"
| "statusToString OutOfRange = ''OutOfRange''"
| "statusToString CorruptData = ''CorruptData''"
| "statusToString Unimplemented = ''Unimplemented''"
| "statusToString Cancelled = ''Cancelled''"
| "statusToString Unknown = ''Unknown''"

definition isOk :: "status \<Rightarrow> bool" where
  "isOk s \<longleftrightarrow> s = Ok"

lemma isOk_simps [simp]: "isOk Ok" "s \<noteq> Ok \<Longrightarrow> \<not> isOk s"
  by (simp_all add: isOk_def)

lemma statusToString_inject: "statusToString s = statusToString t \<longleftrightarrow> s = t"
  by (cases s; cases t) simp_all

section \<open>Signed words\<close>

lemma sign_bit: "bit (v :: i64) 63 \<longleftrightarrow> sint v < 0"
  using bit_last_iff [of v] by simp

lemma uint_eq_sint:
  assumes "0 \<le> sint (v :: i64)"
  shows "uint v = sint v"
proof -
  have "sint v < 2 ^ 64" using sint_lt [of v] by simp
  then show ?thesis using assms by (simp add: uint_sint take_bit_int_eq_self)
qed

lemma unat_eq_nat_sint: "0 \<le> sint (v :: i64) \<Longrightarrow> unat v = nat (sint v)"
  by (metis uint_eq_sint nat_uint_eq)

lemma nonneg_unat: "0 \<le> sint (v :: i64) \<Longrightarrow> unat v < 2 ^ 63"
  using sint_lt [of v] by (simp add: unat_eq_nat_sint nat_less_iff)

section \<open>Little-endian images\<close>

fun le_put :: "nat \<Rightarrow> nat \<Rightarrow> bytes" where
  "le_put 0 v = []"
| "le_put (Suc n) v = word_of_nat v # le_put n (v div 256)"

fun le_get :: "bytes \<Rightarrow> nat" where
  "le_get [] = 0"
| "le_get (b # bs) = unat b + 256 * le_get bs"

lemma length_le_put [simp]: "length (le_put n v) = n"
  by (induction n arbitrary: v) simp_all

lemma unat_word_of_nat_8 [simp]: "unat (word_of_nat v :: u8) = v mod 256"
  by (simp add: unat_of_nat)

lemma le_get_put: "le_get (le_put n v) = v mod 256 ^ n"
proof (induction n arbitrary: v)
  case 0
  then show ?case by simp
next
  case (Suc n)
  have "le_get (le_put (Suc n) v) = v mod 256 + 256 * (v div 256 mod 256 ^ n)"
    by (simp add: Suc.IH)
  also have "\<dots> = v mod (256 * 256 ^ n)"
    by (simp add: mod_mult2_eq)
  finally show ?case by simp
qed

lemma le_get_bound: "le_get bs < 256 ^ length bs"
proof (induction bs)
  case Nil
  then show ?case by simp
next
  case (Cons b bs)
  have "unat b < 256" using unsigned_less [of b] by simp
  with Cons show ?case by simp
qed

lemma word8_256 [simp]: "(256 :: u8) = 0"
  by transfer simp

lemma le_put_get: "length bs = n \<Longrightarrow> le_put n (le_get bs) = bs"
proof (induction bs arbitrary: n)
  case Nil
  then show ?case by simp
next
  case (Cons b bs)
  have b: "unat b < 256" using unsigned_less [of b] by simp
  then have "(word_of_nat (unat b + 256 * le_get bs) :: u8) = b"
    by simp
  with Cons b show ?case by (auto simp: div_add1_eq)
qed

text \<open>
  A struct image is the concatenation of its fields: \<open>slice off k\<close> is the array member of
  \<open>k\<close> bytes at offset \<open>off\<close>, \<open>field_get\<close> the integer member there and \<open>field_put\<close> its
  image. The rules collected in \<open>layout_simps\<close> read a member of a concatenation, and join
  adjacent slices back into the whole image.
\<close>

definition slice :: "nat \<Rightarrow> nat \<Rightarrow> 'b list \<Rightarrow> 'b list" where
  "slice off k bs = take k (drop off bs)"

definition field_get :: "nat \<Rightarrow> nat \<Rightarrow> bytes \<Rightarrow> 'a::len word" where
  "field_get off k bs = word_of_nat (le_get (slice off k bs))"

definition field_put :: "nat \<Rightarrow> 'a::len word \<Rightarrow> bytes" where
  "field_put k w = le_put k (unat w)"

lemma length_field_put [simp]: "length (field_put k w) = k"
  by (simp add: field_put_def)

lemma length_slice [simp]: "off + k \<le> length bs \<Longrightarrow> length (slice off k bs) = k"
  by (simp add: slice_def)

lemma slice_here [layout_simps]: "length a = k \<Longrightarrow> slice 0 k (a @ post) = a"
  by (simp add: slice_def)

lemma slice_last [layout_simps]: "length a = k \<Longrightarrow> slice 0 k a = a"
  by (simp add: slice_def)

lemma slice_skip [layout_simps]:
  "length a \<le> off \<Longrightarrow> slice off k (a @ post) = slice (off - length a) k post"
  by (simp add: slice_def)

lemma slice_append_left: "off + k \<le> length a \<Longrightarrow> slice off k (a @ post) = slice off k a"
  by (simp add: slice_def)

lemma slice_split: "take off bs @ slice off k bs @ drop (off + k) bs = bs"
  by (metis append_take_drop_id slice_def drop_drop add.commute)

lemma slice_take: "off + k \<le> n \<Longrightarrow> slice off k (take n bs) = slice off k bs"
  by (simp add: slice_def drop_take)

lemma slice_join:
  "off + k = off' \<Longrightarrow> slice off k bs @ slice off' k' bs = slice off (k + k') bs"
  "off + k = off' \<Longrightarrow> slice off k bs @ slice off' k' bs @ r = slice off (k + k') bs @ r"
  by (auto simp: slice_def take_add drop_drop add.commute)

lemma pow_256: "LENGTH('a::len) = 8 * k \<Longrightarrow> (256::nat) ^ k = 2 ^ LENGTH('a)"
  by (simp only: power_mult) simp

lemma field_get_put [layout_simps]:
  assumes "LENGTH('a) = 8 * k"
  shows "word_of_nat (le_get (field_put k (w :: 'a::len word))) = w"
proof -
  have "unat w mod 256 ^ k = unat w"
    using unsigned_less [of w, where 'a = nat] pow_256 [OF assms] by simp
  then show ?thesis by (simp add: field_put_def le_get_put)
qed

lemma field_get_here [layout_simps]:
  "LENGTH('a) = 8 * k \<Longrightarrow> field_get 0 k (field_put k (w :: 'a::len word) @ post) = w"
  "LENGTH('a) = 8 * k \<Longrightarrow> field_get 0 k (field_put k (w :: 'a::len word)) = w"
  by (simp_all add: field_get_def slice_here slice_last field_get_put)

lemma field_get_skip [layout_simps]:
  "length a \<le> off \<Longrightarrow> field_get off k (a @ post) = field_get (off - length a) k post"
  by (simp add: field_get_def slice_skip)

lemma field_get_append_left:
  "off + k \<le> length a \<Longrightarrow> field_get off k (a @ post) = field_get off k a"
  by (simp add: field_get_def slice_append_left)

lemma field_get_take: "off + k \<le> n \<Longrightarrow> field_get off k (take n bs) = field_get off k bs"
  by (simp add: field_get_def slice_take)

lemma field_put_get:
  assumes "LENGTH('a) = 8 * k" and "off + k \<le> length bs"
  shows "field_put k (field_get off k bs :: 'a::len word) = slice off k bs"
proof -
  have "le_get (slice off k bs) < 2 ^ LENGTH('a)"
    using le_get_bound [of "slice off k bs"] assms(2) pow_256 [OF assms(1)] by simp
  then have "unat (word_of_nat (le_get (slice off k bs)) :: 'a word) = le_get (slice off k bs)"
    by (simp add: unat_of_nat)
  then show ?thesis using assms(2) by (simp add: field_put_def field_get_def le_put_get)
qed

end
