(* ===== verification/Crc.thy ===== *)
theory Crc
  imports Prelude
begin

text \<open>
  The CRC-32C of \<^verbatim>\<open>Corpus/Codec/Crc32c.cpp\<close>: the table built by shifting each byte value
  eight times through the reflected Castagnoli polynomial, the table-driven update, and
  the one-shot form. The lemmas show that the table-driven loop computes the bitwise
  definition of the checksum, that updates compose over concatenation, and that a change
  confined to four consecutive bytes is always detected.
\<close>

definition kPoly :: u32 where
  "kPoly = 0x82F63B78"

definition crc_shift :: "u32 \<Rightarrow> u32" where
  "crc_shift c = (if c AND 1 \<noteq> 0 then drop_bit 1 c XOR kPoly else drop_bit 1 c)"

definition makeTable :: "u32 list" where
  "makeTable = map (\<lambda>i. (crc_shift ^^ 8) (word_of_nat i)) [0..<256]"

definition crc_table_step :: "u32 \<Rightarrow> u8 \<Rightarrow> u32" where
  "crc_table_step c b =
     makeTable ! unat ((c XOR ucast b) AND 0xFF) XOR drop_bit 8 c"

definition crc32cUpdate :: "u32 \<Rightarrow> bytes \<Rightarrow> u32" where
  "crc32cUpdate seed data =
     foldl crc_table_step (seed XOR 0xFFFFFFFF) data XOR 0xFFFFFFFF"

definition crc32c :: "bytes \<Rightarrow> u32" where
  "crc32c data = crc32cUpdate 0 data"

section \<open>The bit-serial reference\<close>

definition crc_bit_step :: "u32 \<Rightarrow> u8 \<Rightarrow> u32" where
  "crc_bit_step c b = (crc_shift ^^ 8) (c XOR ucast b)"

definition crc32c_bitwise :: "bytes \<Rightarrow> u32" where
  "crc32c_bitwise data = foldl crc_bit_step 0xFFFFFFFF data XOR 0xFFFFFFFF"

section \<open>Algebra of one shift\<close>

lemma crc_shift_alt: "crc_shift c = drop_bit 1 c XOR (if odd c then kPoly else 0)"
  by (auto simp: crc_shift_def and_one_eq mod_2_eq_odd)

lemma odd_xor_word: "odd (a XOR b :: 'a::len word) \<longleftrightarrow> odd a \<noteq> odd b"
  using bit_xor_iff [of a b 0] by (simp add: bit_0)

lemma drop_bit_xor_word: "drop_bit n (a XOR b :: 'a::len word) = drop_bit n a XOR drop_bit n b"
  by (rule bit_word_eqI) (simp add: bit_simps)

lemma crc_shift_xor: "crc_shift (a XOR b) = crc_shift a XOR crc_shift b"
  by (auto simp: crc_shift_alt odd_xor_word drop_bit_xor_word xor.assoc xor.left_commute)

lemma crc_shift_pow_xor: "(crc_shift ^^ n) (a XOR b) = (crc_shift ^^ n) a XOR (crc_shift ^^ n) b"
  by (induction n) (simp_all add: crc_shift_xor)

lemma crc_shift_bit31: "bit (crc_shift c) 31 \<longleftrightarrow> odd c"
  by (auto simp: crc_shift_alt kPoly_def bit_simps dest: bit_imp_le_length)

lemma word_odd_drop_bit_cong:
  fixes a b :: "'a::len word"
  assumes "odd a = odd b" and "drop_bit 1 a = drop_bit 1 b"
  shows "a = b"
proof (rule bit_word_eqI)
  fix n
  show "bit a n \<longleftrightarrow> bit b n"
  proof (cases n)
    case 0
    then show ?thesis using assms(1) by (simp add: bit_0)
  next
    case (Suc m)
    have "bit (drop_bit 1 a) m \<longleftrightarrow> bit (drop_bit 1 b) m" using assms(2) by simp
    then show ?thesis using Suc by (simp add: bit_drop_bit_eq)
  qed
qed

lemma crc_shift_inject: "crc_shift a = crc_shift b \<longleftrightarrow> a = b"
proof
  assume eq: "crc_shift a = crc_shift b"
  then have par: "odd a = odd b" by (metis crc_shift_bit31)
  have "drop_bit 1 a = crc_shift a XOR (if odd a then kPoly else 0)"
    by (simp add: crc_shift_alt xor.assoc)
  moreover have "drop_bit 1 b = crc_shift b XOR (if odd b then kPoly else 0)"
    by (simp add: crc_shift_alt xor.assoc)
  ultimately have "drop_bit 1 a = drop_bit 1 b" using eq par by simp
  with par show "a = b" by (rule word_odd_drop_bit_cong)
qed simp

lemma crc_shift_pow_inject: "(crc_shift ^^ n) a = (crc_shift ^^ n) b \<longleftrightarrow> a = b"
  by (induction n) (simp_all add: crc_shift_inject)

lemma crc_shift_pow_low_zero:
  "(\<And>i. i < n \<Longrightarrow> \<not> bit c i) \<Longrightarrow> (crc_shift ^^ n) c = drop_bit n c"
proof (induction n)
  case 0
  then show ?case by simp
next
  case (Suc n)
  have "even (drop_bit n c)" using Suc.prems [of n] by (simp add: bit_iff_odd_drop_bit)
  then have "crc_shift (drop_bit n c) = drop_bit 1 (drop_bit n c)" by (simp add: crc_shift_alt)
  with Suc show ?case by (simp add: drop_bit_drop_bit add.commute)
qed

section \<open>The table-driven step\<close>

lemma makeTable_nth: "i < 256 \<Longrightarrow> makeTable ! i = (crc_shift ^^ 8) (word_of_nat i)"
  by (simp add: makeTable_def)

lemma low_byte_mask: "(0xFF :: u32) = mask 8"
  by (simp add: mask_eq_exp_minus_1)

lemma low_byte_bound: "unat (c AND 0xFF :: u32) < 256"
proof -
  have "c AND 0xFF = take_bit 8 c" by (simp only: low_byte_mask take_bit_eq_mask)
  then show ?thesis using take_bit_nat_less_exp [of 8 "unat c"]
    by (simp add: unsigned_take_bit_eq)
qed

lemma split_low_byte: "(c :: u32) = (c AND 0xFF) XOR (c AND NOT 0xFF)"
  by (rule bit_word_eqI) (auto simp: bit_simps)

lemma bit_not_low_byte: "i < 8 \<Longrightarrow> \<not> bit (c AND NOT 0xFF :: u32) i"
  unfolding low_byte_mask by (simp add: bit_simps)

lemma drop_not_low_byte: "drop_bit 8 (c AND NOT 0xFF :: u32) = drop_bit 8 c"
  unfolding low_byte_mask
  by (rule bit_word_eqI) (auto simp: bit_simps dest: bit_imp_le_length)

lemma drop_byte_xor: "drop_bit 8 (c XOR ucast (b :: u8) :: u32) = drop_bit 8 c"
  by (rule bit_word_eqI) (auto simp: bit_simps dest: bit_imp_le_length)

lemma crc_table_step_bitwise: "crc_table_step c b = crc_bit_step c b"
proof -
  let ?d = "c XOR ucast b"
  have "(crc_shift ^^ 8) (?d AND NOT 0xFF) = drop_bit 8 ?d"
    by (subst crc_shift_pow_low_zero) (simp_all only: bit_not_low_byte drop_not_low_byte not_False_eq_True)
  then have hi: "(crc_shift ^^ 8) (?d AND NOT 0xFF) = drop_bit 8 c"
    by (simp only: drop_byte_xor)
  have lo: "makeTable ! unat (?d AND 0xFF) = (crc_shift ^^ 8) (?d AND 0xFF)"
    by (subst makeTable_nth [OF low_byte_bound]) simp
  have "(crc_shift ^^ 8) ?d = (crc_shift ^^ 8) (?d AND 0xFF) XOR (crc_shift ^^ 8) (?d AND NOT 0xFF)"
    by (subst split_low_byte, subst crc_shift_pow_xor, rule refl)
  then show ?thesis by (simp only: crc_table_step_def crc_bit_step_def hi lo)
qed

lemma foldl_crc_table: "foldl crc_table_step c data = foldl crc_bit_step c data"
  by (induction data arbitrary: c) (simp_all add: crc_table_step_bitwise)

lemma xor_right_cancel: "(a XOR c :: 'a::len word) = b XOR c \<longleftrightarrow> a = b"
  by (metis xor.assoc xor.right_neutral xor_self_eq)

lemma xor_left_cancel: "(c XOR a :: 'a::len word) = c XOR b \<longleftrightarrow> a = b"
  by (simp only: xor.commute [of c] xor_right_cancel)

lemma crc_bit_step_inject: "crc_bit_step c b = crc_bit_step d b \<longleftrightarrow> c = d"
  by (simp add: crc_bit_step_def crc_shift_pow_inject xor_right_cancel)

lemma foldl_crc_inject: "foldl crc_bit_step c data = foldl crc_bit_step d data \<longleftrightarrow> c = d"
  by (induction data arbitrary: c d) (simp_all add: crc_bit_step_inject)

section \<open>Bursts\<close>

fun crc_word :: "bytes \<Rightarrow> u32" where
  "crc_word [] = 0"
| "crc_word (b # bs) = ucast b XOR push_bit 8 (crc_word bs)"

lemma bit_crc_word: "8 * length bs \<le> i \<Longrightarrow> \<not> bit (crc_word bs) i"
  by (induction bs arbitrary: i) (auto simp: bit_simps dest: bit_imp_le_length)

lemma drop_crc_word: "length bs \<le> 3 \<Longrightarrow> drop_bit 8 (crc_word (b # bs)) = crc_word bs"
  using bit_crc_word [of bs]
  by (intro bit_word_eqI) (fastforce simp: bit_simps dest: bit_imp_le_length)

lemma take_crc_word: "take_bit 8 (crc_word (b # bs)) = ucast b"
  by (rule bit_word_eqI) (auto simp: bit_simps dest: bit_imp_le_length)

lemma ucast_u8_u32_inject: "(ucast (a :: u8) :: u32) = ucast b \<longleftrightarrow> a = b"
proof
  assume eq: "(ucast a :: u32) = ucast b"
  have "(ucast (ucast a :: u32) :: u8) = a" "(ucast (ucast b :: u32) :: u8) = b"
    by (rule bit_word_eqI; simp add: bit_simps)+
  with eq show "a = b" by metis
qed simp

lemma crc_word_inject:
  "length us = length vs \<Longrightarrow> length us \<le> 4 \<Longrightarrow> crc_word us = crc_word vs \<longleftrightarrow> us = vs"
proof (induction us vs rule: list_induct2)
  case Nil
  then show ?case by simp
next
  case (Cons u us v vs)
  then have len: "length us \<le> 3" "length vs \<le> 3" by simp_all
  have "u = v \<and> us = vs" if "crc_word (u # us) = crc_word (v # vs)"
  proof -
    from that have "(ucast u :: u32) = ucast v" by (metis take_crc_word)
    moreover from that have "crc_word us = crc_word vs" by (metis drop_crc_word len)
    ultimately show ?thesis using Cons by (simp add: ucast_u8_u32_inject)
  qed
  then show ?case by auto
qed

lemma crc_shift_push: "length bs \<le> 3 \<Longrightarrow> (crc_shift ^^ 8) (push_bit 8 (crc_word bs)) = crc_word bs"
proof -
  assume "length bs \<le> 3"
  then have "\<not> bit (crc_word bs) i" if "24 \<le> i" for i
    using bit_crc_word [of bs i] that by simp
  then have "drop_bit 8 (push_bit 8 (crc_word bs)) = crc_word bs"
    by (intro bit_word_eqI) (auto simp: bit_simps, meson not_less)
  then show ?thesis by (subst crc_shift_pow_low_zero) (auto simp: bit_simps)
qed

lemma foldl_crc_word:
  "length bs \<le> 4 \<Longrightarrow> foldl crc_bit_step c bs = (crc_shift ^^ (8 * length bs)) (c XOR crc_word bs)"
proof (induction bs arbitrary: c)
  case Nil
  then show ?case by simp
next
  case (Cons b bs)
  let ?n = "8 * length bs"
  have len: "length bs \<le> 3" "length bs \<le> 4" using Cons.prems by simp_all
  have "foldl crc_bit_step c (b # bs) =
      (crc_shift ^^ ?n) ((crc_shift ^^ 8) (c XOR ucast b) XOR (crc_shift ^^ 8) (push_bit 8 (crc_word bs)))"
    by (simp only: foldl.simps Cons.IH [OF len(2)] crc_shift_push [OF len(1)] crc_bit_step_def)
  also have "\<dots> = (crc_shift ^^ (?n + 8)) (c XOR crc_word (b # bs))"
    by (simp only: crc_shift_pow_xor [symmetric] funpow_add comp_apply crc_word.simps xor.assoc)
  also have "?n + 8 = 8 * length (b # bs)" by simp
  finally show ?case .
qed

lemmas crc_defs = crc32c_def crc32cUpdate_def crc32c_bitwise_def

lemma crc32cUpdate_append:
  "crc32cUpdate seed (xs @ ys) = crc32cUpdate (crc32cUpdate seed xs) ys"
  by (simp add: crc32cUpdate_def xor.assoc)

lemma crc32c_window:
  assumes "length us = length vs" and "length us \<le> 4"
  shows "crc32c (xs @ us @ ys) = crc32c (xs @ vs @ ys) \<longleftrightarrow> us = vs"
proof -
  let ?c = "foldl crc_bit_step (0 XOR 0xFFFFFFFF) xs"
  have "crc32c (xs @ us @ ys) = crc32c (xs @ vs @ ys) \<longleftrightarrow>
      foldl crc_bit_step ?c us = foldl crc_bit_step ?c vs"
    by (simp add: crc_defs foldl_crc_table xor_right_cancel foldl_crc_inject)
  also have "\<dots> \<longleftrightarrow> us = vs" using assms
    by (simp add: foldl_crc_word crc_shift_pow_inject xor_left_cancel crc_word_inject)
  finally show ?thesis .
qed

lemma crc32c_one_byte: "crc32c (xs @ x # ys) = crc32c (xs @ y # ys) \<longleftrightarrow> x = y"
  using crc32c_window [of "[x]" "[y]" xs ys] by simp

lemma crc32c_eq_bitwise: "crc32c data = crc32c_bitwise data"
  by (simp add: crc_defs foldl_crc_table)

lemma crc_shift_numeral:
  "crc_shift (numeral n) =
     (if odd (numeral n :: u32) then drop_bit 1 (numeral n) XOR kPoly else drop_bit 1 (numeral n))"
  by (simp add: crc_shift_alt)

lemma crc_bit_step_unfold:
  "crc_bit_step c b = crc_shift (crc_shift (crc_shift (crc_shift (crc_shift (crc_shift
     (crc_shift (crc_shift (c XOR ucast b))))))))"
  by (simp add: crc_bit_step_def eval_nat_numeral)

lemma crc32c_reference_vector:
  "crc32c [0x31, 0x32, 0x33, 0x34, 0x35, 0x36, 0x37, 0x38, 0x39] = 0xE3069283"
  by (simp add: crc32c_eq_bitwise crc32c_bitwise_def crc_bit_step_unfold crc_shift_numeral kPoly_def)

section \<open>Properties\<close>

text \<open>C25: the table-driven \<^verbatim>\<open>crc32c\<close> computes, for every input, the bit-serial
  CRC-32C: one shift of the reflected Castagnoli polynomial per message bit.\<close>

theorem crc32c_table_driven: "crc32c data = crc32c_bitwise data"
  by (rule crc32c_eq_bitwise)

text \<open>C26: a corruption confined to at most four consecutive bytes always changes the
  checksum, whatever surrounds it, so a stored CRC detects every such burst.\<close>

theorem crc32c_detects_burst:
  assumes "length us = length vs" and "length us \<le> 4" and "us \<noteq> vs"
  shows "crc32c (xs @ us @ ys) \<noteq> crc32c (xs @ vs @ ys)"
  using assms crc32c_window [of us vs xs ys] by simp

theorem crc32c_detects_burst_witness:
  "crc32c ([1, 2] @ [3, 4] @ [5]) \<noteq> crc32c ([1, 2] @ [3, 7] @ [5])"
  by (rule crc32c_detects_burst) simp_all

text \<open>C27: the running checksum the writer keeps per segment record by record equals the
  checksum of the concatenated records, and the published reference vector
  (\<open>crc32c\<close> of the digits 1 to 9) is met.\<close>

theorem crc32c_incremental:
  "foldl crc32cUpdate 0 chunks = crc32c (concat chunks) \<and>
   crc32c [0x31, 0x32, 0x33, 0x34, 0x35, 0x36, 0x37, 0x38, 0x39] = 0xE3069283"
proof
  have "foldl crc32cUpdate s chunks = crc32cUpdate s (concat chunks)" for s
    by (induction chunks arbitrary: s) (simp_all add: crc32cUpdate_append, simp add: crc32cUpdate_def xor.assoc)
  then show "foldl crc32cUpdate 0 chunks = crc32c (concat chunks)" by (simp add: crc32c_def)
  show "crc32c [0x31, 0x32, 0x33, 0x34, 0x35, 0x36, 0x37, 0x38, 0x39] = 0xE3069283"
    by (rule crc32c_reference_vector)
qed

end
