(* ===== verification/VarInt.thy ===== *)
theory VarInt
  imports Prelude
begin

text \<open>
  The variable-length integer codecs of \<^verbatim>\<open>Corpus/Codec/VarInt.cpp\<close> and
  \<^verbatim>\<open>ZigZag.hpp\<close>. The encoder's result is its status with the bytes it stored through
  \<open>out\<close> (their number is \<open>written\<close>); the decoder's is the status with \<open>consumed\<close> and
  \<open>out\<close>. A null pointer is \<open>None\<close> (decoder) or \<open>False\<close> (encoder).
\<close>

function varint_encode_loop :: "u64 \<Rightarrow> nat \<Rightarrow> bytes \<Rightarrow> status \<times> bytes" where
  "varint_encode_loop value cap out =
     (if cap \<le> length out then (OutOfRange, out)
      else let byte = ucast (value AND 0x7F) :: u8;
               rest = drop_bit 7 value;
               byte' = (if rest \<noteq> 0 then byte OR 0x80 else byte)
           in if rest = 0 then (Ok, out @ [byte'])
              else varint_encode_loop rest cap (out @ [byte']))"
  by pat_completeness auto
termination
  by (relation "measure (\<lambda>(value, cap, out). cap - length out)") auto

declare varint_encode_loop.simps [simp del]

definition varintEncode :: "u64 \<Rightarrow> bool \<Rightarrow> nat \<Rightarrow> status \<times> bytes" where
  "varintEncode value out cap =
     (if \<not> out then (InvalidArgument, []) else varint_encode_loop value cap [])"

fun varint_decode_loop :: "bytes \<Rightarrow> nat \<Rightarrow> u64 \<Rightarrow> nat \<Rightarrow> status \<times> nat \<times> u64" where
  "varint_decode_loop [] consumed acc shift = (OutOfRange, consumed, 0)"
| "varint_decode_loop (byte # rest) consumed acc shift =
     (let acc' = acc OR push_bit shift (ucast (byte AND 0x7F))
      in if byte AND 0x80 = 0 then (Ok, Suc consumed, acc')
         else if 70 \<le> shift + 7 then (InvalidArgument, Suc consumed, 0)
         else varint_decode_loop rest (Suc consumed) acc' (shift + 7))"

definition varintDecode :: "bytes option \<Rightarrow> status \<times> nat \<times> u64" where
  "varintDecode input = (case input of None \<Rightarrow> (InvalidArgument, 0, 0)
     | Some bs \<Rightarrow> varint_decode_loop bs 0 0 0)"

definition zigzagEncode :: "i64 \<Rightarrow> u64" where
  "zigzagEncode v = push_bit 1 v XOR signed_drop_bit 63 v"

definition zigzagDecode :: "u64 \<Rightarrow> i64" where
  "zigzagDecode u = drop_bit 1 u XOR - (u AND 1)"

section \<open>The encoding as a function of the value\<close>

function leb128 :: "u64 \<Rightarrow> bytes" where
  "leb128 v = (if drop_bit 7 v = 0 then [ucast (v AND 0x7F)]
     else (ucast (v AND 0x7F) OR 0x80) # leb128 (drop_bit 7 v))"
  by pat_completeness auto
termination
proof (relation "measure unat")
  show "(drop_bit 7 v, v) \<in> measure unat" if "drop_bit 7 v \<noteq> 0" for v :: u64
  proof -
    have "0 < unat v" using that by (auto simp: unat_gt_0)
    moreover have "unat (drop_bit 7 v) = unat v div 128"
      by (simp add: drop_bit_eq_div unat_div)
    ultimately show ?thesis by simp
  qed
qed simp

declare leb128.simps [simp del]

lemma leb128_nonempty [simp]: "leb128 v \<noteq> []"
  by (subst leb128.simps) simp

lemma varint_encode_loop_leb128:
  "varint_encode_loop v cap out =
     (if length out + length (leb128 v) \<le> cap then (Ok, out @ leb128 v)
      else (OutOfRange, out @ take (cap - length out) (leb128 v)))"
proof (induction v cap out rule: varint_encode_loop.induct)
  case (1 v cap out)
  show ?case
  proof (cases "cap \<le> length out")
    case True
    then show ?thesis using length_greater_0_conv [of "leb128 v"]
      by (simp add: varint_encode_loop.simps del: length_greater_0_conv)
  next
    case False
    show ?thesis
    proof (cases "drop_bit 7 v = 0")
      case True
      with False show ?thesis
        by (simp add: varint_encode_loop.simps leb128.simps [of v] Let_def)
    next
      case nz: False
      from 1 [OF False refl refl refl nz] nz False show ?thesis
        by (auto simp: varint_encode_loop.simps [of v] leb128.simps [of v] Let_def take_Cons' Suc_diff_Suc)
    qed
  qed
qed

lemma length_leb128: "unat v < 128 ^ k \<Longrightarrow> 0 < k \<Longrightarrow> length (leb128 v) \<le> k"
proof (induction k arbitrary: v)
  case 0
  then show ?case by simp
next
  case (Suc k)
  have d: "unat (drop_bit 7 v) = unat v div 128"
    by (simp add: drop_bit_eq_div unat_div)
  show ?case
  proof (cases "drop_bit 7 v = 0")
    case True
    then show ?thesis by (simp add: leb128.simps [of v])
  next
    case False
    then have "unat v div 128 \<noteq> 0" using d by (metis unsigned_0 unsigned_eq_0_iff)
    then have "0 < k" using Suc.prems(1) by (cases k) auto
    moreover have "unat (drop_bit 7 v) < 128 ^ k"
      using Suc.prems(1) d by (simp add: less_mult_imp_div_less mult.commute)
    ultimately show ?thesis using Suc.IH False by (simp add: leb128.simps [of v])
  qed
qed

lemma length_leb128_le_10: "length (leb128 v) \<le> 10"
proof (rule length_leb128)
  show "unat v < 128 ^ 10" using unsigned_less [of v, where 'a = nat] by simp
qed simp

section \<open>Decoding an encoding\<close>

lemma byte_masks: "(0x7F :: u8) = mask 7" "(0x7F :: u64) = mask 7"
  by (simp_all add: mask_eq_exp_minus_1)

lemma bit_0x80: "bit (0x80 :: int) n \<longleftrightarrow> n = 7"
  using bit_exp_iff [where 'a = int, of 7 n] by auto

lemma leb128_byte [simp]:
  "(ucast (v AND 0x7F :: u64) :: u8) AND 0x80 = 0"
  "((ucast (v AND 0x7F :: u64) :: u8) OR 0x80) AND 0x80 \<noteq> 0"
  "(ucast (((ucast (v AND 0x7F) :: u8) OR 0x80) AND 0x7F) :: u64) = v AND 0x7F"
  "(ucast ((ucast (v AND 0x7F) :: u8) AND 0x7F) :: u64) = v AND 0x7F"
proof -
  let ?b = "ucast (v AND 0x7F) :: u8"
  show "?b AND 0x80 = 0" unfolding byte_masks
    by (rule bit_word_eqI) (auto simp: bit_simps bit_0x80)
  have "bit ((?b OR 0x80) AND 0x80) 7" unfolding byte_masks by (simp add: bit_simps bit_0x80)
  then show "(?b OR 0x80) AND 0x80 \<noteq> 0" by (metis bit_0_eq bot_apply bot_bool_def)
  show "(ucast ((?b OR 0x80) AND 0x7F) :: u64) = v AND 0x7F" unfolding byte_masks
    by (rule bit_word_eqI) (auto simp: bit_simps bit_0x80)
  show "(ucast (?b AND 0x7F) :: u64) = v AND 0x7F" unfolding byte_masks
    by (rule bit_word_eqI) (auto simp: bit_simps bit_0x80)
qed

lemma low_seven_only: "drop_bit 7 v = 0 \<Longrightarrow> v AND 0x7F = (v :: u64)"
  by (simp add: byte_masks(2) take_bit_eq_mask [symmetric] take_bit_eq_self_iff_drop_bit_eq_0)

lemma push_split_seven:
  "push_bit s (v AND 0x7F) OR push_bit (s + 7) (drop_bit 7 v) = push_bit s (v :: u64)"
proof (rule bit_word_eqI)
  fix n
  show "bit (push_bit s (v AND 0x7F) OR push_bit (s + 7) (drop_bit 7 v)) n \<longleftrightarrow> bit (push_bit s v) n"
    by (cases "n < s + 7") (auto simp: byte_masks bit_simps not_less le_iff_add)
qed

lemma varint_decode_loop_leb128:
  "s + 7 * length (leb128 v) \<le> 70 \<Longrightarrow>
     varint_decode_loop (leb128 v @ rest) n acc s = (Ok, n + length (leb128 v), acc OR push_bit s v)"
proof (induction v arbitrary: s n acc rule: leb128.induct)
  case (1 v)
  show ?case
  proof (cases "drop_bit 7 v = 0")
    case True
    then have "push_bit s (v AND 0x7F) = push_bit s v" by (simp only: low_seven_only)
    with True show ?thesis by (simp add: leb128.simps [of v] Let_def)
  next
    case False
    let ?w = "drop_bit 7 v"
    have len: "length (leb128 v) = Suc (length (leb128 ?w))"
      using False by (simp add: leb128.simps [of v])
    moreover have "0 < length (leb128 ?w)" by simp
    ultimately have s: "\<not> 70 \<le> s + 7" and IH: "s + 7 + 7 * length (leb128 ?w) \<le> 70"
      using 1(2) by linarith+
    have "varint_decode_loop (leb128 v @ rest) n acc s =
        varint_decode_loop (leb128 ?w @ rest) (Suc n) (acc OR push_bit s (v AND 0x7F)) (s + 7)"
      using False s by (simp add: leb128.simps [of v] Let_def)
    also have "\<dots> = (Ok, Suc n + length (leb128 ?w),
        (acc OR push_bit s (v AND 0x7F)) OR push_bit (s + 7) ?w)"
      using 1(1) [OF False IH] .
    finally show ?thesis using push_split_seven [of s v] by (simp add: len or.assoc)
  qed
qed

lemma push_bit_top: "push_bit 63 (w :: u64) = (if odd w then 2 ^ 63 else 0)"
proof (rule bit_word_eqI)
  fix n
  assume "n < LENGTH(64)"
  then show "bit (push_bit 63 w) n \<longleftrightarrow> bit (if odd w then 2 ^ 63 else 0 :: u64) n"
    by (cases "n = 63") (auto simp: bit_push_bit_iff bit_exp_iff bit_0 simp del: power_numeral)
qed

section \<open>Zig-zag\<close>

lemma bit_sign_fill: "bit (signed_drop_bit 63 (v :: i64)) n \<longleftrightarrow> n < 64 \<and> bit v 63"
  by (cases n) (auto simp: bit_simps dest: bit_imp_le_length)

lemma bit_zigzagEncode:
  "bit (zigzagEncode v) n \<longleftrightarrow> n < 64 \<and> (1 \<le> n \<and> bit v (n - 1)) \<noteq> bit v 63"
  unfolding zigzagEncode_def bit_xor_iff bit_push_bit_iff bit_sign_fill
  by (auto dest: bit_imp_le_length)

lemma bit_zigzagDecode: "bit (zigzagDecode u) n \<longleftrightarrow> n < 64 \<and> bit u (Suc n) \<noteq> odd u"
proof -
  have "- (u AND 1) = (if odd u then - 1 else 0)" by (simp add: and_one_eq mod_2_eq_odd)
  then show ?thesis unfolding zigzagDecode_def
    by (auto simp: bit_simps dest: bit_imp_le_length)
qed

lemma zigzagDecode_Encode: "zigzagDecode (zigzagEncode v) = v"
proof (rule bit_word_eqI)
  fix n
  assume n: "n < LENGTH(64)"
  have odd: "odd (zigzagEncode v) \<longleftrightarrow> bit v 63"
    using bit_zigzagEncode [of v 0] by (simp add: bit_0)
  show "bit (zigzagDecode (zigzagEncode v)) n \<longleftrightarrow> bit v n"
    using n by (cases "n = 63") (auto simp: bit_zigzagDecode odd bit_zigzagEncode)
qed

lemma zigzagEncode_Decode: "zigzagEncode (zigzagDecode u) = u"
proof (rule bit_word_eqI)
  fix n
  assume "n < LENGTH(64)"
  moreover have "\<not> bit u 64" by (auto dest: bit_imp_le_length)
  ultimately show "bit (zigzagEncode (zigzagDecode u)) n \<longleftrightarrow> bit u n"
    by (cases n) (auto simp: bit_zigzagEncode bit_zigzagDecode simp flip: bit_0)
qed

lemma zigzag_value:
  "zigzagEncode v = word_of_int (if 0 \<le> sint v then 2 * sint v else - 2 * sint v - 1)"
proof -
  note sign = sign_bit [of v]
  have v: "word_of_int (sint v) = v" by simp
  show ?thesis
  proof (cases "bit v 63")
    case True
    then have "zigzagEncode v = NOT (push_bit 1 v)"
      by (intro bit_word_eqI)
        (auto simp only: bit_zigzagEncode bit_not_iff bit_push_bit_iff possible_bit_word len_num1 len_bit0)
    also have "\<dots> = - (2 * v) - 1" by (simp add: not_eq_complement)
    finally show ?thesis using True sign v by simp
  next
    case False
    then have "zigzagEncode v = push_bit 1 v"
      by (intro bit_word_eqI)
        (auto simp only: bit_zigzagEncode bit_push_bit_iff possible_bit_word len_num1 len_bit0)
    also have "\<dots> = 2 * v" by simp
    finally show ?thesis using False sign v by simp
  qed
qed

lemma uint_zigzagEncode:
  "uint (zigzagEncode v) = (if 0 \<le> sint v then 2 * sint v else - 2 * sint v - 1)"
proof -
  let ?x = "if 0 \<le> sint v then 2 * sint v else - 2 * sint v - 1"
  have "0 \<le> ?x" "?x < 2 ^ 64" using sint_ge [of v] sint_lt [of v] by auto
  then show ?thesis by (simp only: zigzag_value uint_word_of_int len_num1 len_bit0 mod_pos_pos_trivial) simp
qed

section \<open>Properties\<close>

text \<open>C32: whatever \<^verbatim>\<open>varintEncode\<close> stores successfully, \<^verbatim>\<open>varintDecode\<close> reads back:
  the same value, consuming exactly the bytes written, whatever follows them. Ten bytes of
  capacity are always enough, and no encoding is longer.\<close>

theorem varint_roundtrip:
  assumes "varintEncode v True cap = (st, out)"
  shows "(st = Ok \<longrightarrow> varintDecode (Some (out @ rest)) = (Ok, length out, v)) \<and>
    (10 \<le> cap \<longrightarrow> st = Ok \<and> length out \<le> 10) \<and>
    (st = Ok \<or> st = OutOfRange \<and> length out = cap)"
proof -
  have enc: "(st, out) = (if length (leb128 v) \<le> cap then (Ok, leb128 v)
      else (OutOfRange, take cap (leb128 v)))"
    using assms by (auto simp: varintEncode_def varint_encode_loop_leb128 split: if_splits)
  have "varintDecode (Some (leb128 v @ rest)) = (Ok, length (leb128 v), v)"
    using varint_decode_loop_leb128 [of 0 v rest 0 0] length_leb128_le_10 [of v]
    by (simp add: varintDecode_def)
  then show ?thesis using enc length_leb128_le_10 [of v] by (auto split: if_splits)
qed

theorem varint_roundtrip_witness:
  "varintDecode (Some ([0xAC, 0x02] @ [7])) = (Ok, 2, 300) \<and> varintEncode 300 True 4 = (Ok, [0xAC, 0x02])"
proof -
  have enc: "varintEncode 300 True 4 = (Ok, [0xAC, 0x02])" by code_simp
  then show ?thesis using varint_roundtrip [OF enc, of "[7]"] by simp
qed

text \<open>C33: zig-zag is a bijection between the signed and the unsigned 64-bit integers, and it
  orders them by magnitude: a non-negative \<open>n\<close> is stored as \<open>2 n\<close>, a negative one as
  \<open>-2 n - 1\<close>, without overflow at either end of the range.\<close>

theorem zigzag_bijection:
  "zigzagDecode (zigzagEncode v) = v \<and> zigzagEncode (zigzagDecode u) = u \<and>
   uint (zigzagEncode v) = (if 0 \<le> sint v then 2 * sint v else - 2 * sint v - 1)"
  using zigzagDecode_Encode zigzagEncode_Decode uint_zigzagEncode by blast

text \<open>C34: the decoder does not reject an over-long tenth byte. After nine continuation bytes
  only the lowest bit of the tenth one still fits in 64 bits; the others are shifted out and
  the call still reports success, so different inputs decode to one value.\<close>

theorem varint_decode_truncates:
  assumes "b AND 0x80 = 0"
  shows "varintDecode (Some (replicate 9 0x80 @ [b])) = (Ok, 10, if odd b then 2 ^ 63 else 0)"
proof -
  have "bit (ucast (b AND 0x7F) :: u64) 0 \<longleftrightarrow> bit b 0"
    by (simp only: byte_masks bit_unsigned_iff bit_and_iff bit_mask_iff possible_bit_word) simp
  then have "odd (ucast (b AND 0x7F) :: u64) \<longleftrightarrow> odd b" by (simp only: bit_0)
  moreover have "replicate 9 0x80 = [0x80, 0x80, 0x80, 0x80, 0x80, 0x80, 0x80, 0x80, 0x80 :: u8]"
    by (simp add: eval_nat_numeral)
  ultimately show ?thesis using assms by (simp add: varintDecode_def push_bit_top)
qed

theorem varint_decode_truncates_witness:
  "varintDecode (Some (replicate 9 0x80 @ [2])) = (Ok, 10, 0)"
proof -
  have "(2 :: u8) AND 0x80 = 0" by simp
  from varint_decode_truncates [OF this] show ?thesis by simp
qed

end
