(* ===== verification/Block.thy ===== *)
theory Block
  imports Crc
begin

text \<open>
  The file and block headers of the event files (\<^verbatim>\<open>Corpus/Block/FileHeader.cpp\<close>,
  \<^verbatim>\<open>BlockHeader.cpp\<close>). Both structs are packed, so their image is the concatenation of
  their members; \<open>memcpy\<close> to and from memory is \<open>fileHeader_image\<close> / \<open>fileHeader_of_image\<close>
  and the like. A parser takes the caller's \<open>out\<close> object and returns what it holds
  afterwards: it is overwritten before the checks, not only on success.
\<close>

section \<open>FileHeader\<close>

definition kFileMagic :: u32 where "kFileMagic = 0x43585243"
definition kBlockMagic :: u32 where "kBlockMagic = 0x004B4C42"
definition kFileHeaderBytes :: nat where "kFileHeaderBytes = 62"
definition kBlockHeaderBytes :: nat where "kBlockHeaderBytes = 32"

record FileHeader =
  fh_magic :: u32
  fh_flags :: u16
  fh_stream :: u8
  fh_codec :: u8
  fh_reserved0 :: bytes
  fh_created_ns :: u64
  fh_symbol :: bytes
  fh_exchange :: bytes
  fh_reserved1 :: u32
  fh_crc32c :: u32

definition fileHeader_wf :: "FileHeader \<Rightarrow> bool" where
  "fileHeader_wf h \<longleftrightarrow> length (fh_reserved0 h) = 6 \<and> length (fh_symbol h) = 16 \<and>
     length (fh_exchange h) = 16"

definition fileHeader_prefix :: "FileHeader \<Rightarrow> bytes" where
  "fileHeader_prefix h = field_put 4 (fh_magic h) @ field_put 2 (fh_flags h) @
     field_put 1 (fh_stream h) @ field_put 1 (fh_codec h) @ fh_reserved0 h @
     field_put 8 (fh_created_ns h) @ fh_symbol h @ fh_exchange h @ field_put 4 (fh_reserved1 h)"

definition fileHeader_image :: "FileHeader \<Rightarrow> bytes" where
  "fileHeader_image h = fileHeader_prefix h @ field_put 4 (fh_crc32c h)"

definition fileHeader_of_image :: "bytes \<Rightarrow> FileHeader" where
  "fileHeader_of_image bs = \<lparr>fh_magic = field_get 0 4 bs, fh_flags = field_get 4 2 bs,
     fh_stream = field_get 6 1 bs, fh_codec = field_get 7 1 bs, fh_reserved0 = slice 8 6 bs,
     fh_created_ns = field_get 14 8 bs, fh_symbol = slice 22 16 bs, fh_exchange = slice 38 16 bs,
     fh_reserved1 = field_get 54 4 bs, fh_crc32c = field_get 58 4 bs\<rparr>"

text \<open>\<open>out\<close> is the writable capacity, \<open>None\<close> for a null pointer.\<close>

definition fileHeaderSerialize :: "FileHeader \<Rightarrow> nat option \<Rightarrow> status \<times> bytes" where
  "fileHeaderSerialize h out = (case out of None \<Rightarrow> (InvalidArgument, [])
     | Some cap \<Rightarrow> if cap < kFileHeaderBytes then (InvalidArgument, [])
         else (Ok, fileHeader_image (h\<lparr>fh_crc32c := crc32c (take 58 (fileHeader_image h))\<rparr>)))"

definition fileHeaderParse :: "bytes option \<Rightarrow> FileHeader \<Rightarrow> status \<times> FileHeader" where
  "fileHeaderParse inp out = (case inp of None \<Rightarrow> (InvalidArgument, out)
     | Some bs \<Rightarrow> if length bs < kFileHeaderBytes then (InvalidArgument, out)
         else let h = fileHeader_of_image (take kFileHeaderBytes bs) in
           if fh_magic h \<noteq> kFileMagic \<or> fh_flags h \<noteq> 0 \<or> fh_stream h < 1 \<or> 3 < fh_stream h \<or>
              fh_reserved1 h \<noteq> 0 \<or> fh_crc32c h \<noteq> crc32c (take 58 bs)
           then (CorruptData, h)
           else if list_ex (\<lambda>b. b \<noteq> 0) (fh_reserved0 h) then (CorruptData, h)
           else (Ok, h))"

section \<open>BlockHeader\<close>

record BlockHeader =
  bh_magic :: u32
  bh_stream :: u8
  bh_codec :: u8
  bh_flags :: u8
  bh_reserved0 :: u8
  bh_event_count :: u32
  bh_payload_size :: u32
  bh_first_ts_ns :: u64
  bh_reserved1 :: u32
  bh_crc32c :: u32

definition blockHeader_image :: "BlockHeader \<Rightarrow> bytes" where
  "blockHeader_image h = field_put 4 (bh_magic h) @ field_put 1 (bh_stream h) @
     field_put 1 (bh_codec h) @ field_put 1 (bh_flags h) @ field_put 1 (bh_reserved0 h) @
     field_put 4 (bh_event_count h) @ field_put 4 (bh_payload_size h) @
     field_put 8 (bh_first_ts_ns h) @ field_put 4 (bh_reserved1 h) @ field_put 4 (bh_crc32c h)"

definition blockHeader_of_image :: "bytes \<Rightarrow> BlockHeader" where
  "blockHeader_of_image bs = \<lparr>bh_magic = field_get 0 4 bs, bh_stream = field_get 4 1 bs,
     bh_codec = field_get 5 1 bs, bh_flags = field_get 6 1 bs, bh_reserved0 = field_get 7 1 bs,
     bh_event_count = field_get 8 4 bs, bh_payload_size = field_get 12 4 bs,
     bh_first_ts_ns = field_get 16 8 bs, bh_reserved1 = field_get 24 4 bs,
     bh_crc32c = field_get 28 4 bs\<rparr>"

definition blockHeaderSerialize :: "BlockHeader \<Rightarrow> nat option \<Rightarrow> status \<times> bytes" where
  "blockHeaderSerialize h out = (case out of None \<Rightarrow> (InvalidArgument, [])
     | Some cap \<Rightarrow> if cap < kBlockHeaderBytes then (InvalidArgument, [])
         else (Ok, blockHeader_image h))"

definition blockHeaderParse :: "bytes option \<Rightarrow> BlockHeader \<Rightarrow> status \<times> BlockHeader" where
  "blockHeaderParse inp out = (case inp of None \<Rightarrow> (InvalidArgument, out)
     | Some bs \<Rightarrow> if length bs < kBlockHeaderBytes then (InvalidArgument, out)
         else let h = blockHeader_of_image (take kBlockHeaderBytes bs) in
           if bh_magic h \<noteq> kBlockMagic then (CorruptData, h) else (Ok, h))"

section \<open>Images\<close>

lemma length_fileHeader_prefix [simp]: "fileHeader_wf h \<Longrightarrow> length (fileHeader_prefix h) = 58"
  by (simp add: fileHeader_prefix_def fileHeader_wf_def)

lemma length_fileHeader_image [simp]: "fileHeader_wf h \<Longrightarrow> length (fileHeader_image h) = 62"
  by (simp add: fileHeader_image_def)

lemma fileHeader_prefix_crc [simp]: "fileHeader_prefix (h\<lparr>fh_crc32c := c\<rparr>) = fileHeader_prefix h"
  by (simp add: fileHeader_prefix_def)

lemma fileHeader_of_image_image: "fileHeader_wf h \<Longrightarrow> fileHeader_of_image (fileHeader_image h) = h"
  by (cases h) (simp add: fileHeader_of_image_def fileHeader_image_def fileHeader_prefix_def
      fileHeader_wf_def layout_simps)

lemma fileHeader_image_of_image:
  "length bs = 62 \<Longrightarrow> fileHeader_image (fileHeader_of_image bs) = bs"
  by (simp add: fileHeader_of_image_def fileHeader_image_def fileHeader_prefix_def
      field_put_get slice_join slice_last)

lemma blockHeader_of_image_image: "blockHeader_of_image (blockHeader_image h) = h"
  by (cases h) (simp add: blockHeader_of_image_def blockHeader_image_def layout_simps)

lemma blockHeader_image_of_image:
  "length bs = 32 \<Longrightarrow> blockHeader_image (blockHeader_of_image bs) = bs"
  by (simp add: blockHeader_of_image_def blockHeader_image_def field_put_get slice_join slice_last)

section \<open>Acceptance\<close>

definition fileHeader_fields_ok :: "FileHeader \<Rightarrow> bool" where
  "fileHeader_fields_ok h \<longleftrightarrow> fh_magic h = kFileMagic \<and> fh_flags h = 0 \<and>
     fh_stream h \<in> {1, 2, 3} \<and> fh_reserved1 h = 0 \<and> set (fh_reserved0 h) \<subseteq> {0}"

lemma stream_range: "(\<not> (x :: u8) < 1 \<and> \<not> 3 < x) \<longleftrightarrow> x \<in> {1, 2, 3}"
proof -
  have "unat x \<in> {1, 2, 3} \<longleftrightarrow> x \<in> {1, 2, 3}"
    by (simp add: word_eq_iff_unsigned [where 'a = nat and 'b = 8])
  moreover have "1 \<le> unat x \<and> unat x \<le> 3 \<longleftrightarrow> unat x \<in> {1, 2, 3}" by auto
  ultimately show ?thesis by (simp add: word_less_nat_alt not_less Suc_le_eq)
qed

lemma fileHeaderParse_long:
  assumes "62 \<le> length bs" and "h = fileHeader_of_image (take 62 bs)"
  shows "fileHeaderParse (Some bs) out =
    (if fileHeader_fields_ok h \<and> fh_crc32c h = crc32c (take 58 bs) then Ok else CorruptData, h)"
proof -
  have "list_ex (\<lambda>b. b \<noteq> 0) (fh_reserved0 h) \<longleftrightarrow> \<not> set (fh_reserved0 h) \<subseteq> {0}"
    by (auto simp: list_ex_iff)
  then show ?thesis using assms stream_range [of "fh_stream h"]
    by (auto simp: fileHeaderParse_def fileHeader_fields_ok_def kFileHeaderBytes_def Let_def)
qed

lemma fh_crc32c_of_image: "fh_crc32c (fileHeader_of_image bs) = field_get 58 4 bs"
  by (simp add: fileHeader_of_image_def)

lemma fileHeaderParse_status:
  "62 \<le> length bs \<Longrightarrow> fst (fileHeaderParse (Some bs) out) =
     (if fileHeader_fields_ok (fileHeader_of_image (take 62 bs)) \<and>
         field_get 58 4 bs = crc32c (take 58 bs) then Ok else CorruptData)"
  by (simp add: fileHeaderParse_long [OF _ refl] fh_crc32c_of_image field_get_take)

lemma field_get_inject:
  assumes "LENGTH('a) = 8 * k" "off + k \<le> length bs" "off + k \<le> length cs"
    and "field_get off k bs = (field_get off k cs :: 'a::len word)"
  shows "slice off k bs = slice off k cs"
  using assms field_put_get [where 'a = 'a, of k off bs] field_put_get [where 'a = 'a, of k off cs]
  by simp

lemma fileHeader_serialize_parse:
  assumes "fileHeader_wf h" and "62 \<le> cap"
  shows "\<exists>bs. fileHeaderSerialize h (Some cap) = (Ok, bs) \<and> length bs = 62 \<and>
    fileHeaderParse (Some (bs @ rest)) out =
      (if fileHeader_fields_ok h then Ok else CorruptData, h\<lparr>fh_crc32c := crc32c (take 58 bs)\<rparr>)"
proof -
  let ?h = "h\<lparr>fh_crc32c := crc32c (fileHeader_prefix h)\<rparr>"
  let ?bs = "fileHeader_image ?h"
  have wf: "fileHeader_wf ?h" using assms by (simp add: fileHeader_wf_def)
  have pre: "take 58 (fileHeader_image h) = fileHeader_prefix h" "take 58 ?bs = fileHeader_prefix h"
    using assms by (simp_all add: fileHeader_image_def)
  have "fileHeaderParse (Some (?bs @ rest)) out =
      (if fileHeader_fields_ok ?h \<and> fh_crc32c ?h = crc32c (take 58 (?bs @ rest)) then Ok else CorruptData, ?h)"
    using wf by (intro fileHeaderParse_long) (simp_all add: fileHeader_of_image_image)
  moreover have "fileHeader_fields_ok ?h \<longleftrightarrow> fileHeader_fields_ok h"
    by (simp add: fileHeader_fields_ok_def)
  ultimately show ?thesis using assms wf pre
    by (simp add: fileHeaderSerialize_def kFileHeaderBytes_def)
qed

definition sampleFileHeader :: FileHeader where
  "sampleFileHeader = \<lparr>fh_magic = kFileMagic, fh_flags = 0, fh_stream = 2, fh_codec = 1,
     fh_reserved0 = replicate 6 0, fh_created_ns = 1700000000, fh_symbol = replicate 16 66,
     fh_exchange = replicate 16 67, fh_reserved1 = 0, fh_crc32c = 0\<rparr>"

lemmas sample_simps = sampleFileHeader_def fileHeader_wf_def fileHeader_fields_ok_def

section \<open>Properties\<close>





end
