(* ===== verification/Json.thy ===== *)
theory Json
  imports Prelude "HOL-Library.Char_ord"
begin

text \<open>
  The JSON reader \<^verbatim>\<open>Common/MiniJsonParser.hpp\<close> and the string writer
  \<^verbatim>\<open>Common/JsonString.hpp\<close>. The parser object holds the text and a position, and no
  method looks behind the position, so its state here is the text that remains. A method
  that returns \<open>true\<close> is \<open>Some\<close> of what remains (with the parsed value, if it has one), and
  \<open>None\<close> is \<open>false\<close>; every caller abandons the parser after a \<open>false\<close>, except in the two
  \<open>do\<close>-\<open>while\<close> loops, whose failing \<open>parseComma\<close> has skipped white space.

  \<open>skipValue\<close>, \<open>skipObject_\<close> and \<open>skipArray_\<close> call each other; they are given fuel, one more
  than the length of the text, and \<open>skipValue_fuel_enough\<close> shows that no more is ever used.
\<close>

section \<open>Characters\<close>

abbreviation quoteChar :: char where "quoteChar \<equiv> CHR 0x22"
abbreviation backslash :: char where "backslash \<equiv> CHR 0x5C"

definition isWs :: "char \<Rightarrow> bool" where
  "isWs ch \<longleftrightarrow> ch = CHR '' '' \<or> ch = CHR 0x09 \<or> ch = CHR 0x0A \<or> ch = CHR 0x0D"

definition isDigit :: "char \<Rightarrow> bool" where
  "isDigit ch \<longleftrightarrow> CHR ''0'' \<le> ch \<and> ch \<le> CHR ''9''"

definition digitVal :: "char \<Rightarrow> nat" where
  "digitVal ch = of_char ch - of_char CHR ''0''"

definition hexVal :: "char \<Rightarrow> nat option" where
  "hexVal hex = (if CHR ''0'' \<le> hex \<and> hex \<le> CHR ''9'' then Some (of_char hex - of_char CHR ''0'')
     else if CHR ''a'' \<le> hex \<and> hex \<le> CHR ''f'' then Some (of_char hex - of_char CHR ''a'' + 10)
     else if CHR ''A'' \<le> hex \<and> hex \<le> CHR ''F'' then Some (of_char hex - of_char CHR ''A'' + 10)
     else None)"

section \<open>Structure\<close>

definition skipWs :: "string \<Rightarrow> string" where
  "skipWs s = dropWhile isWs s"

definition consume :: "char \<Rightarrow> string \<Rightarrow> string option" where
  "consume expected s = (case s of [] \<Rightarrow> None | ch # r \<Rightarrow> if ch \<noteq> expected then None else Some r)"

definition consumeLiteral :: "string \<Rightarrow> string \<Rightarrow> string option" where
  "consumeLiteral literal s =
     (if take (length literal) s \<noteq> literal then None else Some (drop (length literal) s))"

definition finish :: "string \<Rightarrow> bool" where
  "finish s \<longleftrightarrow> skipWs s = []"

definition parseObjectStart :: "string \<Rightarrow> string option" where
  "parseObjectStart s = map_option skipWs (consume CHR ''{'' (skipWs s))"

definition parseObjectEnd :: "string \<Rightarrow> string option" where
  "parseObjectEnd s = consume CHR ''}'' (skipWs s)"

definition parseArrayStart :: "string \<Rightarrow> string option" where
  "parseArrayStart s = map_option skipWs (consume CHR ''['' (skipWs s))"

definition parseArrayEnd :: "string \<Rightarrow> string option" where
  "parseArrayEnd s = consume CHR '']'' (skipWs s)"

definition parseComma :: "string \<Rightarrow> string option" where
  "parseComma s = consume CHR '','' (skipWs s)"

definition peek :: "char \<Rightarrow> string \<Rightarrow> bool" where
  "peek ch s = (case skipWs s of [] \<Rightarrow> False | c # r \<Rightarrow> c = ch)"

section \<open>Strings\<close>

text \<open>The \<open>\\u\<close> escape: four hexadecimal digits, then the code point in UTF-8.\<close>

fun parseHex :: "nat \<Rightarrow> nat \<Rightarrow> string \<Rightarrow> (nat \<times> string) option" where
  "parseHex 0 value s = Some (value, s)"
| "parseHex (Suc n) value [] = None"
| "parseHex (Suc n) value (hex # s) =
     (case hexVal hex of None \<Rightarrow> None | Some d \<Rightarrow> parseHex n (push_bit 4 value OR d) s)"

definition utf8 :: "nat \<Rightarrow> string" where
  "utf8 value =
     (if value \<le> 0x7F then [char_of value]
      else if value \<le> 0x7FF then
        [char_of (0xC0 OR (drop_bit 6 value AND 0x1F)), char_of (0x80 OR (value AND 0x3F))]
      else [char_of (0xE0 OR (drop_bit 12 value AND 0x0F)),
        char_of (0x80 OR (drop_bit 6 value AND 0x3F)), char_of (0x80 OR (value AND 0x3F))])"

definition parseEscape :: "char \<Rightarrow> string \<Rightarrow> (string \<times> string) option" where
  "parseEscape esc s =
     (if esc = quoteChar then Some ([quoteChar], s)
      else if esc = backslash then Some ([backslash], s)
      else if esc = CHR ''/'' then Some (''/'', s)
      else if esc = CHR ''b'' then Some ([CHR 0x08], s)
      else if esc = CHR ''f'' then Some ([CHR 0x0C], s)
      else if esc = CHR ''n'' then Some ([CHR 0x0A], s)
      else if esc = CHR ''r'' then Some ([CHR 0x0D], s)
      else if esc = CHR ''t'' then Some ([CHR 0x09], s)
      else if esc = CHR ''u'' then map_option (\<lambda>(value, r). (utf8 value, r)) (parseHex 4 0 s)
      else None)"

lemma parseHex_length: "parseHex n v s = Some (w, r) \<Longrightarrow> length s = length r + n"
  by (induction n v s rule: parseHex.induct) (auto split: option.splits)

lemma parseEscape_length: "parseEscape esc s = Some (cs, r) \<Longrightarrow> length r \<le> length s"
  by (auto simp: parseEscape_def dest!: parseHex_length split: if_splits)

function stringLoop :: "string \<Rightarrow> string \<Rightarrow> (string \<times> string) option" where
  "stringLoop out [] = None"
| "stringLoop out (ch # s) =
     (if ch = quoteChar then Some (out, s)
      else if ch \<noteq> backslash then
        (if (of_char ch :: nat) < 0x20 then None else stringLoop (out @ [ch]) s)
      else case s of [] \<Rightarrow> None
        | esc # t \<Rightarrow> (case parseEscape esc t of None \<Rightarrow> None
            | Some (cs, r) \<Rightarrow> stringLoop (out @ cs) r))"
  by pat_completeness auto
termination
  by (relation "measure (\<lambda>(out, s). length s)") (auto dest: parseEscape_length)

definition parseString :: "string \<Rightarrow> (string \<times> string) option" where
  "parseString s = (case skipWs s of [] \<Rightarrow> None
     | ch # r \<Rightarrow> if ch \<noteq> quoteChar then None else stringLoop [] r)"

definition parseKey :: "string \<Rightarrow> (string \<times> string) option" where
  "parseKey s = do { (key, r) \<leftarrow> parseString s; r' \<leftarrow> consume CHR '':'' (skipWs r); Some (key, r') }"

section \<open>Numbers and literals\<close>

definition endsNumber :: "string \<Rightarrow> bool" where
  "endsNumber s = (case s of [] \<Rightarrow> True
     | next # r \<Rightarrow> isWs next \<or> next = CHR '','' \<or> next = CHR '']'' \<or> next = CHR ''}'')"

definition startsDigit :: "string \<Rightarrow> bool" where
  "startsDigit s = (case s of [] \<Rightarrow> False | ch # r \<Rightarrow> isDigit ch)"

text \<open>The accumulator is a \<open>uint64\<close>; the guard keeps it in range, so it is a number here.\<close>

fun digitLoop :: "bool \<Rightarrow> nat \<Rightarrow> string \<Rightarrow> (nat \<times> string) option" where
  "digitLoop leadingZero value [] = Some (value, [])"
| "digitLoop leadingZero value (ch # s) =
     (if \<not> isDigit ch then Some (value, ch # s)
      else if value > (2 ^ 64 - 1 - digitVal ch) div 10 then None
      else if leadingZero \<and> startsDigit s then None
      else digitLoop leadingZero (value * 10 + digitVal ch) s)"

definition parseUInt64 :: "string \<Rightarrow> (u64 \<times> string) option" where
  "parseUInt64 s0 = (let s = skipWs s0 in
     if s = [] \<or> hd s = CHR ''-'' then None
     else if \<not> isDigit (hd s) then None
     else do {
       (value, r) \<leftarrow> digitLoop (hd s = CHR ''0'') 0 s;
       if endsNumber r then Some (word_of_nat value, r) else None })"

definition parseInt64 :: "string \<Rightarrow> (i64 \<times> string) option" where
  "parseInt64 s0 = (let s1 = skipWs s0 in
     if s1 = [] then None
     else let neg = (hd s1 = CHR ''-''); s = (if neg then tl s1 else s1) in
       if \<not> startsDigit s then None
       else do {
         (value, r) \<leftarrow> digitLoop (hd s = CHR ''0'') 0 s;
         if \<not> endsNumber r then None
         else if neg then (if value > 2 ^ 63 then None else Some (- word_of_nat value, r))
         else if value > 2 ^ 63 - 1 then None
         else Some (word_of_nat value, r) })"

definition parseBool :: "string \<Rightarrow> (bool \<times> string) option" where
  "parseBool s0 = (let s = skipWs s0 in
     case consumeLiteral ''true'' s of Some r \<Rightarrow> Some (True, r)
     | None \<Rightarrow> (case consumeLiteral ''false'' s of Some r \<Rightarrow> Some (False, r) | None \<Rightarrow> None))"

section \<open>Skipping a value\<close>

definition skipIntPart :: "string \<Rightarrow> string option" where
  "skipIntPart s = (case s of [] \<Rightarrow> None
     | ch # r \<Rightarrow> if ch = CHR ''0'' then (if startsDigit r then None else Some r)
         else if CHR ''1'' \<le> ch \<and> ch \<le> CHR ''9'' then Some (dropWhile isDigit r) else None)"

definition skipFraction :: "string \<Rightarrow> string option" where
  "skipFraction s = (if s \<noteq> [] \<and> hd s = CHR ''.''
     then (if startsDigit (tl s) then Some (dropWhile isDigit (tl s)) else None) else Some s)"

definition skipExponent :: "string \<Rightarrow> string option" where
  "skipExponent s = (if s \<noteq> [] \<and> (hd s = CHR ''e'' \<or> hd s = CHR ''E'')
     then (let t = tl s; u = (if t \<noteq> [] \<and> (hd t = CHR ''+'' \<or> hd t = CHR ''-'') then tl t else t)
           in if startsDigit u then Some (dropWhile isDigit u) else None)
     else Some s)"

definition skipNumber :: "string \<Rightarrow> string option" where
  "skipNumber s0 = (let s1 = skipWs s0 in
     if s1 = [] then None
     else do {
       a \<leftarrow> skipIntPart (if hd s1 = CHR ''-'' then tl s1 else s1);
       b \<leftarrow> skipFraction a;
       c \<leftarrow> skipExponent b;
       if endsNumber c then Some c else None })"

fun skipValueF :: "nat \<Rightarrow> string \<Rightarrow> string option"
  and skipObjectLoop :: "nat \<Rightarrow> string \<Rightarrow> string option"
  and skipArrayLoop :: "nat \<Rightarrow> string \<Rightarrow> string option" where
  "skipValueF 0 s0 = None"
| "skipValueF (Suc n) s0 = (let s = skipWs s0 in
     if s = [] then None
     else if hd s = CHR ''{'' then do {
       r \<leftarrow> parseObjectStart s;
       if peek CHR ''}'' r then parseObjectEnd r else skipObjectLoop n r }
     else if hd s = CHR ''['' then do {
       r \<leftarrow> parseArrayStart s;
       if peek CHR '']'' r then parseArrayEnd r else skipArrayLoop n r }
     else if hd s = quoteChar then map_option snd (parseString s)
     else if hd s = CHR ''t'' then consumeLiteral ''true'' s
     else if hd s = CHR ''f'' then consumeLiteral ''false'' s
     else if hd s = CHR ''n'' then consumeLiteral ''null'' s
     else skipNumber s)"
| "skipObjectLoop 0 s = None"
| "skipObjectLoop (Suc n) s = do {
     (key, a) \<leftarrow> parseKey s;
     b \<leftarrow> skipValueF n a;
     if peek CHR ''}'' b then parseObjectEnd b
     else case parseComma b of Some c \<Rightarrow> skipObjectLoop n c | None \<Rightarrow> parseObjectEnd (skipWs b) }"
| "skipArrayLoop 0 s = None"
| "skipArrayLoop (Suc n) s = do {
     b \<leftarrow> skipValueF n s;
     if peek CHR '']'' b then parseArrayEnd b
     else case parseComma b of Some c \<Rightarrow> skipArrayLoop n c | None \<Rightarrow> parseArrayEnd (skipWs b) }"

definition skipValue :: "string \<Rightarrow> string option" where
  "skipValue s = skipValueF (2 * length s + 1) s"

section \<open>Writing strings and integers\<close>

definition hexDigit :: "nat \<Rightarrow> char" where
  "hexDigit n = ''0123456789abcdef'' ! n"

definition escapeChar :: "char \<Rightarrow> string" where
  "escapeChar ch =
     (if ch = backslash then [backslash, backslash]
      else if ch = quoteChar then [backslash, quoteChar]
      else if ch = CHR 0x08 then [backslash, CHR ''b'']
      else if ch = CHR 0x0C then [backslash, CHR ''f'']
      else if ch = CHR 0x0A then [backslash, CHR ''n'']
      else if ch = CHR 0x0D then [backslash, CHR ''r'']
      else if ch = CHR 0x09 then [backslash, CHR ''t'']
      else if (of_char ch :: nat) < 0x20 then
        [backslash, CHR ''u'', CHR ''0'', CHR ''0'',
         hexDigit (drop_bit 4 (of_char ch) AND 0x0F), hexDigit (of_char ch AND 0x0F)]
      else [ch])"

definition appendEscaped :: "string \<Rightarrow> string \<Rightarrow> string" where
  "appendEscaped out value = foldl (\<lambda>acc ch. acc @ escapeChar ch) out value"

definition quote :: "string \<Rightarrow> string" where
  "quote value = appendEscaped [quoteChar] value @ [quoteChar]"

text \<open>\<^verbatim>\<open>std::to_chars\<close> in base ten.\<close>

fun to_chars_nat :: "nat \<Rightarrow> string" where
  "to_chars_nat n = (if n < 10 then [char_of (48 + n)]
     else to_chars_nat (n div 10) @ [char_of (48 + n mod 10)])"

declare to_chars_nat.simps [simp del]

definition to_chars_u :: "'a::len word \<Rightarrow> string" where
  "to_chars_u w = to_chars_nat (unat w)"

definition to_chars_i :: "i64 \<Rightarrow> string" where
  "to_chars_i w = (if sint w < 0 then CHR ''-'' # to_chars_nat (nat (- sint w))
     else to_chars_nat (nat (sint w)))"

section \<open>What remains gets shorter\<close>

lemma length_skipWs: "length (skipWs s) \<le> length s"
  by (simp add: skipWs_def length_dropWhile_le)

lemma consume_length: "consume c s = Some r \<Longrightarrow> length r < length s"
  by (auto simp: consume_def split: list.splits if_splits)

lemma structure_length:
  "parseObjectStart s = Some r \<Longrightarrow> length r < length s"
  "parseObjectEnd s = Some r \<Longrightarrow> length r < length s"
  "parseArrayStart s = Some r \<Longrightarrow> length r < length s"
  "parseArrayEnd s = Some r \<Longrightarrow> length r < length s"
  "parseComma s = Some r \<Longrightarrow> length r < length s"
  unfolding parseObjectStart_def parseObjectEnd_def parseArrayStart_def parseArrayEnd_def parseComma_def
  using length_skipWs [of s]
  by (auto dest!: consume_length intro: le_less_trans [OF length_skipWs])

lemma stringLoop_length: "stringLoop out s = Some (v, r) \<Longrightarrow> length r < length s"
proof (induction out s rule: stringLoop.induct)
  case (1 out)
  then show ?case by simp
next
  case (2 out ch s)
  then show ?case
    by (fastforce dest: parseEscape_length split: if_splits list.splits option.splits)
qed

lemma parseString_length: "parseString s = Some (v, r) \<Longrightarrow> length r < length s"
  using length_skipWs [of s]
  by (auto simp: parseString_def dest!: stringLoop_length split: list.splits if_splits)

lemma parseKey_length: "parseKey s = Some (v, r) \<Longrightarrow> length r < length s"
  by (fastforce simp: parseKey_def bind_eq_Some_conv dest!: parseString_length consume_length
      intro: order.strict_trans le_less_trans [OF length_skipWs])

lemma consumeLiteral_length: "consumeLiteral l s = Some r \<Longrightarrow> l \<noteq> [] \<Longrightarrow> length r < length s"
  by (cases s; cases l) (auto simp: consumeLiteral_def split: if_splits)

lemma skipIntPart_length: "skipIntPart s = Some r \<Longrightarrow> length r < length s"
  by (auto simp: skipIntPart_def less_Suc_eq_le length_dropWhile_le split: list.splits if_splits)

lemma skip_tail_length:
  "skipFraction s = Some r \<Longrightarrow> length r \<le> length s"
  "skipExponent s = Some r \<Longrightarrow> length r \<le> length s"
  by (auto simp: skipFraction_def skipExponent_def Let_def split: if_splits
      intro!: order_trans [OF length_dropWhile_le])

lemma skipNumber_length:
  assumes "skipNumber s = Some r"
  shows "length r < length s"
proof -
  let ?t = "if hd (skipWs s) = CHR ''-'' then tl (skipWs s) else skipWs s"
  obtain a b where "skipIntPart ?t = Some a" "skipFraction a = Some b" "skipExponent b = Some r"
    using assms by (auto simp: skipNumber_def Let_def bind_eq_Some_conv split: if_splits)
  then have "length r < length ?t"
    by (meson order.strict_trans1 skipIntPart_length skip_tail_length)
  then show ?thesis using length_skipWs [of s] by (simp split: if_splits)
qed

lemma close_length:
  "(if peek CHR ''}'' b then parseObjectEnd b else case parseComma b of Some c \<Rightarrow> f c
      | None \<Rightarrow> parseObjectEnd (skipWs b)) = Some r \<Longrightarrow>
     (\<And>c. f c = Some r \<Longrightarrow> length r < length c) \<Longrightarrow> length r < length b"
  "(if peek CHR '']'' b then parseArrayEnd b else case parseComma b of Some c \<Rightarrow> f c
      | None \<Rightarrow> parseArrayEnd (skipWs b)) = Some r \<Longrightarrow>
     (\<And>c. f c = Some r \<Longrightarrow> length r < length c) \<Longrightarrow> length r < length b"
  using length_skipWs [of b]
  by (force split: if_splits option.splits dest: structure_length)+

lemma skip_length:
  "skipValueF n s = Some r \<Longrightarrow> length r < length s"
  "skipObjectLoop n s = Some r \<Longrightarrow> length r < length s"
  "skipArrayLoop n s = Some r \<Longrightarrow> length r < length s"
proof (induction n arbitrary: s r)
  case 0
  {
    case 1
    then show ?case by simp
  next
    case 2
    then show ?case by simp
  next
    case 3
    then show ?case by simp
  }
next
  case (Suc n)
  {
    case 1
    have "length r < length (skipWs s)" using 1
      by (auto simp: Let_def bind_eq_Some_conv split: if_splits
          dest: parseString_length consumeLiteral_length skipNumber_length
          dest!: structure_length Suc(2) Suc(3))
    then show ?case using length_skipWs [of s] by simp
  next
    case 2
    then obtain k a b where ab: "parseKey s = Some (k, a)" "skipValueF n a = Some b"
      and r: "(if peek CHR ''}'' b then parseObjectEnd b else case parseComma b of
          Some c \<Rightarrow> skipObjectLoop n c | None \<Rightarrow> parseObjectEnd (skipWs b)) = Some r"
      by (auto simp: bind_eq_Some_conv simp del: if_split)
    show ?case using close_length(1) [OF r Suc(2)] Suc(1) [OF ab(2)] parseKey_length [OF ab(1)]
      by simp
  next
    case 3
    then obtain b where b: "skipValueF n s = Some b"
      and r: "(if peek CHR '']'' b then parseArrayEnd b else case parseComma b of
          Some c \<Rightarrow> skipArrayLoop n c | None \<Rightarrow> parseArrayEnd (skipWs b)) = Some r"
      by (auto simp: bind_eq_Some_conv simp del: if_split)
    show ?case using close_length(2) [OF r Suc(3)] Suc(1) [OF b] by simp
  }
qed

lemma close_cong:
  assumes "\<And>c. length c < length b \<Longrightarrow> f c = g c"
  shows "(case parseComma b of Some c \<Rightarrow> f c | None \<Rightarrow> z) =
    (case parseComma b of Some c \<Rightarrow> g c | None \<Rightarrow> z)"
  using assms by (auto split: option.splits dest: structure_length)

lemma skip_fuel:
  "2 * length s < n \<Longrightarrow> 2 * length s < m \<Longrightarrow> skipValueF n s = skipValueF m s"
  "2 * length s + 1 < n \<Longrightarrow> 2 * length s + 1 < m \<Longrightarrow> skipObjectLoop n s = skipObjectLoop m s"
  "2 * length s + 1 < n \<Longrightarrow> 2 * length s + 1 < m \<Longrightarrow> skipArrayLoop n s = skipArrayLoop m s"
proof (induction n arbitrary: s m)
  case 0
  {
    case 1
    then show ?case by simp
  next
    case 2
    then show ?case by simp
  next
    case 3
    then show ?case by simp
  }
next
  case (Suc n)
  {
    case 1
    then obtain m' where m: "m = Suc m'" by (cases m) auto
    have len: "2 * length r + 1 < n \<and> 2 * length r + 1 < m'"
      if "parseObjectStart (skipWs s) = Some r \<or> parseArrayStart (skipWs s) = Some r" for r
    proof -
      have "length r < length s"
        using that structure_length(1,3) [of "skipWs s" r] length_skipWs [of s] by auto
      then show ?thesis using 1 m by linarith
    qed
    have "skipObjectLoop n r = skipObjectLoop m' r" if "parseObjectStart (skipWs s) = Some r" for r
      using Suc(2) [of r m'] len [of r] that by blast
    moreover have "skipArrayLoop n r = skipArrayLoop m' r" if "parseArrayStart (skipWs s) = Some r" for r
      using Suc(3) [of r m'] len [of r] that by blast
    ultimately show ?case unfolding m by (auto simp: Let_def intro!: Option.bind_cong)
  next
    case 2
    then obtain m' where m: "m = Suc m'" by (cases m) auto
    have v: "skipValueF n a = skipValueF m' a" if "parseKey s = Some (k, a)" for k a
      using Suc(1) [of a m'] parseKey_length [OF that] 2 m by simp
    have l: "skipObjectLoop n c = skipObjectLoop m' c"
      if "parseKey s = Some (k, a)" "skipValueF m' a = Some b" "length c < length b" for k a b c
      using Suc(2) [of c m'] parseKey_length [OF that(1)] skip_length(1) [OF that(2)] that(3) 2 m by simp
    show ?case unfolding m
      by (auto simp: v l intro!: Option.bind_cong close_cong)
  next
    case 3
    then obtain m' where m: "m = Suc m'" by (cases m) auto
    have v: "skipValueF n s = skipValueF m' s" using Suc(1) [of s m'] 3 m by simp
    have l: "skipArrayLoop n c = skipArrayLoop m' c"
      if "skipValueF m' s = Some b" "length c < length b" for b c
      using Suc(3) [of c m'] skip_length(1) [OF that(1)] that(2) 3 m by simp
    show ?case unfolding m by (auto simp: v l intro!: Option.bind_cong close_cong)
  }
qed

lemma skipValue_fuel_enough: "2 * length s < n \<Longrightarrow> skipValueF n s = skipValue s"
  unfolding skipValue_def by (rule skip_fuel(1)) simp_all

section \<open>Reading what was written\<close>

lemma structure_simps [json_simps]:
  "parseArrayStart (CHR ''['' # s) = Some (skipWs s)"
  "parseArrayEnd (CHR '']'' # s) = Some s"
  "parseObjectStart (CHR ''{'' # s) = Some (skipWs s)"
  "parseObjectEnd (CHR ''}'' # s) = Some s"
  "parseComma (CHR '','' # s) = Some s"
  by (simp_all add: parseArrayStart_def parseArrayEnd_def parseObjectStart_def parseObjectEnd_def
      parseComma_def skipWs_def isWs_def consume_def)

lemma isWs_simps [json_simps]:
  "\<not> isWs CHR ''['' \<and> \<not> isWs CHR '']'' \<and> \<not> isWs CHR ''{'' \<and> \<not> isWs CHR ''}'' \<and>
   \<not> isWs CHR '','' \<and> \<not> isWs CHR '':'' \<and> \<not> isWs CHR ''-'' \<and> \<not> isWs quoteChar \<and>
   isWs CHR 0x0A"
  by (simp add: isWs_def)

lemma skipWs_simps [json_simps]:
  "skipWs [] = []"
  "\<not> isWs c \<Longrightarrow> skipWs (c # s) = c # s"
  "isWs c \<Longrightarrow> skipWs (c # s) = skipWs s"
  by (simp_all add: skipWs_def)

lemma endsNumber_simps [json_simps]:
  "endsNumber []" "endsNumber (CHR '','' # s)" "endsNumber (CHR '']'' # s)"
  "endsNumber (CHR ''}'' # s)"
  by (simp_all add: endsNumber_def)

lemma endsNumber_not_digit: "endsNumber s \<Longrightarrow> \<not> startsDigit s"
  by (auto simp: endsNumber_def startsDigit_def isWs_def isDigit_def less_eq_char_def split: list.splits)

abbreviation digitsVal :: "nat \<Rightarrow> string \<Rightarrow> nat" where
  "digitsVal v ds \<equiv> foldl (\<lambda>v c. v * 10 + digitVal c) v ds"

lemma of_char_digit: "n < 10 \<Longrightarrow> of_char (char_of (48 + n)) = (48 + n :: nat)"
  by (simp add: of_char_of take_bit_eq_mod)

lemma digitVal_char: "n < 10 \<Longrightarrow> digitVal (char_of (48 + n)) = n"
  by (simp add: digitVal_def of_char_digit)

lemma isDigit_char: "(n :: nat) < 10 \<Longrightarrow> isDigit (char_of (48 + n))"
  by (simp add: isDigit_def less_eq_char_def of_char_digit)

lemma digitVal_less: "isDigit c \<Longrightarrow> digitVal c < 10"
  by (auto simp: isDigit_def digitVal_def less_eq_char_def)

lemma char_of_48: "char_of (48 :: nat) = CHR ''0''"
  by (simp add: char_of_eq_iff take_bit_eq_mod)

lemma to_chars_nat_nonempty [simp]: "to_chars_nat n \<noteq> []"
  by (subst to_chars_nat.simps) simp

lemma to_chars_nat_digits: "list_all isDigit (to_chars_nat n)"
proof (induction n rule: to_chars_nat.induct)
  case (1 n)
  then show ?case by (subst to_chars_nat.simps) (simp add: isDigit_char)
qed

lemma digitsVal_to_chars_nat: "digitsVal 0 (to_chars_nat n) = n"
proof (induction n rule: to_chars_nat.induct)
  case (1 n)
  then show ?case by (subst to_chars_nat.simps) (simp add: digitVal_char)
qed

lemma hd_to_chars_nat: "hd (to_chars_nat n) = CHR ''0'' \<longleftrightarrow> n = 0"
proof (induction n rule: to_chars_nat.induct)
  case (1 n)
  have "char_of (48 + n) = CHR ''0'' \<longleftrightarrow> n = 0" if "n < 10"
    using that by (auto simp: char_of_eq_iff take_bit_eq_mod)
  with 1 show ?case by (subst to_chars_nat.simps) (auto simp: hd_append)
qed

lemma digitsVal_ge: "v \<le> digitsVal v ds"
proof (induction ds arbitrary: v)
  case (Cons d ds)
  have "v \<le> v * 10 + digitVal d" by simp
  from order_trans [OF this Cons.IH] show ?case by simp
qed simp

lemma digitLoop_digits:
  "list_all isDigit ds \<Longrightarrow> \<not> startsDigit rest \<Longrightarrow> digitsVal v ds < 2 ^ 64 \<Longrightarrow>
     digitLoop False v (ds @ rest) = Some (digitsVal v ds, rest)"
proof (induction ds arbitrary: v)
  case Nil
  then show ?case by (cases rest) (simp_all add: startsDigit_def)
next
  case (Cons d ds)
  have "v * 10 + digitVal d < 2 ^ 64"
    using Cons.prems(3) digitsVal_ge [of "v * 10 + digitVal d" ds] by simp
  then have "v \<le> (2 ^ 64 - 1 - digitVal d) div 10" by (simp add: less_eq_div_iff_mult_less_eq)
  then show ?case using Cons by simp
qed

lemma digitLoop_to_chars_nat:
  assumes "n < 2 ^ 64" and "\<not> startsDigit rest"
  shows "digitLoop (hd (to_chars_nat n) = CHR ''0'') 0 (to_chars_nat n @ rest) = Some (n, rest)"
proof (cases "n = 0")
  case True
  have "to_chars_nat 0 = ''0''" by (simp add: to_chars_nat.simps char_of_48)
  moreover have "digitLoop True 0 (CHR ''0'' # rest) = Some (0, rest)"
    using assms(2) by (cases rest) (simp_all add: isDigit_def digitVal_def startsDigit_def)
  ultimately show ?thesis using True by simp
next
  case False
  then have "hd (to_chars_nat n) \<noteq> CHR ''0''" by (simp add: hd_to_chars_nat)
  then show ?thesis
    using digitLoop_digits [of "to_chars_nat n" rest 0] assms
    by (simp add: to_chars_nat_digits digitsVal_to_chars_nat)
qed

lemma isDigit_not:
  "isDigit c \<Longrightarrow> \<not> isWs c \<and> c \<noteq> CHR ''-'' \<and> c \<noteq> CHR ''['' \<and> c \<noteq> CHR ''{'' \<and>
     c \<noteq> quoteChar \<and> c \<noteq> CHR ''t'' \<and> c \<noteq> CHR ''f'' \<and> c \<noteq> CHR ''n'' \<and> c \<noteq> CHR '']''"
  by (auto simp: isDigit_def isWs_def less_eq_char_def)

lemma to_chars_nat_Cons:
  obtains c ds where "to_chars_nat n = c # ds" and "isDigit c"
  using to_chars_nat_digits [of n] to_chars_nat_nonempty [of n] by (cases "to_chars_nat n") auto

lemma skipWs_to_chars_nat: "skipWs (to_chars_nat n @ rest) = to_chars_nat n @ rest"
  by (rule to_chars_nat_Cons [of n]) (simp add: skipWs_def isDigit_not)

lemma parseUInt64_to_chars [json_simps]:
  fixes w :: "'a::len word"
  assumes "endsNumber rest" and "LENGTH('a) \<le> 64"
  shows "parseUInt64 (to_chars_u w @ rest) = Some (ucast w, rest)"
proof -
  let ?n = "unat w"
  have "?n < 2 ^ LENGTH('a)" by (rule unsigned_less)
  also have "\<dots> \<le> 2 ^ 64" using assms(2) by (rule power_increasing) simp
  finally have loop: "digitLoop (hd (to_chars_nat ?n) = CHR ''0'') 0 (to_chars_nat ?n @ rest) = Some (?n, rest)"
    using assms(1) by (intro digitLoop_to_chars_nat) (simp_all add: endsNumber_not_digit)
  have "hd (to_chars_nat ?n @ rest) = hd (to_chars_nat ?n)" by (simp add: hd_append)
  moreover have "isDigit (hd (to_chars_nat ?n))" by (rule to_chars_nat_Cons [of ?n]) simp
  ultimately show ?thesis using assms(1) loop isDigit_not [of "hd (to_chars_nat ?n)"]
    by (simp add: parseUInt64_def to_chars_u_def Let_def skipWs_to_chars_nat)
qed

lemma parseInt64_to_chars [json_simps]:
  assumes "endsNumber rest"
  shows "parseInt64 (to_chars_i v @ rest) = Some (v, rest)"
proof -
  have range: "- (2 ^ 63) \<le> sint v" "sint v < 2 ^ 63" using sint_ge [of v] sint_lt [of v] by simp_all
  have start: "startsDigit (to_chars_nat n @ rest)" for n
    by (rule to_chars_nat_Cons [of n]) (simp add: startsDigit_def)
  have digit: "isDigit (hd (to_chars_nat n))" for n by (rule to_chars_nat_Cons [of n]) simp
  have head: "hd (to_chars_nat n @ rest) = hd (to_chars_nat n)" for n by (simp add: hd_append)
  have loop: "digitLoop (hd (to_chars_nat n) = CHR ''0'') 0 (to_chars_nat n @ rest) = Some (n, rest)"
    if "n < 2 ^ 64" for n using that assms by (intro digitLoop_to_chars_nat) (simp_all add: endsNumber_not_digit)
  show ?thesis
  proof (cases "sint v < 0")
    case True
    let ?n = "nat (- sint v)"
    have n: "?n \<le> 2 ^ 63" "?n < 2 ^ 64" using range True by (simp_all add: nat_le_iff)
    have "- word_of_nat ?n = v" using True by simp
    then show ?thesis using True assms n loop [OF n(2)] start [of ?n] head [of ?n]
      by (simp add: parseInt64_def to_chars_i_def Let_def skipWs_def isWs_def)
  next
    case False
    let ?n = "nat (sint v)"
    have n: "?n \<le> 2 ^ 63 - 1" "?n < 2 ^ 64" using range False by (simp_all add: nat_le_iff)
    have "word_of_nat ?n = v" using False by simp
    then show ?thesis
      using False assms n loop [OF n(2)] start [of ?n] head [of ?n] isDigit_not [OF digit [of ?n]]
      by (simp add: parseInt64_def to_chars_i_def Let_def skipWs_to_chars_nat)
  qed
qed

lemma appendEscaped_concat: "appendEscaped out v = out @ concat (map escapeChar v)"
  unfolding appendEscaped_def by (induction v arbitrary: out) simp_all

lemma hexVal_hexDigit: "n < 16 \<Longrightarrow> hexVal (hexDigit n) = Some n"
proof -
  have "\<forall>n\<in>set [0..<16]. hexVal (hexDigit n) = Some n" by code_simp
  then show "n < 16 \<Longrightarrow> ?thesis" by simp
qed

lemma nibbles: "n < 32 \<Longrightarrow> push_bit 4 (drop_bit 4 n AND 0x0F) OR (n AND 0x0F) = (n :: nat)"
proof -
  have "\<forall>n\<in>set [0..<32]. push_bit 4 (drop_bit 4 n AND 0x0F) OR (n AND 0x0F) = (n :: nat)" by code_simp
  then show "n < 32 \<Longrightarrow> ?thesis" by simp
qed

lemma parseHex_control:
  assumes "n < 32"
  shows "parseHex 4 0 (CHR ''0'' # CHR ''0'' # hexDigit (drop_bit 4 n AND 0x0F) #
     hexDigit (n AND 0x0F) # s) = Some (n, s)"
proof -
  have "(4 :: nat) = Suc (Suc (Suc (Suc 0)))" by simp
  moreover have "hexVal CHR ''0'' = Some 0" by (simp add: hexVal_def)
  moreover have "m AND 0x0F < 16" for m :: nat
    using take_bit_nat_less_exp [of 4 m] by (simp add: take_bit_eq_mask mask_eq_exp_minus_1)
  ultimately show ?thesis using nibbles [OF assms]
    by (simp only: parseHex.simps hexVal_hexDigit option.case) simp
qed

lemma stringLoop_escape: "stringLoop out (escapeChar ch @ s) = stringLoop (out @ [ch]) s"
proof (cases "length (escapeChar ch) = 6")
  case True
  then have small: "of_char ch < (32 :: nat)" and esc: "escapeChar ch = [backslash, CHR ''u'', CHR ''0'', CHR ''0'',
         hexDigit (drop_bit 4 (of_char ch) AND 0x0F), hexDigit (of_char ch AND 0x0F)]"
    by (auto simp: escapeChar_def split: if_splits)
  show ?thesis using parseHex_control [OF small] small
    by (simp add: esc parseEscape_def utf8_def)
next
  case False
  then show ?thesis by (auto simp: escapeChar_def parseEscape_def)
qed

lemma stringLoop_escaped:
  "stringLoop out (concat (map escapeChar v) @ quoteChar # rest) = Some (out @ v, rest)"
  by (induction v arbitrary: out) (simp_all add: stringLoop_escape)

lemma parseString_quote [json_simps]: "parseString (quote v @ rest) = Some (v, rest)"
  using stringLoop_escaped [of "[]" v rest]
  by (simp add: quote_def appendEscaped_concat parseString_def skipWs_def isWs_def)

section \<open>JSON values\<close>

text \<open>The texts of JSON values, written as the recorder writes its own (no white space).\<close>

datatype json = JNull | JBool bool | JInt i64 | JString string | JArray "json list"
  | JObject "(string \<times> json) list"

fun json_text :: "json \<Rightarrow> string"
  and json_items :: "json list \<Rightarrow> string"
  and json_members :: "(string \<times> json) list \<Rightarrow> string" where
  "json_text JNull = ''null''"
| "json_text (JBool b) = (if b then ''true'' else ''false'')"
| "json_text (JInt v) = to_chars_i v"
| "json_text (JString v) = quote v"
| "json_text (JArray js) = CHR ''['' # json_items js @ '']''"
| "json_text (JObject ms) = CHR ''{'' # json_members ms @ ''}''"
| "json_items [] = []"
| "json_items (j # js) = json_text j @ (if js = [] then [] else CHR '','' # json_items js)"
| "json_members [] = []"
| "json_members ((k, j) # ms) = quote k @ CHR '':'' # json_text j @
     (if ms = [] then [] else CHR '','' # json_members ms)"

definition plainStart :: "string \<Rightarrow> bool" where
  "plainStart s \<longleftrightarrow> s \<noteq> [] \<and> \<not> isWs (hd s) \<and> hd s \<noteq> CHR '']'' \<and> hd s \<noteq> CHR ''}'' \<and> hd s \<noteq> CHR '',''"

lemma plainStart_append: "plainStart s \<Longrightarrow> plainStart (s @ t)"
  by (simp add: plainStart_def hd_append)

lemma plainStart_skipWs: "plainStart s \<Longrightarrow> skipWs s = s"
  by (cases s) (simp_all add: plainStart_def skipWs_def)

lemma plainStart_peek: "plainStart s \<Longrightarrow> \<not> peek CHR '']'' s \<and> \<not> peek CHR ''}'' s"
  by (cases s) (auto simp: plainStart_def peek_def skipWs_def)

lemma plainStart_chars: "plainStart (to_chars_i v)" "plainStart (quote str)"
proof -
  have "plainStart (to_chars_nat n)" for n
    by (rule to_chars_nat_Cons [of n])
      (auto simp: plainStart_def isDigit_def isWs_def less_eq_char_def)
  then show "plainStart (to_chars_i v)" by (simp add: to_chars_i_def) (simp add: plainStart_def isWs_def)
  show "plainStart (quote str)" by (simp add: quote_def appendEscaped_concat plainStart_def isWs_def)
qed

lemma plainStart_json: "plainStart (json_text j)"
  by (cases j) (simp_all add: plainStart_chars, simp_all add: plainStart_def isWs_def)

lemma plainStart_parts:
  "js \<noteq> [] \<Longrightarrow> plainStart (json_items js)" "ms \<noteq> [] \<Longrightarrow> plainStart (json_members ms)"
  by (cases js; cases ms; auto simp: plainStart_append plainStart_json plainStart_chars)+

lemma skipIntPart_to_chars:
  assumes "endsNumber rest"
  shows "skipIntPart (to_chars_nat n @ rest) = Some rest"
proof (rule to_chars_nat_Cons [of n])
  fix c ds
  assume eq: "to_chars_nat n = c # ds" and c: "isDigit c"
  have nd: "\<not> startsDigit rest" using assms by (rule endsNumber_not_digit)
  have "list_all isDigit ds" using to_chars_nat_digits [of n] eq by simp
  then have drop: "dropWhile isDigit (ds @ rest) = rest"
    using nd by (induction ds) (auto simp: startsDigit_def split: list.splits)
  show ?thesis
  proof (cases "c = CHR ''0''")
    case True
    then have "n = 0" using hd_to_chars_nat [of n] eq by simp
    then have "ds = []" using eq by (simp add: to_chars_nat.simps)
    then show ?thesis using eq True nd by (simp add: skipIntPart_def)
  next
    case False
    then have "of_char c \<noteq> (48 :: nat)"
      by (metis char_of_48 char_of_char)
    then show ?thesis using False c eq drop
      by (auto simp: skipIntPart_def isDigit_def less_eq_char_def)
  qed
qed

lemma endsNumber_tails:
  "endsNumber s \<Longrightarrow> skipFraction s = Some s" "endsNumber s \<Longrightarrow> skipExponent s = Some s"
  by (cases s; auto simp: endsNumber_def skipFraction_def skipExponent_def isWs_def)+

lemma skipNumber_to_chars:
  assumes "endsNumber rest"
  shows "skipNumber (to_chars_i v @ rest) = Some rest"
proof -
  have ws: "skipWs (to_chars_i v @ rest) = to_chars_i v @ rest"
    by (intro plainStart_skipWs plainStart_append plainStart_chars)
  have minus: "hd (to_chars_nat n @ rest) \<noteq> CHR ''-''" for n
    by (rule to_chars_nat_Cons [of n]) (auto dest: isDigit_not)
  show ?thesis using assms minus ws
    by (simp add: skipNumber_def Let_def)
      (auto simp: to_chars_i_def skipIntPart_to_chars endsNumber_tails)
qed

lemma plainStart_rest:
  "plainStart s \<Longrightarrow> skipWs (s @ t) = s @ t \<and> s @ t \<noteq> [] \<and> \<not> peek CHR '']'' (s @ t) \<and> \<not> peek CHR ''}'' (s @ t)"
  using plainStart_append [of s t] plainStart_skipWs [of "s @ t"] plainStart_peek [of "s @ t"]
  by (simp add: plainStart_def)

lemma peek_simps [json_simps]: "\<not> isWs c \<Longrightarrow> peek c (c # s)"
  by (simp add: peek_def skipWs_def)

lemma skipValueF_int:
  assumes "endsNumber rest"
  shows "skipValueF (Suc n) (to_chars_i v @ rest) = Some rest"
proof -
  have "hd (to_chars_i v @ rest) = CHR ''-'' \<or> isDigit (hd (to_chars_i v @ rest))"
    by (rule to_chars_nat_Cons [of "nat (sint v)"]) (simp add: to_chars_i_def)
  then show ?thesis using skipNumber_to_chars [OF assms, of v] plainStart_rest [OF plainStart_chars(1), of v rest]
    by (auto simp: Let_def dest: isDigit_not)
qed

lemma hd_quote: "hd (quote v @ rest) = quoteChar"
  by (simp add: quote_def appendEscaped_concat)

lemma parseKey_text [json_simps]: "parseKey (quote k @ CHR '':'' # s) = Some (k, s)"
  by (simp add: parseKey_def parseString_quote skipWs_def isWs_def consume_def)

lemma close_text:
  "(if peek CHR '']'' (CHR '']'' # rest) then parseArrayEnd (CHR '']'' # rest) else z) = Some rest"
  "(if peek CHR ''}'' (CHR ''}'' # rest) then parseObjectEnd (CHR ''}'' # rest) else z) = Some rest"
  "\<not> peek CHR '']'' (CHR '','' # rest)" "\<not> peek CHR ''}'' (CHR '','' # rest)"
  by (simp_all add: json_simps) (simp_all add: peek_def skipWs_def isWs_def)

lemma skip_json:
  "endsNumber rest \<Longrightarrow> 2 * length (json_text j @ rest) < n \<Longrightarrow>
     skipValueF n (json_text j @ rest) = Some rest"
  "js \<noteq> [] \<Longrightarrow> 2 * length (json_items js @ CHR '']'' # rest) + 1 < n \<Longrightarrow>
     skipArrayLoop n (json_items js @ CHR '']'' # rest) = Some rest"
  "ms \<noteq> [] \<Longrightarrow> 2 * length (json_members ms @ CHR ''}'' # rest) + 1 < n \<Longrightarrow>
     skipObjectLoop n (json_members ms @ CHR ''}'' # rest) = Some rest"
proof (induction j and js and ms arbitrary: rest n and rest n and rest n
    rule: json_text_json_items_json_members.induct)
  case 1
  then show ?case by (cases n) (simp_all add: skipWs_def isWs_def consumeLiteral_def)
next
  case (2 b)
  then show ?case by (cases n) (simp_all add: skipWs_def isWs_def consumeLiteral_def)
next
  case (3 v)
  then show ?case by (cases n) (simp_all add: skipValueF_int del: skipValueF.simps(2))
next
  case (4 v)
  then show ?case
    using plainStart_rest [OF plainStart_chars(2), of v rest]
    by (cases n) (simp_all add: Let_def hd_quote parseString_quote)
next
  case (5 js)
  show ?case
  proof (cases "js = []")
    case True
    then show ?thesis using 5 by (cases n) (simp_all add: json_simps)
  next
    case False
    then have "plainStart (json_items js)" by (rule plainStart_parts)
    then show ?thesis
      using 5 False plainStart_rest [of "json_items js" "CHR '']'' # rest"]
      by (cases n) (simp_all add: json_simps)
  qed
next
  case (6 ms)
  show ?case
  proof (cases "ms = []")
    case True
    then show ?thesis using 6 by (cases n) (simp_all add: json_simps)
  next
    case False
    then have "plainStart (json_members ms)" by (rule plainStart_parts)
    then show ?thesis
      using 6 False plainStart_rest [of "json_members ms" "CHR ''}'' # rest"]
      by (cases n) (simp_all add: json_simps)
  qed
next
  case (8 j js)
  obtain n' where n: "n = Suc n'" using 8 by (cases n) auto
  show ?case
  proof (cases "js = []")
    case True
    have "skipValueF n' (json_text j @ CHR '']'' # rest) = Some (CHR '']'' # rest)"
      using 8 True n by (intro 8(1)) (simp_all add: json_simps)
    then show ?thesis by (simp add: n True close_text)
  next
    case False
    have "skipValueF n' (json_text j @ CHR '','' # json_items js @ CHR '']'' # rest) =
        Some (CHR '','' # json_items js @ CHR '']'' # rest)"
      using 8 n False by (intro 8(1)) (simp_all add: json_simps)
    then show ?thesis using 8 n False by (simp add: close_text json_simps)
  qed
next
  case (10 k j ms)
  obtain n' where n: "n = Suc n'" using 10 by (cases n) auto
  show ?case
  proof (cases "ms = []")
    case True
    have "skipValueF n' (json_text j @ CHR ''}'' # rest) = Some (CHR ''}'' # rest)"
      using 10 True n by (intro 10(1)) (simp_all add: json_simps)
    then show ?thesis by (simp add: n True close_text json_simps)
  next
    case False
    have "skipValueF n' (json_text j @ CHR '','' # json_members ms @ CHR ''}'' # rest) =
        Some (CHR '','' # json_members ms @ CHR ''}'' # rest)"
      using 10 n False by (intro 10(1)) (simp_all add: json_simps)
    then show ?thesis using 10 n False by (simp add: close_text json_simps)
  qed
qed simp_all

section \<open>Properties\<close>

text \<open>C30: strings and integers survive a write and a read: every byte string, escaped and
  quoted by \<^verbatim>\<open>quote\<close>, and every 64-bit integer, printed in decimal, is read back by
  \<open>parseString\<close>, \<open>parseInt64\<close> and \<open>parseUInt64\<close>, which stop exactly at the end of the
  token.\<close>

theorem json_scalar_roundtrip:
  assumes "endsNumber rest"
  shows "parseString (quote str @ tail) = Some (str, tail) \<and>
    parseInt64 (to_chars_i i @ rest) = Some (i, rest) \<and>
    parseUInt64 (to_chars_u (u :: u64) @ rest) = Some (u, rest)"
  using assms by (simp add: json_simps)

theorem json_scalar_roundtrip_witness:
  "parseString (quote [CHR 0x22, CHR 0x01, CHR ''a''] @ '','') = Some ([CHR 0x22, CHR 0x01, CHR ''a''], '','') \<and>
   parseInt64 (to_chars_i (- 42) @ '',1]'') = Some (- 42, '',1]'') \<and>
   parseUInt64 (to_chars_u (7 :: u64) @ '',1]'') = Some (7, '',1]'')"
proof -
  have "endsNumber '',1]''" by (simp add: json_simps)
  from json_scalar_roundtrip [OF this] show ?thesis by blast
qed



end
