(* ===== verification/EventRows.thy ===== *)
theory EventRows
  imports Json
begin

text \<open>
  The row types of \<^verbatim>\<open>CorpusContract/EventRows.hpp\<close> that the JSON lines of a session carry,
  with the predicates that classify the arrival of an event.
\<close>

section \<open>Arrival\<close>

definition EventArrivalApplicationFrame :: u32 where "EventArrivalApplicationFrame = 0x01"
definition EventArrivalHistoricalBackfill :: u32 where "EventArrivalHistoricalBackfill = 0x02"
definition EventArrivalRealtimeRegression :: u32 where "EventArrivalRealtimeRegression = 0x04"
definition EventArrivalMonotonicNonIncreasing :: u32 where "EventArrivalMonotonicNonIncreasing = 0x08"
definition EventArrivalExchangeAheadOfReceive :: u32 where "EventArrivalExchangeAheadOfReceive = 0x10"
definition EventArrivalExchangeTimestampMissing :: u32 where "EventArrivalExchangeTimestampMissing = 0x20"
definition EventArrivalSourceLifecycle :: u32 where "EventArrivalSourceLifecycle = 0x40"

lemmas arrival_flags = EventArrivalApplicationFrame_def EventArrivalHistoricalBackfill_def
  EventArrivalRealtimeRegression_def EventArrivalMonotonicNonIncreasing_def
  EventArrivalExchangeAheadOfReceive_def EventArrivalExchangeTimestampMissing_def
  EventArrivalSourceLifecycle_def

definition kEventArrivalKnownFlags :: u32 where
  "kEventArrivalKnownFlags = EventArrivalApplicationFrame OR EventArrivalHistoricalBackfill OR
     EventArrivalRealtimeRegression OR EventArrivalMonotonicNonIncreasing OR
     EventArrivalExchangeAheadOfReceive OR EventArrivalExchangeTimestampMissing OR
     EventArrivalSourceLifecycle"

record EventArrival =
  receiveRealtimeNs :: i64
  receiveMonotonicNs :: u64
  producerEpoch :: u64
  sourceGeneration :: u64
  sessionEpoch :: u64
  frameSequence :: u64
  shardSequence :: u64
  sourceId :: u32
  shardId :: u16
  eventOrdinal :: u16
  arrivalFlags :: u32

definition noArrival :: EventArrival where
  "noArrival = \<lparr>receiveRealtimeNs = 0, receiveMonotonicNs = 0, producerEpoch = 0,
     sourceGeneration = 0, sessionEpoch = 0, frameSequence = 0, shardSequence = 0, sourceId = 0,
     shardId = 0, eventOrdinal = 0, arrivalFlags = 0\<rparr>"

definition hasCapturedApplicationArrival :: "EventArrival \<Rightarrow> bool" where
  "hasCapturedApplicationArrival arrival \<longleftrightarrow>
     arrivalFlags arrival AND EventArrivalApplicationFrame \<noteq> 0 \<and>
     arrivalFlags arrival AND (EventArrivalHistoricalBackfill OR EventArrivalSourceLifecycle) = 0 \<and>
     arrivalFlags arrival AND NOT kEventArrivalKnownFlags = 0 \<and>
     0 < sint (receiveRealtimeNs arrival) \<and> receiveMonotonicNs arrival \<noteq> 0 \<and>
     producerEpoch arrival \<noteq> 0 \<and> sourceGeneration arrival \<noteq> 0 \<and>
     sessionEpoch arrival \<noteq> 0 \<and> frameSequence arrival \<noteq> 0 \<and>
     shardSequence arrival \<noteq> 0 \<and> sourceId arrival \<noteq> 0"

definition hasCapturedSourceLifecycleArrival :: "EventArrival \<Rightarrow> bool" where
  "hasCapturedSourceLifecycleArrival arrival \<longleftrightarrow>
     (let allowed = EventArrivalSourceLifecycle OR EventArrivalRealtimeRegression OR
            EventArrivalMonotonicNonIncreasing in
     arrivalFlags arrival AND EventArrivalSourceLifecycle \<noteq> 0 \<and>
     arrivalFlags arrival AND NOT allowed = 0 \<and> frameSequence arrival = 0 \<and>
     0 < sint (receiveRealtimeNs arrival) \<and> receiveMonotonicNs arrival \<noteq> 0 \<and>
     producerEpoch arrival \<noteq> 0 \<and> sourceGeneration arrival \<noteq> 0 \<and>
     shardSequence arrival \<noteq> 0 \<and> sourceId arrival \<noteq> 0)"

definition isHistoricalBackfill :: "EventArrival \<Rightarrow> bool" where
  "isHistoricalBackfill arrival \<longleftrightarrow>
     arrivalFlags arrival AND EventArrivalHistoricalBackfill \<noteq> 0 \<and>
     arrivalFlags arrival AND NOT (EventArrivalHistoricalBackfill OR
       EventArrivalExchangeTimestampMissing) = 0 \<and>
     receiveRealtimeNs arrival = 0 \<and> receiveMonotonicNs arrival = 0 \<and>
     producerEpoch arrival = 0 \<and> sourceGeneration arrival = 0 \<and>
     sessionEpoch arrival = 0 \<and> frameSequence arrival = 0 \<and> shardSequence arrival = 0 \<and>
     sourceId arrival = 0 \<and> shardId arrival = 0 \<and> eventOrdinal arrival = 0"

section \<open>Rows\<close>

record TradeRow =
  tr_tradeId :: u64
  tr_firstTradeId :: u64
  tr_lastTradeId :: u64
  tr_symbol :: string
  tr_exchange :: string
  tr_market :: string
  tr_tsNs :: i64
  tr_captureSeq :: i64
  tr_ingestSeq :: i64
  tr_priceE8 :: i64
  tr_qtyE8 :: i64
  tr_quoteQtyE8 :: i64
  tr_side :: i64
  tr_isBuyerMaker :: u8
  tr_sideBuy :: u8
  tr_arrival :: EventArrival

record LiquidationRow =
  lq_symbol :: string
  lq_exchange :: string
  lq_market :: string
  lq_tsNs :: i64
  lq_captureSeq :: i64
  lq_ingestSeq :: i64
  lq_priceE8 :: i64
  lq_qtyE8 :: i64
  lq_avgPriceE8 :: i64
  lq_filledQtyE8 :: i64
  lq_side :: i64
  lq_sideBuy :: u8
  lq_orderType :: i64
  lq_timeInForce :: i64
  lq_status :: i64
  lq_sourceMode :: i64
  lq_arrival :: EventArrival

record BookTickerRow =
  bt_eventId :: u64
  bt_symbol :: string
  bt_exchange :: string
  bt_market :: string
  bt_tsNs :: i64
  bt_captureSeq :: i64
  bt_ingestSeq :: i64
  bt_bidPriceE8 :: i64
  bt_bidQtyE8 :: i64
  bt_askPriceE8 :: i64
  bt_askQtyE8 :: i64
  bt_arrival :: EventArrival

record CandleRow =
  cd_tier :: i64
  cd_tsNs :: i64
  cd_exchange :: string
  cd_market :: string
  cd_symbol :: string
  cd_timeframe :: string
  cd_durationNs :: i64
  cd_openE8 :: i64
  cd_highE8 :: i64
  cd_lowE8 :: i64
  cd_closeE8 :: i64
  cd_volumeE8 :: i64
  cd_quoteAmountE8 :: i64
  cd_hasOhlc :: bool
  cd_captureSeq :: i64
  cd_ingestSeq :: i64
  cd_arrival :: EventArrival

record MarkPriceRow =
  mp_tsNs :: i64
  mp_markPriceE8 :: i64
  mp_captureSeq :: i64
  mp_ingestSeq :: i64
  mp_arrival :: EventArrival

record IndexPriceRow =
  ip_tsNs :: i64
  ip_indexPriceE8 :: i64
  ip_captureSeq :: i64
  ip_ingestSeq :: i64
  ip_arrival :: EventArrival

record FundingRow =
  fd_tsNs :: i64
  fd_fundingRateE8 :: i64
  fd_fundingTsNs :: i64
  fd_nextFundingTsNs :: i64
  fd_captureSeq :: i64
  fd_ingestSeq :: i64
  fd_arrival :: EventArrival

record PriceLimitRow =
  pl_tsNs :: i64
  pl_buyLimitE8 :: i64
  pl_sellLimitE8 :: i64
  pl_enabled :: u8
  pl_captureSeq :: i64
  pl_ingestSeq :: i64
  pl_arrival :: EventArrival

record PricePair =
  priceE8 :: i64
  qtyE8 :: i64
  pairSide :: i64

record DepthRow =
  dr_eventId :: u64
  dr_tsNs :: i64
  dr_captureSeq :: i64
  dr_ingestSeq :: i64
  dr_arrival :: EventArrival
  dr_levels :: "PricePair list"

record SnapshotDocument =
  sn_tsNs :: i64
  sn_levels :: "PricePair list"

end
