(* ===== verification/EventWriter.thy ===== *)
theory EventWriter
  imports EventRows
begin

text \<open>
  The JSON line writers of \<^verbatim>\<open>Capture/Serialization/JsonSerializers.cpp\<close>. The code appends to
  one string; here each writer is the concatenation of what it appends, in that order.
  \<open>appendInt\<close> is \<open>to_chars_i\<close> or \<open>to_chars_u\<close> by the type of its argument (its buffer of 32
  characters holds every 64-bit integer), \<open>appendString\<close> is \<open>quote\<close>.
\<close>

definition appendArrival :: "EventArrival \<Rightarrow> string" where
  "appendArrival arrival =
     to_chars_i (receiveRealtimeNs arrival) @ '','' @
     to_chars_u (receiveMonotonicNs arrival) @ '','' @
     to_chars_u (producerEpoch arrival) @ '','' @
     to_chars_u (sourceGeneration arrival) @ '','' @
     to_chars_u (sessionEpoch arrival) @ '','' @
     to_chars_u (frameSequence arrival) @ '','' @
     to_chars_u (shardSequence arrival) @ '','' @
     to_chars_u (sourceId arrival) @ '','' @
     to_chars_u (shardId arrival) @ '','' @
     to_chars_u (eventOrdinal arrival) @ '','' @
     to_chars_u (arrivalFlags arrival)"

definition candleTierFromTimeframe :: "string \<Rightarrow> i64" where
  "candleTierFromTimeframe timeframe =
     (if timeframe = ''1m'' then 1
      else if timeframe = ''10m'' \<or> timeframe = ''15m'' then 2
      else if timeframe = ''1d'' then 3
      else 0)"

text \<open>The loop separates levels by commas and puts one more before the time stamp.\<close>

fun appendLevels :: "PricePair list \<Rightarrow> string" where
  "appendLevels [] = []"
| "appendLevels (level # levels) =
     ''['' @ to_chars_i (priceE8 level) @ '','' @ to_chars_i (qtyE8 level) @ '','' @
     to_chars_i (pairSide level) @ '']'' @
     (if levels = [] then [] else '','' @ appendLevels levels)"

definition appendFlatOrderbook :: "PricePair list \<Rightarrow> i64 \<Rightarrow> string" where
  "appendFlatOrderbook levels tsNs =
     ''['' @ appendLevels levels @ (if levels \<noteq> [] then '','' else []) @ to_chars_i tsNs @ '']''"

definition tapeTag :: u64 where "tapeTag = push_bit 63 1"

definition taggedTapeTimestamp :: "i64 \<Rightarrow> u64" where
  "taggedTapeTimestamp tsNs = tapeTag OR (tsNs AND NOT tapeTag)"

definition renderTradeJsonLine :: "TradeRow \<Rightarrow> string" where
  "renderTradeJsonLine trade =
     ''['' @ to_chars_i (tr_priceE8 trade) @ '','' @ to_chars_i (tr_qtyE8 trade) @ '','' @
     to_chars_i (tr_side trade) @ '','' @ to_chars_i (tr_tsNs trade) @ '','' @
     to_chars_u (tr_tradeId trade) @ '','' @ to_chars_u (tr_firstTradeId trade) @ '','' @
     to_chars_u (tr_lastTradeId trade) @ '','' @ to_chars_i (tr_quoteQtyE8 trade) @ '','' @
     to_chars_u (tr_isBuyerMaker trade) @ '','' @
     quote (tr_symbol trade) @ '','' @ quote (tr_exchange trade) @ '','' @
     quote (tr_market trade) @ '','' @ to_chars_i (tr_captureSeq trade) @ '','' @
     to_chars_i (tr_ingestSeq trade) @ '','' @ appendArrival (tr_arrival trade) @ '']''"

definition renderBookTickerJsonLine :: "BookTickerRow \<Rightarrow> string" where
  "renderBookTickerJsonLine bookTicker =
     ''['' @ to_chars_u (bt_eventId bookTicker) @ '','' @
     to_chars_i (bt_bidPriceE8 bookTicker) @ '','' @ to_chars_i (bt_bidQtyE8 bookTicker) @ '','' @
     to_chars_i (bt_askPriceE8 bookTicker) @ '','' @ to_chars_i (bt_askQtyE8 bookTicker) @ '','' @
     to_chars_i (bt_tsNs bookTicker) @ '','' @
     quote (bt_symbol bookTicker) @ '','' @ quote (bt_exchange bookTicker) @ '','' @
     quote (bt_market bookTicker) @ '','' @ to_chars_i (bt_captureSeq bookTicker) @ '','' @
     to_chars_i (bt_ingestSeq bookTicker) @ '','' @ appendArrival (bt_arrival bookTicker) @ '']''"

definition candleTier :: "CandleRow \<Rightarrow> i64" where
  "candleTier candle =
     (if 0 < sint (cd_tier candle) then cd_tier candle else candleTierFromTimeframe (cd_timeframe candle))"

definition renderCandleJsonLine :: "CandleRow \<Rightarrow> string" where
  "renderCandleJsonLine candle =
     ''['' @ to_chars_i (candleTier candle) @ '','' @ to_chars_i (cd_tsNs candle) @ '','' @
     to_chars_i (cd_openE8 candle) @ '','' @ to_chars_i (cd_highE8 candle) @ '','' @
     to_chars_i (cd_lowE8 candle) @ '','' @ to_chars_i (cd_closeE8 candle) @ '','' @
     to_chars_i (cd_volumeE8 candle) @ '','' @ to_chars_i (cd_quoteAmountE8 candle) @ '','' @
     to_chars_u (if cd_hasOhlc candle then 1 else 0 :: u32) @ '','' @
     quote (cd_exchange candle) @ '','' @ quote (cd_market candle) @ '','' @
     quote (cd_symbol candle) @ '','' @ quote (cd_timeframe candle) @ '','' @
     to_chars_i (cd_durationNs candle) @ '','' @ to_chars_i (cd_captureSeq candle) @ '','' @
     to_chars_i (cd_ingestSeq candle) @ '','' @ appendArrival (cd_arrival candle) @ '']''"

fun appendTapeLevels :: "PricePair list \<Rightarrow> string" where
  "appendTapeLevels [] = []"
| "appendTapeLevels (level # levels) =
     '','' @ to_chars_i (priceE8 level) @ '','' @ to_chars_i (qtyE8 level) @ appendTapeLevels levels"

definition renderDepthTapeJsonLine :: "DepthRow \<Rightarrow> string" where
  "renderDepthTapeJsonLine delta =
     ''['' @ to_chars_u (dr_eventId delta) @ '','' @
     to_chars_u (taggedTapeTimestamp (dr_tsNs delta)) @ '','' @
     to_chars_i (dr_captureSeq delta) @ '','' @ to_chars_i (dr_ingestSeq delta) @ '','' @
     appendArrival (dr_arrival delta) @ appendTapeLevels (dr_levels delta) @ '']''"

text \<open>The run-length loop: \<open>runSide\<close> and \<open>runCount\<close> are its two local variables.\<close>

fun appendRuns :: "i64 \<Rightarrow> u64 \<Rightarrow> PricePair list \<Rightarrow> string" where
  "appendRuns runSide runCount [] =
     '','' @ to_chars_i runSide @ '','' @ to_chars_u runCount"
| "appendRuns runSide runCount (level # levels) =
     (if pairSide level = runSide then appendRuns runSide (runCount + 1) levels
      else '','' @ to_chars_i runSide @ '','' @ to_chars_u runCount @
        appendRuns (pairSide level) 1 levels)"

definition renderDepthRleSidecarJsonLine :: "DepthRow \<Rightarrow> string" where
  "renderDepthRleSidecarJsonLine delta =
     ''['' @ to_chars_u (dr_eventId delta) @ '','' @
     to_chars_u (taggedTapeTimestamp (dr_tsNs delta)) @
     (if dr_levels delta \<noteq> [] then appendRuns (pairSide (hd (dr_levels delta))) 0 (dr_levels delta)
      else []) @ '']''"

definition renderSnapshotJson :: "SnapshotDocument \<Rightarrow> string" where
  "renderSnapshotJson snapshot = appendFlatOrderbook (sn_levels snapshot) (sn_tsNs snapshot) @ [CHR 0x0A]"

end
