(* ===== verification/EventReader.thy ===== *)
theory EventReader
  imports EventWriter
begin

text \<open>
  The JSON line readers of \<^verbatim>\<open>Replay/JsonLineParser.cpp\<close>. A reader returns the row
  (\<open>Status::Ok\<close>) or \<open>None\<close> (\<open>Status::CorruptData\<close>, its only other status).
\<close>

section \<open>Length of what remains\<close>

lemma digitLoop_length: "digitLoop lz v s = Some (w, r) \<Longrightarrow> length r \<le> length s"
  by (induction lz v s rule: digitLoop.induct) (auto split: if_splits)

lemma parseUInt64_length: "parseUInt64 s = Some (v, r) \<Longrightarrow> length r \<le> length s"
  using length_skipWs [of s]
  by (auto simp: parseUInt64_def Let_def bind_eq_Some_conv dest!: digitLoop_length split: if_splits)

lemma parseInt64_length:
  assumes "parseInt64 s = Some (v, r)"
  shows "length r \<le> length s"
proof -
  let ?t = "if hd (skipWs s) = CHR ''-'' then tl (skipWs s) else skipWs s"
  obtain n where "digitLoop (hd ?t = CHR ''0'') 0 ?t = Some (n, r)"
    using assms unfolding parseInt64_def Let_def
    by (simp add: bind_eq_Some_conv del: if_split split: if_split_asm)
  then have "length r \<le> length ?t" by (rule digitLoop_length)
  then show ?thesis using length_skipWs [of s] by (simp split: if_splits)
qed

section \<open>Shared steps\<close>

definition parseCommaInt64 :: "string \<Rightarrow> (i64 \<times> string) option" where
  "parseCommaInt64 s = do { s \<leftarrow> parseComma s; parseInt64 s }"

definition parseCommaUInt64 :: "string \<Rightarrow> (u64 \<times> string) option" where
  "parseCommaUInt64 s = do { s \<leftarrow> parseComma s; parseUInt64 s }"

definition parseCommaString :: "string \<Rightarrow> (string \<times> string) option" where
  "parseCommaString s = do { s \<leftarrow> parseComma s; parseString s }"

definition validateCandle :: "CandleRow \<Rightarrow> bool" where
  "validateCandle row =
     (if sint (cd_tsNs row) \<le> 0 \<or> sint (cd_highE8 row) \<le> 0 \<or> sint (cd_lowE8 row) \<le> 0 \<or>
         sint (cd_highE8 row) < sint (cd_lowE8 row) \<or> sint (cd_quoteAmountE8 row) < 0 then False
      else if \<not> cd_hasOhlc row then 1 \<le> sint (cd_tier row) \<and> sint (cd_tier row) \<le> 3
      else 1 \<le> sint (cd_tier row) \<and> sint (cd_tier row) \<le> 3 \<and> 0 < sint (cd_durationNs row) \<and>
        0 < sint (cd_openE8 row) \<and> 0 < sint (cd_closeE8 row) \<and> 0 \<le> sint (cd_volumeE8 row))"

text \<open>The checks \<^verbatim>\<open>parseArrival\<close> makes once the eleven numbers are in place.\<close>

definition acceptArrival :: "EventArrival \<Rightarrow> bool" where
  "acceptArrival out =
     (if arrivalFlags out AND NOT kEventArrivalKnownFlags \<noteq> 0 then False
      else let application = (arrivalFlags out AND EventArrivalApplicationFrame \<noteq> 0);
               historical = (arrivalFlags out AND EventArrivalHistoricalBackfill \<noteq> 0) in
        if application \<and> historical then False
        else if application then hasCapturedApplicationArrival out
        else if arrivalFlags out AND NOT (EventArrivalHistoricalBackfill OR
            EventArrivalExchangeTimestampMissing) \<noteq> 0 then False
        else receiveRealtimeNs out = 0 \<and> receiveMonotonicNs out = 0 \<and> producerEpoch out = 0 \<and>
          sourceGeneration out = 0 \<and> sessionEpoch out = 0 \<and> frameSequence out = 0 \<and>
          shardSequence out = 0 \<and> sourceId out = 0 \<and> shardId out = 0 \<and> eventOrdinal out = 0)"

definition parseArrival :: "string \<Rightarrow> (EventArrival \<times> string) option" where
  "parseArrival s = do {
     (realtimeNs, s) \<leftarrow> parseCommaInt64 s;
     (monotonicNs, s) \<leftarrow> parseCommaUInt64 s;
     (producer, s) \<leftarrow> parseCommaUInt64 s;
     (generation, s) \<leftarrow> parseCommaUInt64 s;
     (session, s) \<leftarrow> parseCommaUInt64 s;
     (frame, s) \<leftarrow> parseCommaUInt64 s;
     (shardSeq, s) \<leftarrow> parseCommaUInt64 s;
     (source, s) \<leftarrow> parseCommaUInt64 s;
     (shard, s) \<leftarrow> parseCommaUInt64 s;
     (ordinal, s) \<leftarrow> parseCommaUInt64 s;
     (flags, s) \<leftarrow> parseCommaUInt64 s;
     if source > 0xFFFFFFFF \<or> shard > 0xFFFF \<or> ordinal > 0xFFFF \<or> flags > 0xFFFFFFFF then None
     else let out = \<lparr>receiveRealtimeNs = realtimeNs, receiveMonotonicNs = monotonicNs,
            producerEpoch = producer, sourceGeneration = generation, sessionEpoch = session,
            frameSequence = frame, shardSequence = shardSeq, sourceId = ucast source,
            shardId = ucast shard, eventOrdinal = ucast ordinal, arrivalFlags = ucast flags\<rparr>
       in if acceptArrival out then Some (out, s) else None }"

definition parsePricePair :: "string \<Rightarrow> (PricePair \<times> string) option" where
  "parsePricePair s = do {
     s \<leftarrow> parseArrayStart s;
     (price, s) \<leftarrow> parseInt64 s;
     s \<leftarrow> parseComma s;
     (qty, s) \<leftarrow> parseInt64 s;
     s \<leftarrow> parseComma s;
     (side, s) \<leftarrow> parseInt64 s;
     if side \<noteq> 0 \<and> side \<noteq> 1 then None
     else do {
       s \<leftarrow> parseArrayEnd s;
       Some (\<lparr>priceE8 = price, qtyE8 = qty, pairSide = side\<rparr>, s) } }"

lemma parsePricePair_length:
  assumes "parsePricePair s = Some (p, r)"
  shows "length r < length s"
proof -
  obtain a b c d e f x y z where
    "parseArrayStart s = Some a" "parseInt64 a = Some (x, b)" "parseComma b = Some c"
    "parseInt64 c = Some (y, d)" "parseComma d = Some e" "parseInt64 e = Some (z, f)"
    "parseArrayEnd f = Some r"
    using assms by (auto simp: parsePricePair_def bind_eq_Some_conv split: if_splits)
  then show ?thesis
    by (meson order.strict_trans1 order.strict_trans structure_length parseInt64_length)
qed

function pairLoop :: "PricePair list \<Rightarrow> string \<Rightarrow> (PricePair list \<times> string) option" where
  "pairLoop levels s = (if peek CHR ''['' s then do {
       (pair, a) \<leftarrow> parsePricePair s;
       b \<leftarrow> parseComma a;
       pairLoop (levels @ [pair]) b }
     else Some (levels, s))"
  by pat_completeness auto
termination
  by (relation "measure (\<lambda>(levels, s). length s)")
    (auto dest!: parsePricePair_length structure_length)

declare pairLoop.simps [simp del]

definition parseFlatOrderbook :: "string \<Rightarrow> SnapshotDocument option" where
  "parseFlatOrderbook s = do {
     s \<leftarrow> parseArrayStart s;
     if peek CHR '']'' s then None
     else do {
       (levels, s) \<leftarrow> pairLoop [] s;
       (tsNs, s) \<leftarrow> parseInt64 s;
       s \<leftarrow> parseArrayEnd s;
       if finish s then Some \<lparr>sn_tsNs = tsNs, sn_levels = levels\<rparr> else None } }"

definition parseTapeNonNegativeI64 :: "string \<Rightarrow> (i64 \<times> string) option" where
  "parseTapeNonNegativeI64 s = do {
     (value, s) \<leftarrow> parseUInt64 s;
     if value AND tapeTag \<noteq> 0 then None
     else if value > 0x7FFFFFFFFFFFFFFF then None
     else Some (value, s) }"

definition orderBookTapePayloadMask :: u64 where
  "orderBookTapePayloadMask = tapeTag - 1"

lemma parseTape_length: "parseTapeNonNegativeI64 s = Some (v, r) \<Longrightarrow> length r \<le> length s"
  by (auto simp: parseTapeNonNegativeI64_def bind_eq_Some_conv dest: parseUInt64_length split: if_splits)

function tapeLoop :: "PricePair list \<Rightarrow> string \<Rightarrow> (PricePair list \<times> string) option" where
  "tapeLoop levels s = (if \<not> peek CHR '']'' s then do {
       a \<leftarrow> parseComma s;
       (price, b) \<leftarrow> parseTapeNonNegativeI64 a;
       c \<leftarrow> parseComma b;
       (qty, d) \<leftarrow> parseTapeNonNegativeI64 c;
       tapeLoop (levels @ [\<lparr>priceE8 = price, qtyE8 = qty, pairSide = 0\<rparr>]) d }
     else Some (levels, s))"
  by pat_completeness auto
termination
  by (relation "measure (\<lambda>(levels, s). length s)")
    (auto dest!: parseTape_length structure_length)

declare tapeLoop.simps [simp del]

definition parseDepthTapeLine :: "string \<Rightarrow> DepthRow option" where
  "parseDepthTapeLine tapeLine = do {
     s \<leftarrow> parseArrayStart tapeLine;
     (eventId, s) \<leftarrow> parseUInt64 s;
     if eventId = 0 then None
     else do {
       s \<leftarrow> parseComma s;
       (word, s) \<leftarrow> parseUInt64 s;
       if word AND tapeTag = 0 then None
       else do {
         (captureSeq, s) \<leftarrow> parseCommaInt64 s;
         (ingestSeq, s) \<leftarrow> parseCommaInt64 s;
         (arrival, s) \<leftarrow> parseArrival s;
         (levels, s) \<leftarrow> tapeLoop [] s;
         s \<leftarrow> parseArrayEnd s;
         if finish s then Some \<lparr>dr_eventId = eventId, dr_tsNs = word AND orderBookTapePayloadMask,
           dr_captureSeq = captureSeq, dr_ingestSeq = ingestSeq, dr_arrival = arrival,
           dr_levels = levels\<rparr> else None } } }"

text \<open>The inner \<open>for\<close> loop writes \<open>runCount\<close> sides from \<open>levelIndex\<close> on.\<close>

fun fillSides :: "nat \<Rightarrow> nat \<Rightarrow> i64 \<Rightarrow> PricePair list \<Rightarrow> PricePair list" where
  "fillSides levelIndex 0 side levels = levels"
| "fillSides levelIndex (Suc n) side levels =
     fillSides (Suc levelIndex) n side
       (levels[levelIndex := (levels ! levelIndex)\<lparr>pairSide := side\<rparr>])"

function runLoop :: "nat \<Rightarrow> PricePair list \<Rightarrow> string \<Rightarrow> (nat \<times> PricePair list \<times> string) option" where
  "runLoop levelIndex levels s = (if \<not> peek CHR '']'' s then do {
       a \<leftarrow> parseComma s;
       (side, b) \<leftarrow> parseInt64 a;
       if side \<noteq> 0 \<and> side \<noteq> 1 then None
       else do {
         c \<leftarrow> parseComma b;
         (runCount, d) \<leftarrow> parseUInt64 c;
         if runCount = 0 then None
         else if unat runCount > length levels - levelIndex then None
         else runLoop (levelIndex + unat runCount) (fillSides levelIndex (unat runCount) side levels) d } }
     else Some (levelIndex, levels, s))"
  by pat_completeness auto
termination
  by (relation "measure (\<lambda>(levelIndex, levels, s). length s)")
    (auto dest!: parseInt64_length parseUInt64_length structure_length)

declare runLoop.simps [simp del]

definition applyDepthRleSidecar :: "string \<Rightarrow> DepthRow \<Rightarrow> DepthRow option" where
  "applyDepthRleSidecar sidecarLine out = do {
     s \<leftarrow> parseArrayStart sidecarLine;
     (eventId, s) \<leftarrow> parseUInt64 s;
     if eventId \<noteq> dr_eventId out then None
     else do {
       s \<leftarrow> parseComma s;
       (word, s) \<leftarrow> parseUInt64 s;
       if word AND tapeTag = 0 then None
       else if word AND orderBookTapePayloadMask \<noteq> dr_tsNs out then None
       else do {
         (levelIndex, levels, s) \<leftarrow> runLoop 0 (dr_levels out) s;
         if levelIndex \<noteq> length levels then None
         else do {
           s \<leftarrow> parseArrayEnd s;
           if finish s then Some (out\<lparr>dr_levels := levels\<rparr>) else None } } } }"

definition parseDepthTapeSidecarLine :: "string \<Rightarrow> string \<Rightarrow> DepthRow option" where
  "parseDepthTapeSidecarLine tapeLine sidecarLine = do {
     out \<leftarrow> parseDepthTapeLine tapeLine;
     applyDepthRleSidecar sidecarLine out }"

definition parseSnapshotDocument :: "string \<Rightarrow> SnapshotDocument option" where
  "parseSnapshotDocument doc = parseFlatOrderbook doc"

definition parseBoolByte :: "string \<Rightarrow> (u8 \<times> string) option" where
  "parseBoolByte s =
     (if peek CHR ''t'' s \<or> peek CHR ''f'' s then do {
        (b, s) \<leftarrow> parseBool s;
        Some (if b then 1 else 0, s) }
      else do {
        (i, s) \<leftarrow> parseInt64 s;
        if i \<noteq> 0 \<and> i \<noteq> 1 then None else Some (ucast i, s) })"

section \<open>The line readers\<close>

definition parseTradeLine :: "string \<Rightarrow> TradeRow option" where
  "parseTradeLine line = do {
     s \<leftarrow> parseArrayStart line;
     (price, s) \<leftarrow> parseInt64 s;
     (qty, s) \<leftarrow> parseCommaInt64 s;
     (side, s) \<leftarrow> parseCommaInt64 s;
     if side \<noteq> 0 \<and> side \<noteq> 1 then None
     else do {
       (tsNs, s) \<leftarrow> parseCommaInt64 s;
       (tradeId, s) \<leftarrow> parseCommaUInt64 s;
       (firstTradeId, s) \<leftarrow> parseCommaUInt64 s;
       (lastTradeId, s) \<leftarrow> parseCommaUInt64 s;
       (quoteQty, s) \<leftarrow> parseCommaInt64 s;
       s \<leftarrow> parseComma s;
       (isBuyerMaker, s) \<leftarrow> parseBoolByte s;
       (symbol, s) \<leftarrow> parseCommaString s;
       (exchange, s) \<leftarrow> parseCommaString s;
       (market, s) \<leftarrow> parseCommaString s;
       (captureSeq, s) \<leftarrow> parseCommaInt64 s;
       (ingestSeq, s) \<leftarrow> parseCommaInt64 s;
       (arrival, s) \<leftarrow> parseArrival s;
       s \<leftarrow> parseArrayEnd s;
       if \<not> finish s then None
       else Some \<lparr>tr_tradeId = tradeId, tr_firstTradeId = firstTradeId, tr_lastTradeId = lastTradeId,
         tr_symbol = symbol, tr_exchange = exchange, tr_market = market, tr_tsNs = tsNs,
         tr_captureSeq = captureSeq, tr_ingestSeq = ingestSeq, tr_priceE8 = price, tr_qtyE8 = qty,
         tr_quoteQtyE8 = quoteQty, tr_side = side, tr_isBuyerMaker = isBuyerMaker,
         tr_sideBuy = ucast side, tr_arrival = arrival\<rparr> } }"

definition parseLiquidationLine :: "string \<Rightarrow> LiquidationRow option" where
  "parseLiquidationLine line = do {
     s \<leftarrow> parseArrayStart line;
     (price, s) \<leftarrow> parseInt64 s;
     (qty, s) \<leftarrow> parseCommaInt64 s;
     (side, s) \<leftarrow> parseCommaInt64 s;
     if side \<noteq> 0 \<and> side \<noteq> 1 then None
     else do {
       (tsNs, s) \<leftarrow> parseCommaInt64 s;
       (avgPrice, s) \<leftarrow> parseCommaInt64 s;
       (filledQty, s) \<leftarrow> parseCommaInt64 s;
       (symbol, s) \<leftarrow> parseCommaString s;
       (exchange, s) \<leftarrow> parseCommaString s;
       (market, s) \<leftarrow> parseCommaString s;
       (orderType, s) \<leftarrow> parseCommaInt64 s;
       (timeInForce, s) \<leftarrow> parseCommaInt64 s;
       (st, s) \<leftarrow> parseCommaInt64 s;
       (sourceMode, s) \<leftarrow> parseCommaInt64 s;
       (captureSeq, s) \<leftarrow> parseCommaInt64 s;
       (ingestSeq, s) \<leftarrow> parseCommaInt64 s;
       (arrival, s) \<leftarrow> parseArrival s;
       s \<leftarrow> parseArrayEnd s;
       if \<not> finish s then None
       else Some \<lparr>lq_symbol = symbol, lq_exchange = exchange, lq_market = market, lq_tsNs = tsNs,
         lq_captureSeq = captureSeq, lq_ingestSeq = ingestSeq, lq_priceE8 = price, lq_qtyE8 = qty,
         lq_avgPriceE8 = avgPrice, lq_filledQtyE8 = filledQty, lq_side = side,
         lq_sideBuy = ucast side, lq_orderType = orderType, lq_timeInForce = timeInForce,
         lq_status = st, lq_sourceMode = sourceMode, lq_arrival = arrival\<rparr> } }"

definition parseBookTickerLine :: "string \<Rightarrow> BookTickerRow option" where
  "parseBookTickerLine line = do {
     s \<leftarrow> parseArrayStart line;
     (eventId, s) \<leftarrow> parseUInt64 s;
     if eventId = 0 then None
     else do {
       (bidPrice, s) \<leftarrow> parseCommaInt64 s;
       (bidQty, s) \<leftarrow> parseCommaInt64 s;
       (askPrice, s) \<leftarrow> parseCommaInt64 s;
       (askQty, s) \<leftarrow> parseCommaInt64 s;
       (tsNs, s) \<leftarrow> parseCommaInt64 s;
       (symbol, s) \<leftarrow> parseCommaString s;
       (exchange, s) \<leftarrow> parseCommaString s;
       (market, s) \<leftarrow> parseCommaString s;
       (captureSeq, s) \<leftarrow> parseCommaInt64 s;
       (ingestSeq, s) \<leftarrow> parseCommaInt64 s;
       (arrival, s) \<leftarrow> parseArrival s;
       s \<leftarrow> parseArrayEnd s;
       if \<not> finish s then None
       else Some \<lparr>bt_eventId = eventId, bt_symbol = symbol, bt_exchange = exchange,
         bt_market = market, bt_tsNs = tsNs, bt_captureSeq = captureSeq, bt_ingestSeq = ingestSeq,
         bt_bidPriceE8 = bidPrice, bt_bidQtyE8 = bidQty, bt_askPriceE8 = askPrice,
         bt_askQtyE8 = askQty, bt_arrival = arrival\<rparr> } }"

definition parseCandleLine :: "string \<Rightarrow> CandleRow option" where
  "parseCandleLine line = do {
     s \<leftarrow> parseArrayStart line;
     (tier, s) \<leftarrow> parseInt64 s;
     (tsNs, s) \<leftarrow> parseCommaInt64 s;
     (open, s) \<leftarrow> parseCommaInt64 s;
     (high, s) \<leftarrow> parseCommaInt64 s;
     (low, s) \<leftarrow> parseCommaInt64 s;
     (close, s) \<leftarrow> parseCommaInt64 s;
     (volume, s) \<leftarrow> parseCommaInt64 s;
     (quoteAmount, s) \<leftarrow> parseCommaInt64 s;
     s \<leftarrow> parseComma s;
     (hasOhlc, s) \<leftarrow> parseBoolByte s;
     (exchange, s) \<leftarrow> parseCommaString s;
     (market, s) \<leftarrow> parseCommaString s;
     (symbol, s) \<leftarrow> parseCommaString s;
     (timeframe, s) \<leftarrow> parseCommaString s;
     (durationNs, s) \<leftarrow> parseCommaInt64 s;
     (captureSeq, s) \<leftarrow> parseCommaInt64 s;
     (ingestSeq, s) \<leftarrow> parseCommaInt64 s;
     (arrival, s) \<leftarrow> parseArrival s;
     let out = \<lparr>cd_tier = tier, cd_tsNs = tsNs, cd_exchange = exchange, cd_market = market,
         cd_symbol = symbol, cd_timeframe = timeframe, cd_durationNs = durationNs,
         cd_openE8 = open, cd_highE8 = high, cd_lowE8 = low, cd_closeE8 = close,
         cd_volumeE8 = volume, cd_quoteAmountE8 = quoteAmount, cd_hasOhlc = (hasOhlc \<noteq> 0),
         cd_captureSeq = captureSeq, cd_ingestSeq = ingestSeq, cd_arrival = arrival\<rparr>
     in if \<not> validateCandle out then None
        else do {
          s \<leftarrow> parseArrayEnd s;
          if \<not> finish s then None else Some out } }"

definition parseMarkPriceLine :: "string \<Rightarrow> MarkPriceRow option" where
  "parseMarkPriceLine line = do {
     s \<leftarrow> parseArrayStart line;
     (tsNs, s) \<leftarrow> parseInt64 s;
     (price, s) \<leftarrow> parseCommaInt64 s;
     (captureSeq, s) \<leftarrow> parseCommaInt64 s;
     (ingestSeq, s) \<leftarrow> parseCommaInt64 s;
     (arrival, s) \<leftarrow> parseArrival s;
     if sint tsNs \<le> 0 \<or> sint price \<le> 0 then None
     else do {
       s \<leftarrow> parseArrayEnd s;
       if \<not> finish s then None
       else Some \<lparr>mp_tsNs = tsNs, mp_markPriceE8 = price, mp_captureSeq = captureSeq,
         mp_ingestSeq = ingestSeq, mp_arrival = arrival\<rparr> } }"

definition parseIndexPriceLine :: "string \<Rightarrow> IndexPriceRow option" where
  "parseIndexPriceLine line = do {
     s \<leftarrow> parseArrayStart line;
     (tsNs, s) \<leftarrow> parseInt64 s;
     (price, s) \<leftarrow> parseCommaInt64 s;
     (captureSeq, s) \<leftarrow> parseCommaInt64 s;
     (ingestSeq, s) \<leftarrow> parseCommaInt64 s;
     (arrival, s) \<leftarrow> parseArrival s;
     if sint tsNs \<le> 0 \<or> sint price \<le> 0 then None
     else do {
       s \<leftarrow> parseArrayEnd s;
       if \<not> finish s then None
       else Some \<lparr>ip_tsNs = tsNs, ip_indexPriceE8 = price, ip_captureSeq = captureSeq,
         ip_ingestSeq = ingestSeq, ip_arrival = arrival\<rparr> } }"

definition parseFundingLine :: "string \<Rightarrow> FundingRow option" where
  "parseFundingLine line = do {
     s \<leftarrow> parseArrayStart line;
     (tsNs, s) \<leftarrow> parseInt64 s;
     (rate, s) \<leftarrow> parseCommaInt64 s;
     (fundingTsNs, s) \<leftarrow> parseCommaInt64 s;
     (nextFundingTsNs, s) \<leftarrow> parseCommaInt64 s;
     (captureSeq, s) \<leftarrow> parseCommaInt64 s;
     (ingestSeq, s) \<leftarrow> parseCommaInt64 s;
     (arrival, s) \<leftarrow> parseArrival s;
     if sint tsNs \<le> 0 then None
     else do {
       s \<leftarrow> parseArrayEnd s;
       if \<not> finish s then None
       else Some \<lparr>fd_tsNs = tsNs, fd_fundingRateE8 = rate, fd_fundingTsNs = fundingTsNs,
         fd_nextFundingTsNs = nextFundingTsNs, fd_captureSeq = captureSeq,
         fd_ingestSeq = ingestSeq, fd_arrival = arrival\<rparr> } }"

definition parsePriceLimitLine :: "string \<Rightarrow> PriceLimitRow option" where
  "parsePriceLimitLine line = do {
     s \<leftarrow> parseArrayStart line;
     (tsNs, s) \<leftarrow> parseInt64 s;
     (buyLimit, s) \<leftarrow> parseCommaInt64 s;
     (sellLimit, s) \<leftarrow> parseCommaInt64 s;
     s \<leftarrow> parseComma s;
     (enabled, s) \<leftarrow> parseBoolByte s;
     (captureSeq, s) \<leftarrow> parseCommaInt64 s;
     (ingestSeq, s) \<leftarrow> parseCommaInt64 s;
     (arrival, s) \<leftarrow> parseArrival s;
     if sint tsNs \<le> 0 \<or> sint buyLimit < 0 \<or> sint sellLimit < 0 then None
     else do {
       s \<leftarrow> parseArrayEnd s;
       if \<not> finish s then None
       else Some \<lparr>pl_tsNs = tsNs, pl_buyLimitE8 = buyLimit, pl_sellLimitE8 = sellLimit,
         pl_enabled = enabled, pl_captureSeq = captureSeq, pl_ingestSeq = ingestSeq,
         pl_arrival = arrival\<rparr> } }"

section \<open>Reading written lines\<close>

lemma skipWs_idem [json_simps]: "skipWs (skipWs s) = skipWs s"
  by (simp add: skipWs_def)

lemma parse_skipWs [json_simps]:
  "parseInt64 (skipWs s) = parseInt64 s" "parseUInt64 (skipWs s) = parseUInt64 s"
  "peek c (skipWs s) = peek c s"
  by (simp_all add: parseInt64_def parseUInt64_def peek_def skipWs_idem)

lemma comma_simps [json_simps]:
  "parseCommaInt64 (CHR '','' # s) = parseInt64 s"
  "parseCommaUInt64 (CHR '','' # s) = parseUInt64 s"
  "parseCommaString (CHR '','' # s) = parseString s"
  by (simp_all add: parseCommaInt64_def parseCommaUInt64_def parseCommaString_def json_simps)

lemma finish_simps [json_simps]: "finish []" "finish [CHR 0x0A]"
  by (simp_all add: finish_def skipWs_def isWs_def)

lemma ucast_narrow [json_simps]:
  "\<not> 0xFFFFFFFF < (ucast (w :: u32) :: u64)" "\<not> 0xFFFF < (ucast (v :: u16) :: u64)"
  "ucast (ucast w :: u64) = w" "ucast (ucast v :: u64) = v"
proof -
  have "unat w < 2 ^ 32" "unat v < 2 ^ 16"
    using unsigned_less [of w, where 'a = nat] unsigned_less [of v, where 'a = nat] by simp_all
  then show "\<not> 0xFFFFFFFF < (ucast w :: u64)" "\<not> 0xFFFF < (ucast v :: u64)"
    by (simp_all add: word_less_nat_alt unsigned_ucast_eq take_bit_eq_mod)
  show "ucast (ucast w :: u64) = w" "ucast (ucast v :: u64) = v"
    by (rule bit_word_eqI, auto simp: bit_simps)+
qed

lemma parseArrival_append [json_simps]:
  assumes "endsNumber rest"
  shows "parseArrival (CHR '','' # appendArrival a @ rest) =
    (if acceptArrival a then Some (a, rest) else None)"
  using assms by (cases a) (simp add: parseArrival_def appendArrival_def json_simps)

lemma peek_number [json_simps]:
  "c = CHR ''t'' \<or> c = CHR ''f'' \<or> c = CHR '']'' \<or> c = CHR ''['' \<Longrightarrow> \<not> peek c (to_chars_u w @ s)"
  "c = CHR ''t'' \<or> c = CHR ''f'' \<or> c = CHR '']'' \<or> c = CHR ''['' \<Longrightarrow> \<not> peek c (to_chars_i v @ s)"
proof -
  have nat: "\<not> peek c (to_chars_nat n @ s)"
    if "c = CHR ''t'' \<or> c = CHR ''f'' \<or> c = CHR '']'' \<or> c = CHR ''[''" for n
    using that by (rule_tac to_chars_nat_Cons [of n]) (auto simp: peek_def skipWs_def isDigit_not dest: isDigit_not)
  then show "\<not> peek c (to_chars_u w @ s)"
    if "c = CHR ''t'' \<or> c = CHR ''f'' \<or> c = CHR '']'' \<or> c = CHR ''[''"
    using that by (simp add: to_chars_u_def)
  show "\<not> peek c (to_chars_i v @ s)"
    if "c = CHR ''t'' \<or> c = CHR ''f'' \<or> c = CHR '']'' \<or> c = CHR ''[''"
    using that nat [OF that] by (auto simp: to_chars_i_def) (simp_all add: peek_def skipWs_def isWs_def)
qed

lemma parseInt64_small [json_simps]:
  fixes w :: "'a::len word"
  assumes "endsNumber rest" and "LENGTH('a) < 64"
  shows "parseInt64 (to_chars_u w @ rest) = Some (ucast w, rest)"
proof -
  have "uint w < 2 ^ LENGTH('a)" by (rule unsigned_less)
  also have "\<dots> \<le> 2 ^ 63" using assms(2) by (intro power_increasing) simp_all
  finally have "uint w < 2 ^ 63" .
  moreover have "- (2 ^ 63) \<le> uint w" by (rule order_trans [of _ 0]) simp_all
  ultimately have "sint (ucast w :: i64) = uint w"
    by (simp add: sint_uint unsigned_ucast_eq take_bit_int_eq_self signed_take_bit_int_eq_self)
  then have "to_chars_u w = to_chars_i (ucast w)"
    by (simp add: to_chars_i_def to_chars_u_def)
  then show ?thesis using parseInt64_to_chars [OF assms(1)] by simp
qed

end
