(* ===== verification/EventLines.thy ===== *)
theory EventLines
  imports EventReader
begin

text \<open>
  What the writers of \<^verbatim>\<open>JsonSerializers.cpp\<close> and the readers of \<^verbatim>\<open>JsonLineParser.cpp\<close> make of
  each other's output: which rows a line can carry, and that these rows come back unchanged.
\<close>

section \<open>Which arrivals are accepted\<close>

definition storableTrade :: "TradeRow \<Rightarrow> bool" where
  "storableTrade t \<longleftrightarrow> tr_side t \<in> {0, 1} \<and> tr_sideBuy t = ucast (tr_side t) \<and>
     tr_isBuyerMaker t \<in> {0, 1} \<and> acceptArrival (tr_arrival t)"

definition storableBookTicker :: "BookTickerRow \<Rightarrow> bool" where
  "storableBookTicker t \<longleftrightarrow> bt_eventId t \<noteq> 0 \<and> acceptArrival (bt_arrival t)"

definition storableCandle :: "CandleRow \<Rightarrow> bool" where
  "storableCandle c \<longleftrightarrow> validateCandle c \<and> acceptArrival (cd_arrival c)"

lemma parseBoolByte_text:
  assumes "endsNumber rest"
  shows "parseBoolByte (to_chars_u (w :: u8) @ rest) = (if w \<in> {0, 1} then Some (w, rest) else None)"
proof -
  have inv: "ucast (ucast w :: i64) = w" by (rule bit_word_eqI) (auto simp: bit_simps)
  then have "(ucast w :: i64) = 0 \<Longrightarrow> w = 0" "(ucast w :: i64) = 1 \<Longrightarrow> w = 1" by auto
  then have "(ucast w :: i64) = 0 \<longleftrightarrow> w = 0" "(ucast w :: i64) = 1 \<longleftrightarrow> w = 1" by auto
  with inv show ?thesis using assms by (simp add: parseBoolByte_def json_simps)
qed

lemma parseTradeLine_render:
  "parseTradeLine (renderTradeJsonLine t) =
     (if tr_side t \<in> {0, 1} \<and> tr_isBuyerMaker t \<in> {0, 1} \<and> acceptArrival (tr_arrival t)
      then Some (t\<lparr>tr_sideBuy := ucast (tr_side t)\<rparr>) else None)"
  by (cases t) (simp add: parseTradeLine_def renderTradeJsonLine_def json_simps parseBoolByte_text)

lemma parseBookTickerLine_render:
  "parseBookTickerLine (renderBookTickerJsonLine t) = (if storableBookTicker t then Some t else None)"
  by (cases t) (simp add: parseBookTickerLine_def renderBookTickerJsonLine_def storableBookTicker_def
      json_simps)

lemma parseBoolByte_flag:
  "endsNumber rest \<Longrightarrow> parseBoolByte (to_chars_u (if b then 1 else 0 :: u32) @ rest) =
     Some (if b then 1 else 0, rest)"
  by (cases b) (simp_all add: parseBoolByte_def json_simps)

lemma candleTier_valid: "1 \<le> sint (cd_tier c) \<Longrightarrow> candleTier c = cd_tier c"
  by (simp add: candleTier_def)

lemma parseCandleLine_render:
  "parseCandleLine (renderCandleJsonLine c) =
     (let c' = c\<lparr>cd_tier := candleTier c\<rparr> in if storableCandle c' then Some c' else None)"
  by (cases c) (auto simp: parseCandleLine_def renderCandleJsonLine_def storableCandle_def
      json_simps parseBoolByte_flag Let_def)

lemma parseArrival_accepts: "parseArrival s = Some (a, r) \<Longrightarrow> acceptArrival a"
  by (auto simp: parseArrival_def bind_eq_Some_conv Let_def split: if_splits)

lemma parseBoolByte_range: "parseBoolByte s = Some (b, r) \<Longrightarrow> b = 0 \<or> b = 1"
  by (auto simp: parseBoolByte_def bind_eq_Some_conv split: if_splits)

lemma parseTradeLine_storable: "parseTradeLine line = Some t \<Longrightarrow> storableTrade t"
  by (auto simp: parseTradeLine_def storableTrade_def bind_eq_Some_conv split: if_splits
      dest: parseArrival_accepts parseBoolByte_range)

lemma parseBookTickerLine_storable: "parseBookTickerLine line = Some t \<Longrightarrow> storableBookTicker t"
  by (auto simp: parseBookTickerLine_def storableBookTicker_def bind_eq_Some_conv split: if_splits
      dest: parseArrival_accepts)

lemma parseCandleLine_storable: "parseCandleLine line = Some c \<Longrightarrow> storableCandle c"
  by (auto simp: parseCandleLine_def storableCandle_def bind_eq_Some_conv Let_def split: if_splits
      dest: parseArrival_accepts)

section \<open>The depth tape and its sidecar\<close>

lemma tapeTag_exp: "tapeTag = 2 ^ 63"
  by (simp add: tapeTag_def)

lemma tag_clear_iff: "v AND tapeTag = 0 \<longleftrightarrow> 0 \<le> sint (v :: i64)"
  by (simp only: tapeTag_exp and_exp_eq_0_iff_not_bit sign_bit not_less)

lemma parseTape_text [json_simps]:
  assumes "endsNumber rest" and "0 \<le> sint v"
  shows "parseTapeNonNegativeI64 (to_chars_i v @ rest) = Some (v, rest)"
proof -
  have "to_chars_i v = to_chars_u v"
    using assms(2) by (simp add: to_chars_i_def to_chars_u_def unat_eq_nat_sint)
  moreover have "v \<le> 0x7FFFFFFFFFFFFFFF" using nonneg_unat [OF assms(2)] by (simp add: word_le_nat_alt)
  ultimately show ?thesis using assms
    by (simp add: parseTapeNonNegativeI64_def json_simps tag_clear_iff not_less)
qed

lemma tagged_tape:
  "taggedTapeTimestamp ts AND tapeTag \<noteq> 0"
  "0 \<le> sint ts \<Longrightarrow> taggedTapeTimestamp ts AND orderBookTapePayloadMask = ts"
proof -
  have "bit (taggedTapeTimestamp ts AND tapeTag) 63"
    by (simp add: taggedTapeTimestamp_def tapeTag_def bit_simps)
  then show "taggedTapeTimestamp ts AND tapeTag \<noteq> 0" by (metis bit_0_eq bot_apply bot_bool_def)
  have mask: "orderBookTapePayloadMask = mask 63"
    by (simp add: orderBookTapePayloadMask_def tapeTag_exp mask_eq_exp_minus_1)
  assume "0 \<le> sint ts"
  then have "\<not> bit ts 63" by (simp add: sign_bit)
  then have "n < 63" if "bit ts n" for n
    using that bit_imp_le_length [OF that] by (cases "n = 63") auto
  then show "taggedTapeTimestamp ts AND orderBookTapePayloadMask = ts"
    unfolding mask taggedTapeTimestamp_def tapeTag_exp
    by (intro bit_word_eqI) (auto simp: bit_simps simp del: power_numeral)
qed

abbreviation unsided :: "PricePair \<Rightarrow> PricePair" where
  "unsided l \<equiv> l\<lparr>pairSide := 0\<rparr>"

lemma peek_close [json_simps]: "peek CHR '']'' (CHR '']'' # s)" "\<not> peek CHR '']'' (CHR '','' # s)"
  by (simp_all add: peek_def skipWs_def isWs_def)

lemma endsNumber_tape: "endsNumber (appendTapeLevels ls @ CHR '']'' # rest)"
  by (cases ls) (simp_all add: endsNumber_def)

lemma tapeLoop_text:
  assumes "\<And>l. l \<in> set ls \<Longrightarrow> 0 \<le> sint (priceE8 l) \<and> 0 \<le> sint (qtyE8 l)"
  shows "tapeLoop acc (appendTapeLevels ls @ CHR '']'' # rest) =
    Some (acc @ map unsided ls, CHR '']'' # rest)"
  using assms
proof (induction ls arbitrary: acc)
  case Nil
  then show ?case by (simp add: tapeLoop.simps json_simps)
next
  case (Cons l ls)
  have "\<lparr>priceE8 = priceE8 l, qtyE8 = qtyE8 l, pairSide = 0\<rparr> = unsided l" by simp
  then show ?case using Cons by (subst tapeLoop.simps) (simp add: json_simps endsNumber_tape)
qed

lemma fillSides_run:
  assumes "\<And>l. l \<in> set run \<Longrightarrow> pairSide l = side"
  shows "fillSides (length pre) (length run) side (pre @ map unsided run @ post) = pre @ run @ post"
  using assms
proof (induction run arbitrary: pre)
  case Nil
  then show ?case by simp
next
  case (Cons l run)
  have l: "l\<lparr>pairSide := side\<rparr> = l" using Cons.prems [of l] by (cases l) simp
  have "fillSides (length pre) (length (l # run)) side (pre @ map unsided (l # run) @ post) =
      fillSides (Suc (length pre)) (length run) side (pre @ l\<lparr>pairSide := side\<rparr> # map unsided run @ post)"
    by (simp add: nth_append list_update_append)
  also have "\<dots> = pre @ (l # run) @ post"
    unfolding l using Cons.IH [of "pre @ [l]"] Cons.prems by simp
  finally show ?case .
qed

lemma run_step:
  assumes "\<And>l. l \<in> set run \<Longrightarrow> pairSide l = side" and "side = 0 \<or> side = 1"
    and "run \<noteq> []" and "unat (cnt :: u64) = length run" and "endsNumber s"
  shows "runLoop (length pre) (pre @ map unsided run @ post)
      (CHR '','' # to_chars_i side @ CHR '','' # to_chars_u cnt @ s) =
    runLoop (length (pre @ run)) (pre @ run @ post) s"
proof -
  have "cnt \<noteq> 0" using assms(3,4) by auto
  then show ?thesis using assms fillSides_run [of run side pre post, OF assms(1)]
    by (subst runLoop.simps) (auto simp: json_simps)
qed

lemma endsNumber_runs: "endsNumber (appendRuns side cnt ls @ CHR '']'' # rest)"
  by (induction side cnt ls rule: appendRuns.induct) (simp_all add: json_simps)

lemma runLoop_text:
  assumes "\<And>l. l \<in> set run \<Longrightarrow> pairSide l = side"
    and "\<And>l. l \<in> set ls \<Longrightarrow> pairSide l = 0 \<or> pairSide l = 1" and "side = 0 \<or> side = 1"
    and "run \<noteq> [] \<or> ls \<noteq> [] \<and> pairSide (hd ls) = side"
    and "unat cnt = length run" and "length (run @ ls) < 2 ^ 64"
  shows "runLoop (length pre) (pre @ map unsided run @ map unsided ls)
      (appendRuns side cnt ls @ CHR '']'' # rest) =
    Some (length (pre @ run @ ls), pre @ run @ ls, CHR '']'' # rest)"
  using assms
proof (induction ls arbitrary: pre run side cnt)
  case Nil
  then show ?case
    using run_step [of run side cnt "CHR '']'' # rest" pre "[]"]
    by (simp add: json_simps) (simp add: runLoop.simps json_simps)
next
  case (Cons l ls)
  show ?case
  proof (cases "pairSide l = side")
    case True
    have "unat (cnt + 1) = length (run @ [l])"
      using Cons.prems(5,6) by (simp add: unat_plus_if_size word_size)
    then show ?thesis using Cons.IH [of "run @ [l]" side "cnt + 1" pre] Cons.prems True by auto
  next
    case False
    then have run: "run \<noteq> []" using Cons.prems(4) by simp
    have "runLoop (length pre) (pre @ map unsided run @ map unsided (l # ls))
        (CHR '','' # to_chars_i side @ CHR '','' # to_chars_u cnt @
          appendRuns (pairSide l) 1 ls @ CHR '']'' # rest) =
      runLoop (length (pre @ run)) (pre @ run @ map unsided (l # ls))
        (appendRuns (pairSide l) 1 ls @ CHR '']'' # rest)"
      using Cons.prems run endsNumber_runs by (intro run_step) simp_all
    also have "\<dots> = Some (length (pre @ run @ l # ls), pre @ run @ l # ls, CHR '']'' # rest)"
      using Cons.IH [of "[l]" "pairSide l" 1 "pre @ run"] Cons.prems by simp
    finally show ?thesis using False by simp
  qed
qed

definition storableDepth :: "DepthRow \<Rightarrow> bool" where
  "storableDepth d \<longleftrightarrow> dr_eventId d \<noteq> 0 \<and> 0 \<le> sint (dr_tsNs d) \<and> acceptArrival (dr_arrival d) \<and>
     list_all (\<lambda>l. 0 \<le> sint (priceE8 l) \<and> 0 \<le> sint (qtyE8 l) \<and> pairSide l \<in> {0, 1}) (dr_levels d)"

lemma parseDepthTapeLine_render:
  assumes "storableDepth d"
  shows "parseDepthTapeLine (renderDepthTapeJsonLine d) =
    Some (d\<lparr>dr_levels := map unsided (dr_levels d)\<rparr>)"
proof -
  have "tapeLoop [] (appendTapeLevels (dr_levels d) @ CHR '']'' # []) =
      Some (map unsided (dr_levels d), CHR '']'' # [])"
    using assms tapeLoop_text [of "dr_levels d" "[]" "[]"] by (simp add: storableDepth_def list_all_iff)
  then show ?thesis using assms tagged_tape [of "dr_tsNs d"] endsNumber_tape [of "dr_levels d" "[]"]
    by (simp add: parseDepthTapeLine_def renderDepthTapeJsonLine_def storableDepth_def json_simps)
qed

lemma applyDepthRleSidecar_render:
  assumes "storableDepth d" and "length (dr_levels d) < 2 ^ 64"
  shows "applyDepthRleSidecar (renderDepthRleSidecarJsonLine d)
      (d\<lparr>dr_levels := map unsided (dr_levels d)\<rparr>) = Some d"
proof (cases "dr_levels d")
  case Nil
  then show ?thesis using assms tagged_tape [of "dr_tsNs d"]
    by (simp add: applyDepthRleSidecar_def renderDepthRleSidecarJsonLine_def storableDepth_def
        json_simps runLoop.simps)
next
  case (Cons l ls)
  have "runLoop 0 (map unsided (l # ls)) (appendRuns (pairSide l) 0 (l # ls) @ CHR '']'' # []) =
      Some (length (l # ls), l # ls, CHR '']'' # [])"
    using assms Cons runLoop_text [of "[]" "pairSide l" "l # ls" 0 "[]" "[]"]
    by (auto simp: storableDepth_def list_all_iff simp del: appendRuns.simps)
  then show ?thesis
    using assms Cons tagged_tape [of "dr_tsNs d"] endsNumber_runs [of "pairSide l" 0 "l # ls" "[]"]
    by (simp add: applyDepthRleSidecar_def renderDepthRleSidecarJsonLine_def storableDepth_def
        json_simps del: appendRuns.simps)
qed

text \<open>Every row the two readers return is storable.\<close>

abbreviation levelOk :: "PricePair \<Rightarrow> bool" where
  "levelOk l \<equiv> 0 \<le> sint (priceE8 l) \<and> 0 \<le> sint (qtyE8 l) \<and> pairSide l \<in> {0, 1}"

lemma parseTape_nonneg: "parseTapeNonNegativeI64 s = Some (v, r) \<Longrightarrow> 0 \<le> sint v"
  by (auto simp: parseTapeNonNegativeI64_def bind_eq_Some_conv tag_clear_iff split: if_splits)

lemma tapeLoop_levels:
  "tapeLoop acc s = Some (ls, r) \<Longrightarrow> list_all levelOk acc \<Longrightarrow> list_all levelOk ls"
proof (induction acc s arbitrary: ls r rule: tapeLoop.induct)
  case (1 acc s)
  show ?case
  proof (cases "peek CHR '']'' s")
    case True
    then show ?thesis using 1(2,3) by (simp add: tapeLoop.simps)
  next
    case False
    obtain a p b c q d where steps: "parseComma s = Some a" "parseTapeNonNegativeI64 a = Some (p, b)"
      "parseComma b = Some c" "parseTapeNonNegativeI64 c = Some (q, d)"
      "tapeLoop (acc @ [\<lparr>priceE8 = p, qtyE8 = q, pairSide = 0\<rparr>]) d = Some (ls, r)"
      using 1(2) False by (subst (asm) tapeLoop.simps) (auto simp: bind_eq_Some_conv)
    show ?thesis
      using 1(1) [OF False steps(1,2) refl steps(3,4) refl steps(5)] 1(3) steps(2,4)
      by (simp add: parseTape_nonneg)
  qed
qed

lemma fillSides_levels:
  "list_all levelOk ls \<Longrightarrow> side = 0 \<or> side = 1 \<Longrightarrow> i + n \<le> length ls \<Longrightarrow>
     list_all levelOk (fillSides i n side ls) \<and> length (fillSides i n side ls) = length ls"
proof (induction i n side ls rule: fillSides.induct)
  case (2 i n side ls)
  then have "levelOk (ls ! i)" by (simp add: list_all_length)
  then have "list_all levelOk (ls[i := (ls ! i)\<lparr>pairSide := side\<rparr>])"
    using 2(2,3,4) by (auto simp: list_all_length nth_list_update)
  then show ?case using 2 by simp
qed simp

lemma runLoop_levels:
  "runLoop i ls s = Some (j, ks, r) \<Longrightarrow> list_all levelOk ls \<Longrightarrow> i \<le> length ls \<Longrightarrow>
     list_all levelOk ks \<and> length ks = length ls"
proof (induction i ls s arbitrary: j ks r rule: runLoop.induct)
  case (1 i ls s)
  show ?case
  proof (cases "peek CHR '']'' s")
    case True
    then show ?thesis using 1(2,3) by (simp add: runLoop.simps)
  next
    case False
    obtain a side b c cnt d where steps: "parseComma s = Some a" "parseInt64 a = Some (side, b)"
      "\<not> (side \<noteq> 0 \<and> side \<noteq> 1)" "parseComma b = Some c" "parseUInt64 c = Some (cnt, d)"
      "cnt \<noteq> 0" "\<not> unat cnt > length ls - i"
      "runLoop (i + unat cnt) (fillSides i (unat cnt) side ls) d = Some (j, ks, r)"
      using 1(2) False by (subst (asm) runLoop.simps) (auto simp: bind_eq_Some_conv split: if_splits)
    have fill: "list_all levelOk (fillSides i (unat cnt) side ls) \<and>
        length (fillSides i (unat cnt) side ls) = length ls"
      using fillSides_levels [of ls side i "unat cnt"] 1(3,4) steps(3,7) by auto
    show ?thesis
      using 1(1) [OF False steps(1,2) refl steps(3,4,5) refl steps(6,7,8)] fill 1(4) steps(7) by simp
  qed
qed

lemma parseDepth_storable:
  assumes "parseDepthTapeSidecarLine tape sidecar = Some d"
  shows "storableDepth d"
proof -
  obtain out where out: "parseDepthTapeLine tape = Some out" and d: "applyDepthRleSidecar sidecar out = Some d"
    using assms by (auto simp: parseDepthTapeSidecarLine_def bind_eq_Some_conv)
  have "\<not> bit (w AND orderBookTapePayloadMask) 63" for w
    by (simp add: orderBookTapePayloadMask_def tapeTag_exp flip: mask_eq_exp_minus_1)
      (simp add: bit_simps)
  then have "0 \<le> sint (w AND orderBookTapePayloadMask)" for w by (simp add: sign_bit not_less)
  then have out_ok: "dr_eventId out \<noteq> 0 \<and> 0 \<le> sint (dr_tsNs out) \<and> acceptArrival (dr_arrival out) \<and>
      list_all levelOk (dr_levels out)"
    using out by (auto simp: parseDepthTapeLine_def bind_eq_Some_conv split: if_splits
        dest: parseArrival_accepts tapeLoop_levels)
  obtain j ks r r' where "runLoop 0 (dr_levels out) r = Some (j, ks, r')" "d = out\<lparr>dr_levels := ks\<rparr>"
    using d by (auto simp: applyDepthRleSidecar_def bind_eq_Some_conv split: if_splits)
  then show ?thesis using out_ok runLoop_levels [of 0 "dr_levels out" r j ks r']
    by (simp add: storableDepth_def)
qed

section \<open>Snapshots\<close>

lemma pairLoop_text:
  assumes "\<And>l. l \<in> set ls \<Longrightarrow> pairSide l = 0 \<or> pairSide l = 1"
  shows "pairLoop acc (appendLevels ls @ (if ls \<noteq> [] then '','' else []) @ to_chars_i ts @ rest) =
    Some (acc @ ls, to_chars_i ts @ rest)"
  using assms
proof (induction ls arbitrary: acc)
  case Nil
  then show ?case by (simp add: pairLoop.simps json_simps)
next
  case (Cons l ls)
  have "parsePricePair (CHR ''['' # to_chars_i (priceE8 l) @ CHR '','' # to_chars_i (qtyE8 l) @ CHR '','' #
      to_chars_i (pairSide l) @ CHR '']'' # s) = Some (l, s)" for s
    using Cons.prems [of l] by (cases l) (auto simp: parsePricePair_def json_simps)
  moreover have "peek CHR ''['' (CHR ''['' # s)" for s by (simp add: json_simps)
  ultimately show ?case using Cons
    by (subst pairLoop.simps) (cases ls; simp add: json_simps)
qed

lemma plainStart_not_close: "plainStart s \<Longrightarrow> \<not> peek CHR '']'' (s @ t)"
  using plainStart_rest by blast

lemma parseSnapshot_render:
  assumes "list_all (\<lambda>l. pairSide l \<in> {0, 1}) (sn_levels d)"
  shows "parseSnapshotDocument (renderSnapshotJson d) = Some d"
proof -
  let ?body = "appendLevels (sn_levels d) @ (if sn_levels d \<noteq> [] then '','' else []) @
    to_chars_i (sn_tsNs d) @ CHR '']'' # [CHR 0x0A]"
  have start: "plainStart ?body"
    by (cases "sn_levels d") (simp_all add: plainStart_append plainStart_chars, simp add: plainStart_def isWs_def)
  have "pairLoop [] ?body = Some (sn_levels d, to_chars_i (sn_tsNs d) @ CHR '']'' # [CHR 0x0A])"
    using assms pairLoop_text [of "sn_levels d" "[]" "sn_tsNs d" "CHR '']'' # [CHR 0x0A]"]
    by (simp add: list_all_iff)
  then show ?thesis using plainStart_skipWs [OF start] plainStart_peek [OF start]
    by (simp add: parseSnapshotDocument_def parseFlatOrderbook_def renderSnapshotJson_def
        appendFlatOrderbook_def json_simps)
qed

lemma flags_within:
  fixes f :: "'a::len word"
  assumes "f AND NOT (a OR b) = 0" and "f AND a = 0"
  shows "f AND b = f"
proof -
  have "f AND b = (f AND NOT (a OR b)) OR (f AND a) OR (f AND b)" using assms by simp
  also have "\<dots> = f" by (rule bit_word_eqI) (auto simp: bit_simps)
  finally show ?thesis .
qed

lemma and_or_zero: "f AND (a OR b) = 0 \<Longrightarrow> f AND a = (0 :: 'a::len word)"
  by (metis and.left_idem and_zero_eq bit.conj_disj_distrib or_eq_0_iff zero_and_eq)

lemma and_single_bit: "f AND 2 ^ n = 0 \<or> f AND 2 ^ n = (2 ^ n :: 'a::len word)"
  by (cases "bit f n")
    (auto simp: and_exp_eq_0_iff_not_bit intro!: bit_word_eqI simp: bit_simps)

lemma acceptArrival_cases:
  "acceptArrival a \<longleftrightarrow> hasCapturedApplicationArrival a \<or> isHistoricalBackfill a \<or>
     a = noArrival \<or> a = noArrival\<lparr>arrivalFlags := EventArrivalExchangeTimestampMissing\<rparr>"
proof -
  let ?f = "arrivalFlags a" and ?h = EventArrivalHistoricalBackfill and ?m = EventArrivalExchangeTimestampMissing
  have sub: "f AND NOT kEventArrivalKnownFlags = 0 \<and> f AND EventArrivalApplicationFrame = 0"
    if "f AND NOT (?h OR ?m) = 0" for f
  proof -
    have "f AND x = 0" if "x AND (?h OR ?m) = 0" for x
    proof -
      have "f AND x = (f AND NOT (?h OR ?m)) AND x OR (f AND (x AND (?h OR ?m)))"
        by (rule bit_word_eqI) (auto simp: bit_and_iff bit_or_iff bit_not_iff)
      then show ?thesis using that \<open>f AND NOT (?h OR ?m) = 0\<close> by simp
    qed
    then show ?thesis by (simp add: arrival_flags kEventArrivalKnownFlags_def)
  qed
  have none: "?f = 0 \<or> ?f = ?m" if "?f AND NOT (?h OR ?m) = 0" "?f AND ?h = 0"
    using flags_within [OF that] and_single_bit [of ?f 5] by (simp add: arrival_flags)
  show ?thesis
  proof (cases "?f AND NOT (?h OR ?m) = 0")
    case True
    then show ?thesis using sub [OF True] none [OF True]
      by (cases a) (auto simp: acceptArrival_def hasCapturedApplicationArrival_def Let_def
          isHistoricalBackfill_def noArrival_def arrival_flags kEventArrivalKnownFlags_def)
  next
    case False
    then show ?thesis using and_or_zero [of ?f ?h EventArrivalSourceLifecycle]
      by (auto simp: acceptArrival_def hasCapturedApplicationArrival_def Let_def
          isHistoricalBackfill_def noArrival_def arrival_flags kEventArrivalKnownFlags_def)
  qed
qed

section \<open>Properties\<close>

text \<open>C17: a trade row is read back unchanged from the line written for it exactly when it is
  storable (a side of 0 or 1 with \<open>sideBuy\<close> agreeing, a maker flag of 0 or 1, an arrival the
  reader accepts), and storable rows are exactly the rows any line can yield.\<close>

theorem trade_line_exact:
  "(parseTradeLine (renderTradeJsonLine t) = Some t \<longleftrightarrow> storableTrade t) \<and>
   ((\<exists>line. parseTradeLine line = Some t) \<longleftrightarrow> storableTrade t)"
proof -
  have eq: "t\<lparr>tr_sideBuy := x\<rparr> = t \<longleftrightarrow> tr_sideBuy t = x" for x by (cases t) auto
  have "parseTradeLine (renderTradeJsonLine t) = Some t \<longleftrightarrow> storableTrade t"
    by (auto simp: parseTradeLine_render storableTrade_def eq)
  then show ?thesis using parseTradeLine_storable by blast
qed

text \<open>C18: the same for best-price and candle rows. A candle written without a usable tier gets
  the tier of its timeframe, so it comes back unchanged only if its own tier is valid.\<close>

theorem ticker_candle_line_exact:
  "(parseBookTickerLine (renderBookTickerJsonLine b) = Some b \<longleftrightarrow> storableBookTicker b) \<and>
   ((\<exists>line. parseBookTickerLine line = Some b) \<longleftrightarrow> storableBookTicker b) \<and>
   (parseCandleLine (renderCandleJsonLine c) = Some c \<longleftrightarrow> storableCandle c) \<and>
   ((\<exists>line. parseCandleLine line = Some c) \<longleftrightarrow> storableCandle c)"
proof -
  have "c\<lparr>cd_tier := candleTier c\<rparr> = c" if "storableCandle c"
    using that by (simp add: storableCandle_def validateCandle_def candleTier_valid split: if_splits)
  then have "parseCandleLine (renderCandleJsonLine c) = Some c \<longleftrightarrow> storableCandle c"
    using parseCandleLine_storable by (auto simp: parseCandleLine_render Let_def)
  moreover have "parseBookTickerLine (renderBookTickerJsonLine b) = Some b \<longleftrightarrow> storableBookTicker b"
    by (simp add: parseBookTickerLine_render)
  ultimately show ?thesis using parseCandleLine_storable parseBookTickerLine_storable by blast
qed

text \<open>C16: a depth update written as a tape line and a run-length sidecar line is read back
  from the pair unchanged, the runs restoring the side of every level, exactly when it is
  storable: a non-zero id, no negative time, price or quantity, a side of 0 or 1 on every
  level, an accepted arrival. These are exactly the rows any pair of lines can yield.\<close>

theorem depth_lines_exact:
  assumes "length (dr_levels d) < 2 ^ 64"
  shows "(parseDepthTapeSidecarLine (renderDepthTapeJsonLine d) (renderDepthRleSidecarJsonLine d) = Some d
      \<longleftrightarrow> storableDepth d) \<and>
    ((\<exists>tape sidecar. parseDepthTapeSidecarLine tape sidecar = Some d) \<longleftrightarrow> storableDepth d)"
proof -
  have "parseDepthTapeSidecarLine (renderDepthTapeJsonLine d) (renderDepthRleSidecarJsonLine d) = Some d"
    if "storableDepth d"
    using parseDepthTapeLine_render [OF that] applyDepthRleSidecar_render [OF that assms]
    by (simp add: parseDepthTapeSidecarLine_def)
  then show ?thesis using parseDepth_storable by blast
qed

definition sampleDepth :: DepthRow where
  "sampleDepth = \<lparr>dr_eventId = 9, dr_tsNs = 17, dr_captureSeq = 1, dr_ingestSeq = 2,
     dr_arrival = noArrival, dr_levels = [\<lparr>priceE8 = 100, qtyE8 = 5, pairSide = 1\<rparr>,
       \<lparr>priceE8 = 101, qtyE8 = 0, pairSide = 0\<rparr>, \<lparr>priceE8 = 103, qtyE8 = 7, pairSide = 0\<rparr>]\<rparr>"

theorem depth_lines_exact_witness:
  "parseDepthTapeSidecarLine (renderDepthTapeJsonLine sampleDepth)
     (renderDepthRleSidecarJsonLine sampleDepth) = Some sampleDepth"
proof -
  have "length (dr_levels sampleDepth) < 2 ^ 64" by (simp add: sampleDepth_def)
  moreover have "storableDepth sampleDepth"
    by (simp add: storableDepth_def sampleDepth_def acceptArrival_cases)
  ultimately show ?thesis using depth_lines_exact by blast
qed



text \<open>C20: an arrival survives a reader's checks exactly when it is a captured application
  frame, historical backfill with no live instant, or empty but for the missing exchange time
  flag. Nothing else, a source lifecycle arrival in particular, comes out of a line.\<close>

theorem arrival_accepted_classes:
  "acceptArrival a \<longleftrightarrow> hasCapturedApplicationArrival a \<or> isHistoricalBackfill a \<or>
     a = noArrival \<or> a = noArrival\<lparr>arrivalFlags := EventArrivalExchangeTimestampMissing\<rparr>"
  by (rule acceptArrival_cases)

end
