(* ===== verification/Book.thy ===== *)
theory Book
  imports EventRows "HOL-Library.Multiset"
begin

text \<open>
  The order book of \<^verbatim>\<open>Replay/BookState.cpp\<close>. A side of the book is an
  \<^verbatim>\<open>absl::flat_hash_map\<close> from price to quantity; that container is not part of the sources,
  and all the code relies on is that it is a finite map whose iteration visits every entry
  once, in an order of its own. So a side is a map, and the iteration order a parameter
  \<open>iter\<close> of every operation that iterates, with \<open>visits_once iter\<close> the hypothesis.

  Prices and quantities are signed 64-bit integers compared with \<open>sint\<close>. \<^verbatim>\<open>std::sort\<close> by
  price is \<open>sort_key\<close>; the keys are distinct, so the result does not depend on the algorithm.
\<close>

type_synonym level_map = "i64 \<rightharpoonup> i64"
type_synonym level_iter = "level_map \<Rightarrow> (i64 \<times> i64) list"

record BookState =
  bids :: level_map
  asks :: level_map
  bidView :: "(i64 \<times> i64) list"
  askView :: "(i64 \<times> i64) list"
  bidsDirty :: bool
  asksDirty :: bool
  lastTsNs :: i64

definition initialBook :: BookState where
  "initialBook = \<lparr>bids = Map.empty, asks = Map.empty, bidView = [], askView = [],
     bidsDirty = True, asksDirty = True, lastTsNs = 0\<rparr>"

definition applyLevel :: "level_map \<Rightarrow> PricePair \<Rightarrow> level_map" where
  "applyLevel side level =
     (if qtyE8 level = 0 then side(priceE8 level := None) else side(priceE8 level \<mapsto> qtyE8 level))"

definition reset :: "BookState \<Rightarrow> BookState" where
  "reset b = b\<lparr>bids := Map.empty, asks := Map.empty, bidView := [], askView := [],
     bidsDirty := False, asksDirty := False, lastTsNs := 0\<rparr>"

definition applySided :: "BookState \<Rightarrow> PricePair \<Rightarrow> BookState" where
  "applySided b level =
     (if pairSide level = 0 then b\<lparr>bids := applyLevel (bids b) level, bidsDirty := True\<rparr>
      else b\<lparr>asks := applyLevel (asks b) level, asksDirty := True\<rparr>)"

definition applySnapshot :: "BookState \<Rightarrow> SnapshotDocument \<Rightarrow> BookState" where
  "applySnapshot b snap =
     (foldl (\<lambda>b level. if sint (qtyE8 level) \<le> 0 then b else applySided b level)
       (b\<lparr>bids := Map.empty, asks := Map.empty, bidsDirty := True, asksDirty := True\<rparr>)
       (sn_levels snap))\<lparr>lastTsNs := sn_tsNs snap\<rparr>"

definition applyDelta :: "BookState \<Rightarrow> DepthRow \<Rightarrow> BookState" where
  "applyDelta b delta = (foldl applySided b (dr_levels delta))\<lparr>lastTsNs := dr_tsNs delta\<rparr>"

definition book_empty :: "BookState \<Rightarrow> bool" where
  "book_empty b \<longleftrightarrow> bids b = Map.empty \<and> asks b = Map.empty"

section \<open>Views\<close>

definition ensureBidsView :: "level_iter \<Rightarrow> BookState \<Rightarrow> BookState" where
  "ensureBidsView iter b = (if \<not> bidsDirty b then b
     else b\<lparr>bidView := sort_key (\<lambda>l. - sint (fst l)) (iter (bids b)), bidsDirty := False\<rparr>)"

definition ensureAsksView :: "level_iter \<Rightarrow> BookState \<Rightarrow> BookState" where
  "ensureAsksView iter b = (if \<not> asksDirty b then b
     else b\<lparr>askView := sort_key (\<lambda>l. sint (fst l)) (iter (asks b)), asksDirty := False\<rparr>)"

text \<open>The accessors return the view and the object with its cache filled.\<close>

definition bidsOf :: "level_iter \<Rightarrow> BookState \<Rightarrow> (i64 \<times> i64) list \<times> BookState" where
  "bidsOf iter b = (let b' = ensureBidsView iter b in (bidView b', b'))"

definition asksOf :: "level_iter \<Rightarrow> BookState \<Rightarrow> (i64 \<times> i64) list \<times> BookState" where
  "asksOf iter b = (let b' = ensureAsksView iter b in (askView b', b'))"

definition view_count :: "(i64 \<times> i64) list \<Rightarrow> i64 \<Rightarrow> nat" where
  "view_count levels price = (case find (\<lambda>l. fst l = price) levels of None \<Rightarrow> 0 | Some _ \<Rightarrow> 1)"

text \<open>\<open>None\<close> is the thrown \<^verbatim>\<open>std::out_of_range\<close>.\<close>

definition view_at :: "(i64 \<times> i64) list \<Rightarrow> i64 \<Rightarrow> i64 option" where
  "view_at levels price = map_option snd (find (\<lambda>l. fst l = price) levels)"

definition filteredLevels :: "level_iter \<Rightarrow> level_map \<Rightarrow> i64 \<Rightarrow> i64 \<Rightarrow> nat \<Rightarrow> bool \<Rightarrow> (i64 \<times> i64) list" where
  "filteredLevels iter side minPrice maxPrice maxCandidates descending =
     (let out = filter (\<lambda>(price, qty). \<not> sint qty \<le> 0 \<and>
            \<not> (0 < sint minPrice \<and> sint price < sint minPrice) \<and>
            \<not> (0 < sint maxPrice \<and> sint maxPrice < sint price)) (iter side);
          sorted = sort_key (\<lambda>l. if descending then - sint (fst l) else sint (fst l)) out
      in if 0 < maxCandidates \<and> maxCandidates < length out then take maxCandidates sorted else sorted)"

definition filteredBids :: "level_iter \<Rightarrow> BookState \<Rightarrow> i64 \<Rightarrow> i64 \<Rightarrow> nat \<Rightarrow> (i64 \<times> i64) list" where
  "filteredBids iter b minPrice maxPrice maxCandidates =
     filteredLevels iter (bids b) minPrice maxPrice maxCandidates True"

definition filteredAsks :: "level_iter \<Rightarrow> BookState \<Rightarrow> i64 \<Rightarrow> i64 \<Rightarrow> nat \<Rightarrow> (i64 \<times> i64) list" where
  "filteredAsks iter b minPrice maxPrice maxCandidates =
     filteredLevels iter (asks b) minPrice maxPrice maxCandidates False"

section \<open>Best prices\<close>

definition bestBidPrice :: "level_iter \<Rightarrow> BookState \<Rightarrow> i64" where
  "bestBidPrice iter b = foldl (\<lambda>best (price, qty).
     if 0 < sint qty \<and> sint best < sint price then price else best) 0 (iter (bids b))"

definition bestAskPrice :: "level_iter \<Rightarrow> BookState \<Rightarrow> i64" where
  "bestAskPrice iter b = foldl (\<lambda>best (price, qty).
     if sint qty \<le> 0 then best
     else if best = 0 \<or> sint price < sint best then price else best) 0 (iter (asks b))"

definition bestBidQty :: "level_iter \<Rightarrow> BookState \<Rightarrow> i64" where
  "bestBidQty iter b = snd (foldl (\<lambda>(bestPrice, bestQty) (price, qty).
     if 0 < sint qty \<and> sint bestPrice < sint price then (price, qty) else (bestPrice, bestQty))
     (0, 0) (iter (bids b)))"

definition bestAskQty :: "level_iter \<Rightarrow> BookState \<Rightarrow> i64" where
  "bestAskQty iter b = snd (foldl (\<lambda>(bestPrice, bestQty) (price, qty).
     if sint qty \<le> 0 then (bestPrice, bestQty)
     else if bestPrice = 0 \<or> sint price < sint bestPrice then (price, qty) else (bestPrice, bestQty))
     (0, 0) (iter (asks b)))"

section \<open>Iteration orders\<close>

definition visits_once :: "level_iter \<Rightarrow> bool" where
  "visits_once iter \<longleftrightarrow> (\<forall>m. finite (dom m) \<longrightarrow> map_of (iter m) = m \<and> distinct (map fst (iter m)))"

definition ascending_iter :: level_iter where
  "ascending_iter m = map (\<lambda>k. (k, the (m k))) (sorted_list_of_set (dom m))"

definition descending_iter :: level_iter where
  "descending_iter m = rev (ascending_iter m)"

lemma map_of_ascending: "finite (dom m) \<Longrightarrow> map_of (ascending_iter m) = m"
proof (rule ext)
  fix k
  assume "finite (dom m)"
  then show "map_of (ascending_iter m) k = m k"
    unfolding ascending_iter_def
    by (cases "m k") (auto simp: map_of_eq_None_iff map_of_map_restrict restrict_map_def)
qed

lemma visits_once_ascending: "visits_once ascending_iter"
  by (auto simp: visits_once_def map_of_ascending) (simp add: ascending_iter_def comp_def)

lemma visits_once_descending: "visits_once descending_iter"
proof -
  have "map_of (rev xs) = map_of xs" if "distinct (map fst xs)" for xs :: "(i64 \<times> i64) list"
    using that by (subst map_of_inject_set) (simp_all flip: rev_map)
  then show ?thesis using visits_once_ascending
    by (simp add: visits_once_def descending_iter_def) (simp add: rev_map [symmetric])
qed

lemma iter_iff:
  "visits_once iter \<Longrightarrow> finite (dom m) \<Longrightarrow> (p, q) \<in> set (iter m) \<longleftrightarrow> m p = Some q"
  unfolding visits_once_def by (metis map_of_eq_Some_iff)

lemma iter_distinct: "visits_once iter \<Longrightarrow> finite (dom m) \<Longrightarrow> distinct (map fst (iter m))"
  by (simp add: visits_once_def)

section \<open>Sorted views\<close>

lemma sort_key_unique:
  fixes f :: "'a \<Rightarrow> 'b::linorder"
  assumes "set xs = set ys" and "distinct (map f xs)" and "distinct (map f ys)"
  shows "sort_key f xs = sort_key f ys"
proof -
  have "mset xs = mset ys"
    using assms by (simp add: set_eq_iff_mset_eq_distinct distinct_map)
  moreover have "inj_on f (set xs)" using assms(2) by (simp add: distinct_map)
  ultimately show ?thesis by (rule sort_key_eq_sort_key)
qed

abbreviation priceOf :: "i64 \<times> i64 \<Rightarrow> int" where
  "priceOf l \<equiv> sint (fst l)"

lemma distinct_prices:
  assumes "distinct (map fst xs)"
  shows "distinct (map priceOf xs)" "distinct (map (\<lambda>l. - priceOf l) xs)"
proof -
  have "map priceOf xs = map sint (map fst xs)" "map (\<lambda>l. - priceOf l) xs = map (\<lambda>p. - sint p) (map fst xs)"
    by simp_all
  moreover have "inj_on sint A" "inj_on (\<lambda>p. - sint p) A" for A :: "i64 set"
    by (auto simp: inj_on_def intro: signed_word_eqI)
  ultimately show "distinct (map priceOf xs)" "distinct (map (\<lambda>l. - priceOf l) xs)"
    using assms by (simp_all add: distinct_map del: map_map)
qed

text \<open>What a view of a side must be: the entries of the map, strictly ordered by price.\<close>

definition is_view :: "level_map \<Rightarrow> bool \<Rightarrow> (i64 \<times> i64) list \<Rightarrow> bool" where
  "is_view m descending xs \<longleftrightarrow> map_of xs = m \<and> distinct (map fst xs) \<and>
     sorted_wrt (\<lambda>a b. if descending then priceOf b < priceOf a else priceOf a < priceOf b) xs"

lemma strictly_sorted:
  assumes "distinct (map f xs)" and "sorted (map f xs)"
  shows "sorted_wrt (\<lambda>a b. f a < (f b :: int)) xs"
proof -
  have "sorted_wrt (<) (map f xs)" using assms by (simp add: strict_sorted_iff)
  then show ?thesis by (simp add: sorted_wrt_map)
qed

lemma sort_view:
  assumes "distinct (map fst xs)"
  shows "is_view (map_of xs) True (sort_key (\<lambda>l. - priceOf l) xs)"
    "is_view (map_of xs) False (sort_key priceOf xs)"
proof -
  have fst_sort: "distinct (map fst (sort_key f xs))" for f :: "i64 \<times> i64 \<Rightarrow> int"
    using assms by (simp add: distinct_map)
  have "map_of (sort_key f xs) = map_of xs" for f :: "i64 \<times> i64 \<Rightarrow> int"
    using assms fst_sort by (subst map_of_inject_set) simp_all
  then show "is_view (map_of xs) True (sort_key (\<lambda>l. - priceOf l) xs)"
    "is_view (map_of xs) False (sort_key priceOf xs)"
    using strictly_sorted [OF distinct_prices(2) [OF fst_sort] sorted_sort_key]
      strictly_sorted [OF distinct_prices(1) [OF fst_sort] sorted_sort_key] fst_sort
    by (simp_all add: is_view_def)
qed

lemma view_unique:
  assumes "is_view m d xs" and "is_view m d ys"
  shows "xs = ys"
proof -
  let ?f = "\<lambda>l. if d then - priceOf l else priceOf l"
  have sorted: "sort_key ?f zs = zs" if "is_view m d zs" for zs
  proof -
    have "sorted_wrt (\<lambda>a b. ?f a < ?f b) zs" using that by (auto simp: is_view_def elim: sorted_wrt_mono_rel [rotated])
    then have "sorted (map ?f zs)" by (simp add: sorted_map) (auto elim: sorted_wrt_mono_rel [rotated])
    then show ?thesis by (rule sort_key_id_if_sorted)
  qed
  have "set xs = set ys" using assms by (auto simp: is_view_def map_of_inject_set)
  then have "sort_key ?f xs = sort_key ?f ys"
    using assms distinct_prices [of xs] distinct_prices [of ys]
    by (intro sort_key_unique) (cases d; simp add: is_view_def)+
  then show ?thesis using sorted assms by simp
qed

section \<open>The cached views\<close>

text \<open>The invariant of the object: both maps are finite and a clean cache holds the view.\<close>

definition book_inv :: "BookState \<Rightarrow> bool" where
  "book_inv b \<longleftrightarrow> finite (dom (bids b)) \<and> finite (dom (asks b)) \<and>
     (\<not> bidsDirty b \<longrightarrow> is_view (bids b) True (bidView b)) \<and>
     (\<not> asksDirty b \<longrightarrow> is_view (asks b) False (askView b))"

lemma finite_applyLevel: "finite (dom m) \<Longrightarrow> finite (dom (applyLevel m l))"
  by (simp add: applyLevel_def)

lemma book_inv_init: "book_inv initialBook"
  by (simp add: book_inv_def initialBook_def)

lemma book_inv_reset: "book_inv (reset b)"
  by (simp add: book_inv_def reset_def is_view_def)

lemma book_inv_applySided: "book_inv b \<Longrightarrow> book_inv (applySided b l)"
  by (auto simp: book_inv_def applySided_def finite_applyLevel)

lemma book_inv_lastTsNs: "book_inv b \<Longrightarrow> book_inv (b\<lparr>lastTsNs := t\<rparr>)"
  by (simp add: book_inv_def)

lemma book_inv_foldl:
  assumes "\<And>b l. book_inv b \<Longrightarrow> book_inv (f b l)" and "book_inv b"
  shows "book_inv (foldl f b ls)"
  using assms(2) by (induction ls arbitrary: b) (simp_all add: assms(1))

lemma book_inv_applyDelta: "book_inv b \<Longrightarrow> book_inv (applyDelta b d)"
  unfolding applyDelta_def by (intro book_inv_lastTsNs book_inv_foldl book_inv_applySided)

lemma book_inv_applySnapshot: "book_inv (applySnapshot b d)"
  unfolding applySnapshot_def
  by (intro book_inv_lastTsNs book_inv_foldl) (simp_all add: book_inv_applySided, simp add: book_inv_def)

lemma iter_view:
  assumes "visits_once iter" and "finite (dom m)"
  shows "is_view m True (sort_key (\<lambda>l. - priceOf l) (iter m))" "is_view m False (sort_key priceOf (iter m))"
  using sort_view [of "iter m"] assms by (simp_all add: visits_once_def)

lemma ensure_views:
  assumes "visits_once iter" and "book_inv b"
  shows "book_inv (ensureBidsView iter b)" "is_view (bids b) True (bidView (ensureBidsView iter b))"
    "book_inv (ensureAsksView iter b)" "is_view (asks b) False (askView (ensureAsksView iter b))"
  using assms iter_view [OF assms(1), of "bids b"] iter_view [OF assms(1), of "asks b"]
  by (auto simp: book_inv_def ensureBidsView_def ensureAsksView_def)

text \<open>A use of the object: any sequence of the calls that change it, each iteration in an order
  of its own.\<close>

datatype book_op = Reset | Snapshot SnapshotDocument | Delta DepthRow | ReadBids level_iter | ReadAsks level_iter

fun run_op :: "BookState \<Rightarrow> book_op \<Rightarrow> BookState" where
  "run_op b Reset = reset b"
| "run_op b (Snapshot d) = applySnapshot b d"
| "run_op b (Delta d) = applyDelta b d"
| "run_op b (ReadBids iter) = snd (bidsOf iter b)"
| "run_op b (ReadAsks iter) = snd (asksOf iter b)"

fun op_iter_ok :: "book_op \<Rightarrow> bool" where
  "op_iter_ok (ReadBids iter) = visits_once iter"
| "op_iter_ok (ReadAsks iter) = visits_once iter"
| "op_iter_ok _ = True"

lemma book_inv_run_op: "book_inv b \<Longrightarrow> op_iter_ok op \<Longrightarrow> book_inv (run_op b op)"
  by (cases op) (simp_all add: book_inv_reset book_inv_applySnapshot book_inv_applyDelta
      bidsOf_def asksOf_def Let_def ensure_views)

lemma book_inv_run: "book_inv b \<Longrightarrow> list_all op_iter_ok ops \<Longrightarrow> book_inv (foldl run_op b ops)"
  by (induction ops arbitrary: b) (simp_all add: book_inv_run_op)

section \<open>What a sequence of levels does to a side\<close>

text \<open>The last level for a price decides: quantity zero removes it, any other one sets it.\<close>

fun last_level :: "i64 \<Rightarrow> PricePair list \<Rightarrow> PricePair option" where
  "last_level p [] = None"
| "last_level p (l # ls) = (case last_level p ls of Some k \<Rightarrow> Some k
     | None \<Rightarrow> if priceE8 l = p then Some l else None)"

definition sticky :: "level_map \<Rightarrow> PricePair list \<Rightarrow> level_map" where
  "sticky m ls p = (case last_level p ls of None \<Rightarrow> m p
     | Some l \<Rightarrow> if qtyE8 l = 0 then None else Some (qtyE8 l))"

lemma foldl_applyLevel: "foldl applyLevel m ls = sticky m ls"
proof (induction ls arbitrary: m)
  case Nil
  then show ?case by (simp add: sticky_def fun_eq_iff)
next
  case (Cons l ls)
  then show ?case by (auto simp: sticky_def applyLevel_def fun_eq_iff split: option.splits)
qed

lemma foldl_applySided:
  "bids (foldl applySided b ls) = foldl applyLevel (bids b) (filter (\<lambda>l. pairSide l = 0) ls)"
  "asks (foldl applySided b ls) = foldl applyLevel (asks b) (filter (\<lambda>l. pairSide l \<noteq> 0) ls)"
  by (induction ls arbitrary: b) (simp_all add: applySided_def)

lemma applyDelta_maps:
  "bids (applyDelta b d) = sticky (bids b) (filter (\<lambda>l. pairSide l = 0) (dr_levels d))"
  "asks (applyDelta b d) = sticky (asks b) (filter (\<lambda>l. pairSide l \<noteq> 0) (dr_levels d))"
  by (simp_all add: applyDelta_def foldl_applySided foldl_applyLevel)

lemma foldl_filter: "foldl (\<lambda>b l. if P l then b else f b l) b ls = foldl f b (filter (\<lambda>l. \<not> P l) ls)"
  by (induction ls arbitrary: b) simp_all

lemma applySnapshot_maps:
  "bids (applySnapshot b d) = sticky Map.empty (filter (\<lambda>l. pairSide l = 0 \<and> 0 < sint (qtyE8 l)) (sn_levels d))"
  "asks (applySnapshot b d) = sticky Map.empty (filter (\<lambda>l. pairSide l \<noteq> 0 \<and> 0 < sint (qtyE8 l)) (sn_levels d))"
  by (simp_all add: applySnapshot_def foldl_filter foldl_applySided foldl_applyLevel not_le conj_commute)

section \<open>Best prices\<close>

definition bidStep :: "i64 \<times> i64 \<Rightarrow> i64 \<times> i64 \<Rightarrow> i64 \<times> i64" where
  "bidStep best l = (if 0 < sint (snd l) \<and> sint (fst best) < sint (fst l) then l else best)"

definition askStep :: "i64 \<times> i64 \<Rightarrow> i64 \<times> i64 \<Rightarrow> i64 \<times> i64" where
  "askStep best l = (if sint (snd l) \<le> 0 then best
     else if fst best = 0 \<or> sint (fst l) < sint (fst best) then l else best)"

lemma foldl_fst:
  assumes "\<And>a x. g (fst a) x = fst (f a x)"
  shows "foldl g (fst a) xs = fst (foldl f a xs)"
  by (induction xs arbitrary: a) (simp_all add: assms)

lemma bid_fold:
  "(foldl bidStep a xs = a \<or> (foldl bidStep a xs \<in> set xs \<and> 0 < sint (snd (foldl bidStep a xs)) \<and>
      sint (fst a) < sint (fst (foldl bidStep a xs)))) \<and>
   (\<forall>l\<in>set xs. 0 < sint (snd l) \<longrightarrow> sint (fst l) \<le> sint (fst (foldl bidStep a xs))) \<and>
   sint (fst a) \<le> sint (fst (foldl bidStep a xs))"
proof (induction xs arbitrary: a)
  case Nil
  then show ?case by simp
next
  case (Cons l xs)
  show ?case using Cons.IH [of "bidStep a l"] by (auto simp: bidStep_def split: if_splits)
qed

lemma ask_fold:
  assumes "\<And>l. l \<in> set xs \<Longrightarrow> 0 < sint (snd l) \<Longrightarrow> 0 < sint (fst l)" and "0 \<le> sint (fst a)"
  shows "(foldl askStep a xs = a \<or> (foldl askStep a xs \<in> set xs \<and> 0 < sint (snd (foldl askStep a xs)))) \<and>
   (\<forall>l\<in>set xs. 0 < sint (snd l) \<longrightarrow> fst (foldl askStep a xs) \<noteq> 0 \<and> sint (fst (foldl askStep a xs)) \<le> sint (fst l)) \<and>
   (fst a \<noteq> 0 \<longrightarrow> fst (foldl askStep a xs) \<noteq> 0 \<and> sint (fst (foldl askStep a xs)) \<le> sint (fst a))"
  using assms
proof (induction xs arbitrary: a)
  case Nil
  then show ?case by simp
next
  case (Cons l xs)
  have nz: "p \<noteq> 0" if "0 < sint p" for p :: i64 using that by auto
  have tail: "0 < sint (fst k)" if "k \<in> set xs" "0 < sint (snd k)" for k
    using that Cons.prems(1) [of k] by simp
  note IH = Cons.IH [OF tail]
  show ?case
  proof (cases "0 < sint (snd l)")
    case False
    then have "askStep a l = a" by (simp add: askStep_def)
    then show ?thesis using False IH [of a] Cons.prems(2) by auto
  next
    case True
    then have l: "0 < sint (fst l)" "fst l \<noteq> 0" using Cons.prems(1) [of l] nz by auto
    show ?thesis
    proof (cases "fst a = 0 \<or> sint (fst l) < sint (fst a)")
      case take: True
      then have "askStep a l = l" using True by (simp add: askStep_def)
      then show ?thesis using True take l IH [of l] by auto
    next
      case keep: False
      then have "askStep a l = a" by (simp add: askStep_def)
      then show ?thesis using True keep IH [of a] Cons.prems(2) by auto
    qed
  qed
qed

lemma best_bid_pair:
  "(bestBidPrice iter b, bestBidQty iter b) = foldl bidStep (0, 0) (iter (bids b))"
proof -
  have step: "(\<lambda>(bestPrice, bestQty) (price, qty). if 0 < sint qty \<and> sint bestPrice < sint price
      then (price, qty) else (bestPrice, bestQty)) = bidStep"
    by (auto simp: fun_eq_iff bidStep_def)
  have "bestBidPrice iter b = fst (foldl bidStep (0, 0) (iter (bids b)))"
    unfolding bestBidPrice_def
    by (subst foldl_fst [where f = bidStep and a = "(0, 0)", simplified fst_conv, symmetric])
      (auto simp: bidStep_def)
  then show ?thesis by (simp add: bestBidQty_def step)
qed

lemma best_ask_pair:
  "(bestAskPrice iter b, bestAskQty iter b) = foldl askStep (0, 0) (iter (asks b))"
proof -
  have step: "(\<lambda>(bestPrice, bestQty) (price, qty). if sint qty \<le> 0 then (bestPrice, bestQty)
      else if bestPrice = 0 \<or> sint price < sint bestPrice then (price, qty) else (bestPrice, bestQty)) = askStep"
    by (auto simp: fun_eq_iff askStep_def)
  have "bestAskPrice iter b = fst (foldl askStep (0, 0) (iter (asks b)))"
    unfolding bestAskPrice_def
    by (subst foldl_fst [where f = askStep and a = "(0, 0)", simplified fst_conv, symmetric])
      (auto simp: askStep_def)
  then show ?thesis by (simp add: bestAskQty_def step)
qed

section \<open>Filtered levels\<close>

definition inWindow :: "i64 \<Rightarrow> i64 \<Rightarrow> i64 \<Rightarrow> i64 \<Rightarrow> bool" where
  "inWindow minPrice maxPrice price qty \<longleftrightarrow> 0 < sint qty \<and>
     (sint minPrice \<le> 0 \<or> sint minPrice \<le> sint price) \<and>
     (sint maxPrice \<le> 0 \<or> sint price \<le> sint maxPrice)"

definition window :: "i64 \<Rightarrow> i64 \<Rightarrow> level_map \<Rightarrow> level_map" where
  "window minPrice maxPrice m p =
     (case m p of None \<Rightarrow> None | Some q \<Rightarrow> if inWindow minPrice maxPrice p q then Some q else None)"

lemma map_of_window:
  "distinct (map fst xs) \<Longrightarrow>
     map_of (filter (\<lambda>(p, q). inWindow lo hi p q) xs) = window lo hi (map_of xs)"
proof (induction xs)
  case Nil
  then show ?case by (simp add: window_def fun_eq_iff)
next
  case (Cons x xs)
  then have "map_of xs (fst x) = None" by (simp add: map_of_eq_None_iff)
  with Cons show ?case by (cases x) (auto simp: window_def fun_eq_iff)
qed

lemma filteredLevels_view:
  assumes "visits_once iter" and "finite (dom m)" and "is_view (window lo hi m) d v"
  shows "filteredLevels iter m lo hi n d = (if 0 < n then take n v else v)"
proof -
  let ?out = "filter (\<lambda>(p, q). inWindow lo hi p q) (iter m)"
  have dist: "distinct (map fst (iter m))" and "map_of (iter m) = m"
    using assms(1,2) by (simp_all add: visits_once_def)
  then have map: "map_of ?out = window lo hi m" using map_of_window by metis
  have "distinct (map fst ?out)" using dist by (rule distinct_map_filter)
  then have "is_view (window lo hi m) d (sort_key (\<lambda>l. if d then - priceOf l else priceOf l) ?out)"
    using sort_view [of ?out] map by (cases d) simp_all
  then have sort: "sort_key (\<lambda>l. if d then - priceOf l else priceOf l) ?out = v"
    using view_unique assms(3) by blast
  have len: "length ?out = length v" unfolding sort [symmetric] by simp
  have filt: "filter (\<lambda>(price, qty). \<not> sint qty \<le> 0 \<and> \<not> (0 < sint lo \<and> sint price < sint lo) \<and>
      \<not> (0 < sint hi \<and> sint hi < sint price)) (iter m) = ?out"
    by (rule filter_cong) (auto simp: inWindow_def)
  show ?thesis unfolding filteredLevels_def Let_def filt sort len by simp
qed

section \<open>Properties\<close>

text \<open>C15: whatever sequence of resets, snapshots, deltas and reads has happened, and in whatever
  order the hash maps were iterated, the accessors return the levels of the side exactly once
  each, bids from high to low and asks from low to high; a cached view is never stale, and the
  answer does not depend on the iteration order.\<close>

theorem book_views_correct:
  assumes "list_all op_iter_ok ops" and "visits_once iter" and "visits_once iter'"
    and "b = foldl run_op initialBook ops"
  shows "is_view (bids b) True (fst (bidsOf iter b)) \<and> is_view (asks b) False (fst (asksOf iter b)) \<and>
    fst (bidsOf iter b) = fst (bidsOf iter' b) \<and> fst (asksOf iter b) = fst (asksOf iter' b)"
proof -
  have "book_inv b" using assms(1,4) book_inv_init by (simp add: book_inv_run)
  then have "is_view (bids b) True (fst (bidsOf i b))" "is_view (asks b) False (fst (asksOf i b))"
    if "visits_once i" for i using ensure_views [OF that] by (simp_all add: bidsOf_def asksOf_def Let_def)
  then show ?thesis using assms(2,3) view_unique by blast
qed

definition sampleDelta :: DepthRow where
  "sampleDelta = \<lparr>dr_eventId = 1, dr_tsNs = 5, dr_captureSeq = 0, dr_ingestSeq = 0,
     dr_arrival = noArrival, dr_levels = [\<lparr>priceE8 = 100, qtyE8 = 5, pairSide = 0\<rparr>]\<rparr>"

theorem book_views_correct_witness:
  "is_view [100 \<mapsto> 5] True (fst (bidsOf ascending_iter (foldl run_op initialBook
     [ReadBids ascending_iter, Delta sampleDelta])))"
proof -
  let ?ops = "[ReadBids ascending_iter, Delta sampleDelta]" and ?b = "foldl run_op initialBook
     [ReadBids ascending_iter, Delta sampleDelta]"
  have "list_all op_iter_ok ?ops" by (simp add: visits_once_ascending)
  moreover have "bids ?b = [100 \<mapsto> 5]"
    by (simp add: sampleDelta_def applyDelta_def applySided_def applyLevel_def bidsOf_def
        ensureBidsView_def initialBook_def Let_def)
  ultimately show ?thesis
    using book_views_correct [of ?ops ascending_iter ascending_iter ?b] visits_once_ascending by simp
qed

text \<open>C22: a delta is sticky: a price it mentions takes the last quantity given for it, or
  disappears when that is zero, and every other price keeps its level; a snapshot starts from
  an empty book and keeps only positive quantities.\<close>

theorem book_update_semantics:
  "bids (applyDelta b d) = sticky (bids b) (filter (\<lambda>l. pairSide l = 0) (dr_levels d)) \<and>
   asks (applyDelta b d) = sticky (asks b) (filter (\<lambda>l. pairSide l \<noteq> 0) (dr_levels d)) \<and>
   bids (applySnapshot b s) =
     sticky Map.empty (filter (\<lambda>l. pairSide l = 0 \<and> 0 < sint (qtyE8 l)) (sn_levels s)) \<and>
   asks (applySnapshot b s) =
     sticky Map.empty (filter (\<lambda>l. pairSide l \<noteq> 0 \<and> 0 < sint (qtyE8 l)) (sn_levels s)) \<and>
   lastTsNs (applyDelta b d) = dr_tsNs d \<and> lastTsNs (applySnapshot b s) = sn_tsNs s"
  by (simp only: applyDelta_maps applySnapshot_maps) (simp add: applyDelta_def applySnapshot_def)


definition sampleBook :: BookState where
  "sampleBook = initialBook\<lparr>bids := [99 \<mapsto> 3, 100 \<mapsto> 5], asks := [101 \<mapsto> 7, 102 \<mapsto> 1]\<rparr>"



text \<open>C23: the filtered levels are the positive quantities inside the price window in the order of
  the side, cut after the requested number of candidates. A bound of zero or less is no bound,
  and a limit of zero no limit.\<close>

theorem filtered_levels_correct:
  assumes "visits_once iter" and "finite (dom (bids b))" and "finite (dom (asks b))"
    and "is_view (window lo hi (bids b)) True v" and "is_view (window lo hi (asks b)) False w"
  shows "filteredBids iter b lo hi n = (if 0 < n then take n v else v) \<and>
    filteredAsks iter b lo hi n = (if 0 < n then take n w else w)"
  using assms by (simp add: filteredBids_def filteredAsks_def filteredLevels_view)

theorem filtered_levels_correct_witness:
  "filteredBids ascending_iter sampleBook 100 0 1 = [(100, 5)] \<and>
   filteredAsks ascending_iter sampleBook 100 0 1 = [(101, 7)]"
proof -
  have fin: "finite (dom (bids sampleBook))" "finite (dom (asks sampleBook))"
    by (simp_all add: sampleBook_def)
  have "is_view (window 100 0 (bids sampleBook)) True [(100, 5)]"
    "is_view (window 100 0 (asks sampleBook)) False [(101, 7), (102, 1)]"
    by (auto simp: is_view_def window_def inWindow_def sampleBook_def fun_eq_iff)
  from filtered_levels_correct [OF visits_once_ascending fin this, of 1] show ?thesis by simp
qed

end
