(* ===== verification/SpscRing.thy ===== *)
theory SpscRing
  imports Prelude
begin

text \<open>
  The single-producer single-consumer ring of \<^verbatim>\<open>Capture/Session/Stream/SpscRing.hpp\<close>, twice:
  as an object whose calls run one after the other, refined against a bounded queue, and as a
  transition system in which the producer's and the consumer's loads and stores interleave.

  The template's \<open>Capacity\<close> is \<open>2 ^ k\<close>, as its static assertions require. The indices stay
  below the capacity, so they are natural numbers; only \<open>approxSize\<close> subtracts them as
  \<^verbatim>\<open>size_t\<close>. The loads and stores of the indices are sequentially consistent here. The code
  uses acquire and release, which order the slot accesses as the program order below does.
\<close>

section \<open>The object\<close>

record 'a ring =
  head :: nat
  tail :: nat
  slots :: "'a list"

definition kMask :: "nat \<Rightarrow> nat" where
  "kMask k = 2 ^ k - 1"

definition ring_init :: "nat \<Rightarrow> 'a \<Rightarrow> 'a ring" where
  "ring_init k x = \<lparr>head = 0, tail = 0, slots = replicate (2 ^ k) x\<rparr>"

definition tryPush :: "nat \<Rightarrow> 'a ring \<Rightarrow> 'a \<Rightarrow> bool \<times> 'a ring" where
  "tryPush k r value =
     (let h = head r; next = (h + 1) AND kMask k in
      if next = tail r then (False, r)
      else (True, r\<lparr>slots := (slots r)[h := value], head := next\<rparr>))"

definition tryPop :: "nat \<Rightarrow> 'a ring \<Rightarrow> 'a option \<times> 'a ring" where
  "tryPop k r =
     (let t = tail r in
      if t = head r then (None, r)
      else (Some (slots r ! t), r\<lparr>tail := (t + 1) AND kMask k\<rparr>))"

definition approxSize :: "nat \<Rightarrow> 'a ring \<Rightarrow> u64" where
  "approxSize k r = (word_of_nat (head r) - word_of_nat (tail r)) AND word_of_nat (kMask k)"

section \<open>Index arithmetic\<close>

definition occupancy :: "nat \<Rightarrow> nat \<Rightarrow> nat \<Rightarrow> nat" where
  "occupancy k h t = (h + 2 ^ k - t) mod 2 ^ k"

lemma and_kMask: "n AND kMask k = n mod 2 ^ k"
  by (metis kMask_def mask_eq_exp_minus_1 take_bit_eq_mask take_bit_eq_mod)

lemma occupancy_cases:
  "h < 2 ^ k \<Longrightarrow> t < 2 ^ k \<Longrightarrow> occupancy k h t = (if t \<le> h then h - t else h + 2 ^ k - t)"
  by (simp add: occupancy_def mod_if)

lemma occupancy_zero: "h < 2 ^ k \<Longrightarrow> t < 2 ^ k \<Longrightarrow> occupancy k h t = 0 \<longleftrightarrow> t = h"
  by (auto simp: occupancy_cases)

lemma occupancy_full:
  "h < 2 ^ k \<Longrightarrow> t < 2 ^ k \<Longrightarrow> (h + 1) mod 2 ^ k = t \<longleftrightarrow> occupancy k h t = 2 ^ k - 1"
  by (auto simp: occupancy_cases mod_if)

lemma occupancy_less: "occupancy k h t < 2 ^ k"
  by (simp add: occupancy_def)

lemma occupancy_push:
  "h < 2 ^ k \<Longrightarrow> t < 2 ^ k \<Longrightarrow> (h + 1) mod 2 ^ k \<noteq> t \<Longrightarrow>
     occupancy k ((h + 1) mod 2 ^ k) t = occupancy k h t + 1"
  by (auto simp: occupancy_cases mod_if split: if_splits)

lemma occupancy_pop:
  "h < 2 ^ k \<Longrightarrow> t < 2 ^ k \<Longrightarrow> t \<noteq> h \<Longrightarrow>
     occupancy k h ((t + 1) mod 2 ^ k) = occupancy k h t - 1"
  by (auto simp: occupancy_cases mod_if split: if_splits)

lemma index_of_head:
  "h < 2 ^ k \<Longrightarrow> t < 2 ^ k \<Longrightarrow> (t + occupancy k h t) mod 2 ^ k = h"
  by (auto simp: occupancy_cases)

lemma index_inj:
  assumes "(t + i) mod m = (t + j) mod m" and "i < m" and "j < (m :: nat)"
  shows "i = j"
proof -
  have le: "a = b" if "a \<le> b" "b < m" "(t + a) mod m = (t + b) mod m" for a b
  proof -
    have "m dvd (t + b) - (t + a)" using that mod_eq_dvd_iff_nat [of "t + a" "t + b" m] by simp
    then have "m dvd b - a" by simp
    then show ?thesis using that nat_dvd_not_less [of "b - a" m] by (cases "b - a = 0") auto
  qed
  show ?thesis using le [of i j] le [of j i] assms by (cases "i \<le> j") auto
qed

section \<open>Contents\<close>

definition contents :: "nat \<Rightarrow> 'a ring \<Rightarrow> 'a list" where
  "contents k r = map (\<lambda>i. slots r ! ((tail r + i) mod 2 ^ k)) [0..<occupancy k (head r) (tail r)]"

definition ring_wf :: "nat \<Rightarrow> 'a ring \<Rightarrow> bool" where
  "ring_wf k r \<longleftrightarrow> 1 \<le> k \<and> head r < 2 ^ k \<and> tail r < 2 ^ k \<and> length (slots r) = 2 ^ k"

lemma length_contents: "length (contents k r) = occupancy k (head r) (tail r)"
  by (simp add: contents_def)

lemma contents_bound: "length (contents k r) \<le> 2 ^ k - 1"
  using occupancy_less [of k "head r" "tail r"] by (simp add: length_contents)

lemma slots_outside:
  assumes "ring_wf k r" and "i < occupancy k (head r) (tail r)"
  shows "(tail r + i) mod 2 ^ k \<noteq> head r"
proof
  assume "(tail r + i) mod 2 ^ k = head r"
  then have "(tail r + i) mod 2 ^ k = (tail r + occupancy k (head r) (tail r)) mod 2 ^ k"
    using index_of_head [of "head r" k "tail r"] assms(1) by (simp add: ring_wf_def)
  then have "i = occupancy k (head r) (tail r)"
    using assms(2) occupancy_less [of k "head r" "tail r"] by (intro index_inj [of "tail r" i]) simp_all
  then show False using assms(2) by simp
qed

text \<open>Writing the slot at \<open>head\<close> leaves the published contents alone.\<close>

lemma contents_write:
  assumes "ring_wf k r"
  shows "contents k (r\<lparr>slots := (slots r)[head r := v]\<rparr>) = contents k r"
proof -
  have "(slots r)[head r := v] ! ((tail r + i) mod 2 ^ k) = slots r ! ((tail r + i) mod 2 ^ k)"
    if "i < occupancy k (head r) (tail r)" for i
    using slots_outside [OF assms that] by simp
  then show ?thesis by (simp add: contents_def)
qed

text \<open>Publishing it appends its value; releasing the slot at \<open>tail\<close> drops the first one.\<close>

lemma contents_publish:
  assumes "ring_wf k r" and "(head r + 1) mod 2 ^ k \<noteq> tail r"
  shows "contents k (r\<lparr>head := (head r + 1) mod 2 ^ k\<rparr>) = contents k r @ [slots r ! head r]"
proof -
  have "occupancy k ((head r + 1) mod 2 ^ k) (tail r) = Suc (occupancy k (head r) (tail r))"
    using assms occupancy_push [of "head r" k "tail r"] by (simp add: ring_wf_def)
  then show ?thesis using assms index_of_head [of "head r" k "tail r"]
    by (simp add: contents_def ring_wf_def)
qed

lemma contents_release:
  assumes "ring_wf k r" and "tail r \<noteq> head r"
  shows "contents k r = slots r ! tail r # contents k (r\<lparr>tail := (tail r + 1) mod 2 ^ k\<rparr>)"
proof -
  let ?n = "occupancy k (head r) (tail r)"
  have pos: "0 < ?n" using assms occupancy_zero [of "head r" k "tail r"] by (auto simp: ring_wf_def)
  have n': "occupancy k (head r) ((tail r + 1) mod 2 ^ k) = ?n - 1"
    using assms occupancy_pop [of "head r" k "tail r"] by (simp add: ring_wf_def)
  have "[0..<?n] = 0 # map Suc [0..<?n - 1]"
    using pos by (simp add: upt_conv_Cons map_Suc_upt)
  moreover have "((tail r + 1) mod 2 ^ k + i) mod 2 ^ k = (tail r + Suc i) mod 2 ^ k" for i
    by (simp add: mod_simps)
  ultimately show ?thesis using assms n' by (simp add: contents_def ring_wf_def mod_simps)
qed

section \<open>Refinement to a bounded queue\<close>

datatype 'a queue_op = Push 'a | Pop

text \<open>A run of calls: the values accepted, the values delivered, the state at the end.\<close>

fun run_queue :: "('s \<Rightarrow> 'a \<Rightarrow> bool \<times> 's) \<Rightarrow> ('s \<Rightarrow> 'a option \<times> 's) \<Rightarrow> 's \<Rightarrow> 'a queue_op list \<Rightarrow>
    'a list \<times> 'a list \<times> 's" where
  "run_queue push pop s [] = ([], [], s)"
| "run_queue push pop s (Push x # ops) = (case push s x of (ok, s') \<Rightarrow>
     case run_queue push pop s' ops of (pushed, popped, s'') \<Rightarrow>
       (if ok then x # pushed else pushed, popped, s''))"
| "run_queue push pop s (Pop # ops) = (case pop s of (v, s') \<Rightarrow>
     case run_queue push pop s' ops of (pushed, popped, s'') \<Rightarrow>
       (pushed, case v of Some x \<Rightarrow> x # popped | None \<Rightarrow> popped, s''))"

locale bounded_queue =
  fixes inv :: "'s \<Rightarrow> bool" and abs :: "'s \<Rightarrow> 'a list" and cap :: nat
    and push :: "'s \<Rightarrow> 'a \<Rightarrow> bool \<times> 's" and pop :: "'s \<Rightarrow> 'a option \<times> 's"
  assumes push_spec: "inv s \<Longrightarrow> push s x = (ok, s') \<Longrightarrow>
      inv s' \<and> ok = (length (abs s) < cap) \<and> abs s' = (if ok then abs s @ [x] else abs s)"
    and pop_spec: "inv s \<Longrightarrow> pop s = (v, s') \<Longrightarrow>
      inv s' \<and> v = (case abs s of [] \<Rightarrow> None | y # ys \<Rightarrow> Some y) \<and> abs s' = tl (abs s)"
    and abs_bound: "inv s \<Longrightarrow> length (abs s) \<le> cap"
begin

lemma queue_fifo:
  "inv s \<Longrightarrow> run_queue push pop s ops = (pushed, popped, s') \<Longrightarrow>
     inv s' \<and> abs s @ pushed = popped @ abs s'"
proof (induction ops arbitrary: s pushed popped s')
  case Nil
  then show ?case by simp
next
  case (Cons op ops)
  show ?case
  proof (cases op)
    case (Push x)
    obtain ok s1 where p: "push s x = (ok, s1)" by fastforce
    obtain a b s2 where r: "run_queue push pop s1 ops = (a, b, s2)" by (metis prod_cases3)
    show ?thesis using Cons.prems Cons.IH [OF _ r] push_spec [OF Cons.prems(1) p] p r Push
      by (auto split: if_splits)
  next
    case Pop
    obtain v s1 where p: "pop s = (v, s1)" by fastforce
    obtain a b s2 where r: "run_queue push pop s1 ops = (a, b, s2)" by (metis prod_cases3)
    show ?thesis using Cons.prems Cons.IH [OF _ r] pop_spec [OF Cons.prems(1) p] p r Pop
      by (auto split: list.splits)
  qed
qed

text \<open>Nothing is lost: draining delivers what the queue holds, in order.\<close>

lemma queue_drain:
  "inv s \<Longrightarrow> \<exists>s'. run_queue push pop s (replicate (length (abs s)) Pop) = ([], abs s, s') \<and> abs s' = []"
proof (induction "length (abs s)" arbitrary: s)
  case 0
  then show ?case by simp
next
  case (Suc n)
  obtain y ys where y: "abs s = y # ys" using Suc.hyps(2) by (cases "abs s") auto
  obtain v s1 where p: "pop s = (v, s1)" by fastforce
  then have s1: "inv s1" "v = Some y" "abs s1 = ys" using pop_spec [OF Suc.prems p] y by auto
  then obtain s' where "run_queue push pop s1 (replicate (length (abs s1)) Pop) = ([], abs s1, s')" "abs s' = []"
    using Suc.hyps y by auto
  then show ?case using p s1 y by auto
qed

end

lemma tryPush_spec:
  assumes "ring_wf k r" and "tryPush k r x = (ok, r')"
  shows "ring_wf k r' \<and> ok = (length (contents k r) < 2 ^ k - 1) \<and>
    contents k r' = (if ok then contents k r @ [x] else contents k r)"
proof (cases "(head r + 1) mod 2 ^ k = tail r")
  case True
  then have "occupancy k (head r) (tail r) = 2 ^ k - 1"
    using assms(1) occupancy_full [of "head r" k "tail r"] by (simp add: ring_wf_def)
  then show ?thesis using assms True by (auto simp: tryPush_def and_kMask length_contents Let_def)
next
  case False
  let ?r = "r\<lparr>slots := (slots r)[head r := x]\<rparr>"
  have "occupancy k (head r) (tail r) \<noteq> 2 ^ k - 1"
    using False assms(1) occupancy_full [of "head r" k "tail r"] by (simp add: ring_wf_def)
  then have room: "length (contents k r) < 2 ^ k - 1"
    using contents_bound [of k r] by (simp add: length_contents)
  have r': "r' = ?r\<lparr>head := (head ?r + 1) mod 2 ^ k\<rparr>" "ok"
    using assms(2) False by (auto simp: tryPush_def and_kMask Let_def)
  have wf: "ring_wf k ?r" using assms(1) by (simp add: ring_wf_def)
  have "contents k r' = contents k r @ [x]"
    using contents_publish [OF wf] contents_write [OF assms(1)] False assms(1)
    by (simp add: r' ring_wf_def)
  then show ?thesis using r' room assms(1) by (simp add: ring_wf_def)
qed

lemma tryPop_spec:
  assumes "ring_wf k r" and "tryPop k r = (v, r')"
  shows "ring_wf k r' \<and> v = (case contents k r of [] \<Rightarrow> None | y # ys \<Rightarrow> Some y) \<and>
    contents k r' = tl (contents k r)"
proof (cases "tail r = head r")
  case True
  then have "contents k r = []" using assms(1) by (simp add: contents_def occupancy_def)
  then show ?thesis using assms True by (simp add: tryPop_def Let_def)
next
  case False
  then have "v = Some (slots r ! tail r)" "r' = r\<lparr>tail := (tail r + 1) mod 2 ^ k\<rparr>"
    using assms(2) by (auto simp: tryPop_def and_kMask Let_def)
  then show ?thesis using contents_release [OF assms(1) False] assms(1) by (simp add: ring_wf_def)
qed

interpretation spsc: bounded_queue "ring_wf k" "contents k" "2 ^ k - 1" "tryPush k" "tryPop k" for k
  by unfold_locales (erule (1) tryPush_spec tryPop_spec | rule contents_bound)+

lemma approxSize_exact:
  assumes "ring_wf k r" and "k < 64"
  shows "unat (approxSize k r) = length (contents k r)"
proof -
  let ?h = "head r" and ?t = "tail r"
  have lt: "?h < 2 ^ k" "?t < 2 ^ k" using assms(1) by (simp_all add: ring_wf_def)
  have "(word_of_nat (kMask k) :: u64) = mask k"
    by (simp add: kMask_def mask_eq_exp_minus_1 of_nat_diff)
  then have "approxSize k r = take_bit k (word_of_nat ?h - word_of_nat ?t)"
    by (simp add: approxSize_def take_bit_eq_mask)
  also have "\<dots> = take_bit k (word_of_int (int ?h - int ?t))" by simp
  finally have "uint (approxSize k r) = take_bit k (take_bit 64 (int ?h - int ?t))"
    by (simp only: unsigned_take_bit_eq unsigned_of_int len_num1 len_bit0) simp
  also have "\<dots> = take_bit k (int ?h - int ?t)" using assms(2) by (simp only: take_bit_take_bit)
  also have "\<dots> = (int ?h - int ?t + 2 ^ k) mod 2 ^ k" by (simp add: take_bit_eq_mod)
  also have "\<dots> = int (occupancy k ?h ?t)"
  proof -
    have "int (?h + 2 ^ k - ?t) = int ?h - int ?t + 2 ^ k" using lt by (simp add: of_nat_diff)
    then show ?thesis by (simp only: occupancy_def zmod_int of_nat_power of_nat_numeral)
  qed
  finally show ?thesis by (simp add: length_contents flip: nat_uint_eq)
qed

section \<open>Interleaved producer and consumer\<close>

text \<open>The program points of a call: what the producer or the consumer has done so far and the
  local variables it still needs. The histories record the completed pushes and pops.\<close>

datatype 'a producer = PIdle | PHead 'a nat | PFree 'a nat | PWritten 'a nat
datatype 'a consumer = CIdle | CTail nat | CFull nat | CRead nat 'a

record 'a system =
  sring :: "'a ring"
  prod :: "'a producer"
  cons :: "'a consumer"
  pushed :: "'a list"
  popped :: "'a list"

inductive spsc_step :: "nat \<Rightarrow> 'a system \<Rightarrow> 'a system \<Rightarrow> bool" for k where
  load_head: "prod s = PIdle \<Longrightarrow> spsc_step k s (s\<lparr>prod := PHead v (head (sring s))\<rparr>)"
| push_full: "prod s = PHead v h \<Longrightarrow> (h + 1) AND kMask k = tail (sring s) \<Longrightarrow>
    spsc_step k s (s\<lparr>prod := PIdle\<rparr>)"
| push_free: "prod s = PHead v h \<Longrightarrow> (h + 1) AND kMask k \<noteq> tail (sring s) \<Longrightarrow>
    spsc_step k s (s\<lparr>prod := PFree v h\<rparr>)"
| write_slot: "prod s = PFree v h \<Longrightarrow>
    spsc_step k s (s\<lparr>prod := PWritten v h, sring := (sring s)\<lparr>slots := (slots (sring s))[h := v]\<rparr>\<rparr>)"
| store_head: "prod s = PWritten v h \<Longrightarrow>
    spsc_step k s (s\<lparr>prod := PIdle, sring := (sring s)\<lparr>head := (h + 1) AND kMask k\<rparr>,
      pushed := pushed s @ [v]\<rparr>)"
| load_tail: "cons s = CIdle \<Longrightarrow> spsc_step k s (s\<lparr>cons := CTail (tail (sring s))\<rparr>)"
| pop_empty: "cons s = CTail t \<Longrightarrow> t = head (sring s) \<Longrightarrow> spsc_step k s (s\<lparr>cons := CIdle\<rparr>)"
| pop_full: "cons s = CTail t \<Longrightarrow> t \<noteq> head (sring s) \<Longrightarrow> spsc_step k s (s\<lparr>cons := CFull t\<rparr>)"
| read_slot: "cons s = CFull t \<Longrightarrow> spsc_step k s (s\<lparr>cons := CRead t (slots (sring s) ! t)\<rparr>)"
| store_tail: "cons s = CRead t v \<Longrightarrow>
    spsc_step k s (s\<lparr>cons := CIdle, sring := (sring s)\<lparr>tail := (t + 1) AND kMask k\<rparr>,
      popped := popped s @ [v]\<rparr>)"

definition system_init :: "nat \<Rightarrow> 'a \<Rightarrow> 'a system" where
  "system_init k x = \<lparr>sring = ring_init k x, prod = PIdle, cons = CIdle, pushed = [], popped = []\<rparr>"

definition prod_inv :: "nat \<Rightarrow> 'a system \<Rightarrow> bool" where
  "prod_inv k s = (case prod s of PIdle \<Rightarrow> True
     | PHead v h \<Rightarrow> h = head (sring s)
     | PFree v h \<Rightarrow> h = head (sring s) \<and> length (contents k (sring s)) < 2 ^ k - 1
     | PWritten v h \<Rightarrow> h = head (sring s) \<and> length (contents k (sring s)) < 2 ^ k - 1 \<and>
         slots (sring s) ! h = v)"

definition cons_inv :: "nat \<Rightarrow> 'a system \<Rightarrow> bool" where
  "cons_inv k s = (case cons s of CIdle \<Rightarrow> True
     | CTail t \<Rightarrow> t = tail (sring s)
     | CFull t \<Rightarrow> t = tail (sring s) \<and> t \<noteq> head (sring s)
     | CRead t v \<Rightarrow> t = tail (sring s) \<and> t \<noteq> head (sring s) \<and> v = slots (sring s) ! t)"

definition system_inv :: "nat \<Rightarrow> 'a system \<Rightarrow> bool" where
  "system_inv k s \<longleftrightarrow> ring_wf k (sring s) \<and> prod_inv k s \<and> cons_inv k s \<and>
     popped s @ contents k (sring s) = pushed s"

lemmas system_defs = system_inv_def prod_inv_def cons_inv_def

lemma system_inv_init: "1 \<le> k \<Longrightarrow> system_inv k (system_init k x)"
  by (simp add: system_defs system_init_def ring_init_def ring_wf_def contents_def occupancy_def)

lemma full_iff_length:
  "ring_wf k r \<Longrightarrow> (head r + 1) mod 2 ^ k = tail r \<longleftrightarrow> \<not> length (contents k r) < 2 ^ k - 1"
  using occupancy_full [of "head r" k "tail r"] occupancy_less [of k "head r" "tail r"]
  by (auto simp: ring_wf_def length_contents)

lemma system_inv_step: "spsc_step k s s' \<Longrightarrow> system_inv k s \<Longrightarrow> system_inv k s'"
proof (induction rule: spsc_step.induct)
  case (write_slot s v h)
  let ?r = "sring s"
  have wf: "ring_wf k ?r" and h: "h = head ?r" and room: "length (contents k ?r) < 2 ^ k - 1"
    using write_slot by (simp_all add: system_defs)
  have wf': "ring_wf k (?r\<lparr>slots := (slots ?r)[head ?r := v]\<rparr>)" and "(slots ?r)[head ?r := v] ! head ?r = v"
    using wf by (simp_all add: ring_wf_def)
  moreover have "t \<noteq> head ?r \<Longrightarrow> (slots ?r)[head ?r := v] ! t = slots ?r ! t" for t by simp
  ultimately show ?case using write_slot.prems room contents_write [OF wf, of v] h
    by (auto simp: system_defs split: consumer.splits)
next
  case (store_head s v h)
  let ?r = "sring s"
  have wf: "ring_wf k ?r" and h: "h = head ?r" and v: "slots ?r ! head ?r = v"
    and room: "length (contents k ?r) < 2 ^ k - 1"
    using store_head by (auto simp: system_defs)
  have free: "(head ?r + 1) mod 2 ^ k \<noteq> tail ?r" using full_iff_length [OF wf] room by simp
  have "ring_wf k (?r\<lparr>head := (head ?r + 1) mod 2 ^ k\<rparr>)" using wf by (simp add: ring_wf_def)
  then show ?case using store_head.prems contents_publish [OF wf free] free h v
    by (auto simp: system_defs and_kMask split: consumer.splits)
next
  case (store_tail s t v)
  let ?r = "sring s"
  have wf: "ring_wf k ?r" and t: "t = tail ?r" "tail ?r \<noteq> head ?r" and v: "v = slots ?r ! tail ?r"
    using store_tail by (auto simp: system_defs)
  have "ring_wf k (?r\<lparr>tail := (tail ?r + 1) mod 2 ^ k\<rparr>)" using wf by (simp add: ring_wf_def)
  then show ?case using store_tail.prems contents_release [OF wf t(2)] t v
    by (auto simp: system_defs and_kMask split: producer.splits)
qed (auto simp: system_defs and_kMask full_iff_length [simplified] split: producer.splits consumer.splits)

lemma system_inv_reachable:
  assumes "(spsc_step k)\<^sup>*\<^sup>* (system_init k x) s" and "1 \<le> k"
  shows "system_inv k s"
  using assms(1) by (induction rule: rtranclp_induct) (blast intro: system_inv_init assms(2) system_inv_step)+

text \<open>A slot is never written while the consumer may be reading it.\<close>

definition slot_conflict :: "'a system \<Rightarrow> bool" where
  "slot_conflict s = (case (prod s, cons s) of (PFree v h, CFull t) \<Rightarrow> h = t | _ \<Rightarrow> False)"

section \<open>Properties\<close>

text \<open>C24: called one after the other, \<open>tryPush\<close> and \<open>tryPop\<close> are a queue of capacity
  \<open>2 ^ k - 1\<close>: a push is refused exactly when the ring is full, a pop exactly when it is empty,
  and over any run the values delivered followed by those still held are those held at the
  start followed by those accepted. \<open>approxSize\<close> is then exact.\<close>

theorem spsc_sequential_fifo:
  assumes "ring_wf k r" and "k < 64" and "run_queue (tryPush k) (tryPop k) r ops = (acc, del, r')"
  shows "ring_wf k r' \<and> contents k r @ acc = del @ contents k r' \<and>
    (fst (tryPush k r x) \<longleftrightarrow> length (contents k r) < 2 ^ k - 1) \<and>
    (fst (tryPop k r) = None \<longleftrightarrow> contents k r = []) \<and>
    unat (approxSize k r) = length (contents k r)"
proof -
  have "fst (tryPop k r) = None \<longleftrightarrow> contents k r = []"
    using tryPop_spec [OF assms(1), of "fst (tryPop k r)" "snd (tryPop k r)"] by (auto split: list.splits)
  then show ?thesis
    using spsc.queue_fifo [OF assms(1,3)] approxSize_exact [OF assms(1,2)]
      tryPush_spec [OF assms(1), of x "fst (tryPush k r x)" "snd (tryPush k r x)"] by simp
qed

theorem spsc_sequential_fifo_witness:
  "contents 1 (ring_init 1 (0 :: nat)) @ [7] = [7] @ contents 1 (\<lparr>head = 1, tail = 1, slots = [7, 0]\<rparr>)"
proof -
  have "ring_wf 1 (ring_init 1 (0 :: nat))" by (simp add: ring_wf_def ring_init_def)
  moreover have "run_queue (tryPush 1) (tryPop 1) (ring_init 1 0) [Push 7, Push 8, Pop] =
      ([7 :: nat], [7], \<lparr>head = 1, tail = 1, slots = [7, 0]\<rparr>)"
    by (simp add: ring_init_def tryPush_def tryPop_def and_kMask Let_def numeral_2_eq_2)
  ultimately show ?thesis
    using spsc_sequential_fifo [of 1 "ring_init 1 (0 :: nat)" "[Push 7, Push 8, Pop]" "[7]" "[7]"] by auto
qed

text \<open>C14: with the producer and the consumer interleaved at every load and store, the values
  popped are a prefix of the values pushed, in order; the rest is what the ring holds, never
  more than \<open>2 ^ k - 1\<close> values; and the slot being written is never the slot being read.\<close>

theorem spsc_concurrent_fifo:
  assumes "(spsc_step k)\<^sup>*\<^sup>* (system_init k x) s" and "1 \<le> k"
  shows "popped s @ contents k (sring s) = pushed s \<and> length (contents k (sring s)) \<le> 2 ^ k - 1 \<and>
    \<not> slot_conflict s"
  using system_inv_reachable [OF assms] contents_bound [of k "sring s"]
  by (auto simp: system_defs slot_conflict_def split: producer.splits consumer.splits)

theorem spsc_concurrent_fifo_witness:
  "popped (system_init 2 (0 :: nat)\<lparr>prod := PHead 5 0\<rparr>) @
     contents 2 (sring (system_init 2 (0 :: nat)\<lparr>prod := PHead 5 0\<rparr>)) = []"
proof -
  have "spsc_step 2 (system_init 2 0) (system_init 2 (0 :: nat)\<lparr>prod := PHead 5 0\<rparr>)"
    using load_head [of "system_init 2 (0 :: nat)" 2 5] by (simp add: system_init_def ring_init_def)
  then have reach: "(spsc_step 2)\<^sup>*\<^sup>* (system_init 2 0) (system_init 2 (0 :: nat)\<lparr>prod := PHead 5 0\<rparr>)" by blast
  show ?thesis using conjunct1 [OF spsc_concurrent_fifo [OF reach]] by (simp add: system_init_def)
qed

end
