(* ===== verification/CorpusFormat.thy ===== *)
theory CorpusFormat
  imports Prelude
begin

text \<open>
  The types of the binary market corpus, \<^verbatim>\<open>CorpusContract/BinaryMarketCorpusFormat.hpp\<close>:
  channels, flags, source descriptors, record headers and payloads, and the structs of the
  corpus files.

  Enumerations are kept as the bytes they are stored in: the code reads them from disk and
  checks their range. A record's payload is its 888 bytes; the payload structs are views of
  it (\<open>depthChunk_of\<close> and the like). The evidence block and a few constants come from the
  \<^verbatim>\<open>cxet\<close> library, which is not part of the sources: they are the fields of the parameter
  \<open>cxet\<close>. Structs with many members are built as record extensions, in member order.
\<close>

section \<open>Channels\<close>

definition chBookTicker :: u8 where "chBookTicker = 1"
definition chTrade :: u8 where "chTrade = 2"
definition chDepth :: u8 where "chDepth = 3"
definition chLiquidation :: u8 where "chLiquidation = 4"
definition chMarkPrice :: u8 where "chMarkPrice = 5"
definition chIndexPrice :: u8 where "chIndexPrice = 6"
definition chFunding :: u8 where "chFunding = 7"
definition chPriceLimit :: u8 where "chPriceLimit = 8"
definition chSourceLifecycle :: u8 where "chSourceLifecycle = 9"

lemmas channel_defs = chBookTicker_def chTrade_def chDepth_def chLiquidation_def chMarkPrice_def
  chIndexPrice_def chFunding_def chPriceLimit_def chSourceLifecycle_def

definition kBinaryMarketChannelCount :: nat where "kBinaryMarketChannelCount = 8"
definition kBinaryMarketStoredChannelCount :: nat where "kBinaryMarketStoredChannelCount = 9"
definition kBinaryMarketPayloadBytes :: nat where "kBinaryMarketPayloadBytes = 888"
definition kBinaryMarketDepthLevelsPerRecord :: nat where "kBinaryMarketDepthLevelsPerRecord = 32"
definition kBinaryMarketDepthCoveragePerRecord :: nat where "kBinaryMarketDepthCoveragePerRecord = 5"
definition kBinaryMarketBlockRecords :: nat where "kBinaryMarketBlockRecords = 256"
definition kBinaryMarketMaximumShards :: nat where "kBinaryMarketMaximumShards = 64"
definition kBinaryMarketMaximumSources :: nat where "kBinaryMarketMaximumSources = 65536"

definition kBinaryMarketManifestMagic :: u32 where "kBinaryMarketManifestMagic = 0x4d435248"
definition kBinaryMarketSourcesMagic :: u32 where "kBinaryMarketSourcesMagic = 0x53435248"
definition kBinaryMarketIndexMagic :: u32 where "kBinaryMarketIndexMagic = 0x49435248"
definition kBinaryMarketGapsMagic :: u32 where "kBinaryMarketGapsMagic = 0x47435248"
definition kBinaryMarketSegmentMagic :: u32 where "kBinaryMarketSegmentMagic = 0x53475248"
definition kBinaryMarketSegmentFooterMagic :: u32 where "kBinaryMarketSegmentFooterMagic = 0x46475248"
definition kBinaryMarketBlockMagic :: u32 where "kBinaryMarketBlockMagic = 0x42435248"

definition validBinaryMarketChannel :: "u8 \<Rightarrow> bool" where
  "validBinaryMarketChannel channel \<longleftrightarrow> chBookTicker \<le> channel \<and> channel \<le> chPriceLimit"

definition validBinaryMarketRecordChannel :: "u8 \<Rightarrow> bool" where
  "validBinaryMarketRecordChannel channel \<longleftrightarrow>
     validBinaryMarketChannel channel \<or> channel = chSourceLifecycle"

text \<open>The index of channel 0 wraps around, as \<^verbatim>\<open>size_t\<close> subtraction does.\<close>

definition binaryMarketChannelIndex :: "u8 \<Rightarrow> u64" where
  "binaryMarketChannelIndex channel = ucast channel - 1"

definition binaryMarketChannelBit :: "u8 \<Rightarrow> u16" where
  "binaryMarketChannelBit channel =
     (if validBinaryMarketChannel channel
      then push_bit (unat (binaryMarketChannelIndex channel)) 1 else 0)"

section \<open>Flags\<close>

text \<open>Instrument metadata flags.\<close>

definition InstrumentStepSize :: u32 where "InstrumentStepSize = 0x1"
definition InstrumentContractBaseQty :: u32 where "InstrumentContractBaseQty = 0x2"
definition InstrumentCanonicalStepSize :: u32 where "InstrumentCanonicalStepSize = 0x4"
definition InstrumentExecutionQuantityStep :: u32 where "InstrumentExecutionQuantityStep = 0x8"

text \<open>Directory flags.\<close>

definition DirectoryBookTicker :: u16 where "DirectoryBookTicker = 0x1"
definition DirectoryTrade :: u16 where "DirectoryTrade = 0x2"
definition DirectoryTickSize :: u16 where "DirectoryTickSize = 0x4"
definition DirectoryDepth :: u16 where "DirectoryDepth = 0x8"
definition DirectoryBboSpread :: u16 where "DirectoryBboSpread = 0x10"
definition DirectoryRanking :: u16 where "DirectoryRanking = 0x20"
definition DirectoryFundingEligible :: u16 where "DirectoryFundingEligible = 0x40"
definition DirectoryDelivery :: u16 where "DirectoryDelivery = 0x80"
definition DirectoryMarginEligibilityKnown :: u16 where "DirectoryMarginEligibilityKnown = 0x100"
definition DirectoryMarginEligible :: u16 where "DirectoryMarginEligible = 0x200"
definition DirectorySpotPostOnly :: u16 where "DirectorySpotPostOnly = 0x400"

text \<open>Record flags.\<close>

definition RecordTraderReplayCompatible :: u32 where "RecordTraderReplayCompatible = 0x1"
definition RecordBboFreshnessOnly :: u32 where "RecordBboFreshnessOnly = 0x2"
definition RecordDepthSnapshot :: u32 where "RecordDepthSnapshot = 0x4"
definition RecordDepthDelta :: u32 where "RecordDepthDelta = 0x8"
definition RecordDepthPartial :: u32 where "RecordDepthPartial = 0x10"
definition RecordDepthRebase :: u32 where "RecordDepthRebase = 0x20"
definition RecordExchangeTimestampMissing :: u32 where "RecordExchangeTimestampMissing = 0x40"
definition RecordGapBoundary :: u32 where "RecordGapBoundary = 0x80"
definition RecordRealtimeRegression :: u32 where "RecordRealtimeRegression = 0x100"
definition RecordMonotonicNonIncreasing :: u32 where "RecordMonotonicNonIncreasing = 0x200"
definition RecordExchangeAheadOfReceive :: u32 where "RecordExchangeAheadOfReceive = 0x400"
definition RecordDepthState :: u32 where "RecordDepthState = 0x800"
definition RecordSourceLifecycle :: u32 where "RecordSourceLifecycle = 0x1000"
definition RecordDepthCoverage :: u32 where "RecordDepthCoverage = 0x2000"
definition RecordDepthHasCoverage :: u32 where "RecordDepthHasCoverage = 0x4000"
definition RecordDepthTransactionEnd :: u32 where "RecordDepthTransactionEnd = 0x8000"
definition RecordDepthSourcePosition :: u32 where "RecordDepthSourcePosition = 0x10000"

text \<open>Source flags.\<close>

definition SourceStale :: u16 where "SourceStale = 0x1"
definition SourceDegraded :: u16 where "SourceDegraded = 0x2"
definition SourceSequenceGap :: u16 where "SourceSequenceGap = 0x4"
definition SourceExchangeTimestampMissing :: u16 where "SourceExchangeTimestampMissing = 0x8"
definition SourceBookTickerBidPresent :: u16 where "SourceBookTickerBidPresent = 0x10"
definition SourceBookTickerAskPresent :: u16 where "SourceBookTickerAskPresent = 0x20"

definition kBinaryMarketInstrumentMetadataFlags :: u32 where
  "kBinaryMarketInstrumentMetadataFlags = InstrumentStepSize OR
     InstrumentContractBaseQty OR
     InstrumentCanonicalStepSize OR
     InstrumentExecutionQuantityStep"

definition kBinaryMarketKnownDirectoryFlags :: u16 where
  "kBinaryMarketKnownDirectoryFlags = DirectoryBookTicker OR
     DirectoryTrade OR
     DirectoryTickSize OR
     DirectoryDepth OR
     DirectoryBboSpread OR
     DirectoryRanking OR
     DirectoryFundingEligible OR
     DirectoryDelivery OR
     DirectoryMarginEligibilityKnown OR
     DirectoryMarginEligible OR
     DirectorySpotPostOnly"

definition kBinaryMarketKnownRecordFlags :: u32 where
  "kBinaryMarketKnownRecordFlags = RecordTraderReplayCompatible OR
     RecordBboFreshnessOnly OR
     RecordDepthSnapshot OR
     RecordDepthDelta OR
     RecordDepthPartial OR
     RecordDepthRebase OR
     RecordExchangeTimestampMissing OR
     RecordGapBoundary OR
     RecordRealtimeRegression OR
     RecordMonotonicNonIncreasing OR
     RecordExchangeAheadOfReceive OR
     RecordDepthState OR
     RecordSourceLifecycle OR
     RecordDepthCoverage OR
     RecordDepthHasCoverage OR
     RecordDepthTransactionEnd OR
     RecordDepthSourcePosition"

definition kBinaryMarketKnownSourceFlags :: u16 where
  "kBinaryMarketKnownSourceFlags = SourceStale OR
     SourceDegraded OR
     SourceSequenceGap OR
     SourceExchangeTimestampMissing OR
     SourceBookTickerBidPresent OR
     SourceBookTickerAskPresent"

lemmas instrument_flag_defs = InstrumentStepSize_def
  InstrumentContractBaseQty_def
  InstrumentCanonicalStepSize_def
  InstrumentExecutionQuantityStep_def

lemmas directory_flag_defs = DirectoryBookTicker_def
  DirectoryTrade_def
  DirectoryTickSize_def
  DirectoryDepth_def
  DirectoryBboSpread_def
  DirectoryRanking_def
  DirectoryFundingEligible_def
  DirectoryDelivery_def
  DirectoryMarginEligibilityKnown_def
  DirectoryMarginEligible_def
  DirectorySpotPostOnly_def

lemmas record_flag_defs = RecordTraderReplayCompatible_def
  RecordBboFreshnessOnly_def
  RecordDepthSnapshot_def
  RecordDepthDelta_def
  RecordDepthPartial_def
  RecordDepthRebase_def
  RecordExchangeTimestampMissing_def
  RecordGapBoundary_def
  RecordRealtimeRegression_def
  RecordMonotonicNonIncreasing_def
  RecordExchangeAheadOfReceive_def
  RecordDepthState_def
  RecordSourceLifecycle_def
  RecordDepthCoverage_def
  RecordDepthHasCoverage_def
  RecordDepthTransactionEnd_def
  RecordDepthSourcePosition_def

lemmas source_flag_defs = SourceStale_def
  SourceDegraded_def
  SourceSequenceGap_def
  SourceExchangeTimestampMissing_def
  SourceBookTickerBidPresent_def
  SourceBookTickerAskPresent_def

section \<open>Sources\<close>

definition compatUnavailable :: u8 where "compatUnavailable = 0"
definition compatExactTraderReplay :: u8 where "compatExactTraderReplay = 1"
definition compatRecordedOnly :: u8 where "compatRecordedOnly = 2"

lemmas compat_defs = compatUnavailable_def compatExactTraderReplay_def compatRecordedOnly_def

definition kindUnknown :: u8 where "kindUnknown = 0"
definition kindNativeContract :: u8 where "kindNativeContract = 3"
definition kindNativeLot :: u8 where "kindNativeLot = 4"

record BinaryMarketQuantityConversion =
  qc_kinds :: bytes
  qc_reserved :: bytes
  qc_canonicalBaseMultiplier :: u32
  qc_nativeBaseMultiplier :: u32
  qc_nativeContractBaseQtyRaw :: i64
  qc_nativeLotBaseQtyRaw :: i64

record BinaryMarketSourceA =
  sourceId :: u32
  canonicalSymbolId :: u32
  initialSourceGeneration :: u64
  tickSizeRaw :: i64
  stepSizeRaw :: i64
  contractBaseQtyRaw :: i64
  canonicalStepSizeRaw :: i64
  executionQuantityStepRaw :: i64
  quantityConversion :: BinaryMarketQuantityConversion
  priceBasisQtyRaw :: i64

record BinaryMarketSourceB = BinaryMarketSourceA +
  economicBaseAssetId :: u32
  quoteAssetId :: u32
  venueId :: u16
  directoryFlags :: u16
  configuredChannelMask :: u16
  availableChannelMask :: u16
  traderReplayChannelMask :: u16
  instrumentMetadataFlags :: u32
  marketRaw :: u8
  marketKindRaw :: u8

record BinaryMarketSourceC = BinaryMarketSourceB +
  assetDomainRaw :: u8
  priceScale :: u8
  quantityScale :: u8
  venueBytes :: u8
  marketBytes :: u8
  canonicalSymbolBytes :: u8
  nativeSymbolBytes :: u8

record BinaryMarketSource = BinaryMarketSourceC +
  compatibility :: bytes
  initiallyPresent :: u8
  reserved :: bytes
  venue :: bytes
  market :: bytes
  canonicalSymbol :: bytes
  nativeSymbol :: bytes

text \<open>The arrays have the lengths their types fix.\<close>

definition source_wf :: "BinaryMarketSource \<Rightarrow> bool" where
  "source_wf s \<longleftrightarrow> length (qc_kinds (quantityConversion s)) = 3 \<and>
     length (qc_reserved (quantityConversion s)) = 5 \<and> length (compatibility s) = 8 \<and>
     length (reserved s) = 5 \<and> length (venue s) = 16 \<and> length (market s) = 16 \<and>
     length (canonicalSymbol s) = 48 \<and> length (nativeSymbol s) = 48"

definition all_zero :: "bytes \<Rightarrow> bool" where
  "all_zero bs \<longleftrightarrow> list_all (\<lambda>b. b = 0) bs"

definition validBinaryMarketQuantityConversion :: "BinaryMarketQuantityConversion \<Rightarrow> bool" where
  "validBinaryMarketQuantityConversion c =
     (if \<not> all_zero (qc_reserved c) \<or> sint (qc_nativeContractBaseQtyRaw c) < 0 \<or>
         sint (qc_nativeLotBaseQtyRaw c) < 0 then False
      else if list_ex (\<lambda>kind. 4 < kind) (qc_kinds c) then False
      else let known = list_ex (\<lambda>kind. kind \<noteq> kindUnknown) (qc_kinds c);
               contract = list_ex (\<lambda>kind. kind = kindNativeContract) (qc_kinds c);
               lot = list_ex (\<lambda>kind. kind = kindNativeLot) (qc_kinds c)
        in if \<not> known then qc_canonicalBaseMultiplier c = 0 \<and> qc_nativeBaseMultiplier c = 0 \<and>
             qc_nativeContractBaseQtyRaw c = 0 \<and> qc_nativeLotBaseQtyRaw c = 0
           else qc_canonicalBaseMultiplier c \<noteq> 0 \<and> qc_nativeBaseMultiplier c \<noteq> 0 \<and>
             (if contract then 0 < sint (qc_nativeContractBaseQtyRaw c)
              else qc_nativeContractBaseQtyRaw c = 0) \<and>
             (if lot then 0 < sint (qc_nativeLotBaseQtyRaw c) else qc_nativeLotBaseQtyRaw c = 0))"

definition validBinaryMarketCompatibility :: "u8 \<Rightarrow> bool" where
  "validBinaryMarketCompatibility v \<longleftrightarrow>
     v = compatUnavailable \<or> v = compatExactTraderReplay \<or> v = compatRecordedOnly"

definition validBinaryMarketText :: "bytes \<Rightarrow> u8 \<Rightarrow> bool" where
  "validBinaryMarketText text n =
     (if n = 0 \<or> length text < unat n then False else all_zero (drop (unat n) text))"

definition text_of :: "bytes \<Rightarrow> u8 \<Rightarrow> string" where
  "text_of text n = map (\<lambda>b. char_of (unat b)) (take (unat n) text)"

definition validBinaryMarketCode :: "u8 \<Rightarrow> bytes \<Rightarrow> u8 \<Rightarrow> bool" where
  "validBinaryMarketCode raw text n =
     (if \<not> validBinaryMarketText text n then False
      else let v = text_of text n in
        if raw = 1 then v = ''futures''
        else if raw = 2 then v = ''spot''
        else if raw = 3 then v = ''margin''
        else if raw = 4 then v = ''option''
        else if raw = 5 then v = ''inverse''
        else if raw = 6 then v = ''swap''
        else False)"

definition sourceScalarsInvalid :: "BinaryMarketSource \<Rightarrow> nat \<Rightarrow> bool" where
  "sourceScalarsInvalid source index \<longleftrightarrow>
     unat (sourceId source) \<noteq> index + 1 \<or> canonicalSymbolId source = 0 \<or>
     (initialSourceGeneration source = 0 \<and> initiallyPresent source \<noteq> 0) \<or> venueId source = 0 \<or>
     (marketKindRaw source \<noteq> 1 \<and> marketKindRaw source \<noteq> 2) \<or> 2 < assetDomainRaw source \<or>
     18 < priceScale source \<or> 18 < quantityScale source \<or>
     \<not> validBinaryMarketText (venue source) (venueBytes source) \<or>
     \<not> validBinaryMarketCode (marketRaw source) (market source) (marketBytes source) \<or>
     \<not> validBinaryMarketText (canonicalSymbol source) (canonicalSymbolBytes source) \<or>
     \<not> validBinaryMarketText (nativeSymbol source) (nativeSymbolBytes source) \<or>
     sint (tickSizeRaw source) < 0 \<or> sint (stepSizeRaw source) < 0 \<or>
     sint (contractBaseQtyRaw source) < 0 \<or> sint (priceBasisQtyRaw source) < 0 \<or>
     sint (canonicalStepSizeRaw source) < 0 \<or> sint (executionQuantityStepRaw source) < 0 \<or>
     \<not> validBinaryMarketQuantityConversion (quantityConversion source) \<or>
     economicBaseAssetId source = 0 \<or> quoteAssetId source = 0"

definition sourceFlagsInvalid :: "BinaryMarketSource \<Rightarrow> bool" where
  "sourceFlagsInvalid source \<longleftrightarrow>
     directoryFlags source AND NOT kBinaryMarketKnownDirectoryFlags \<noteq> 0 \<or>
     (directoryFlags source AND DirectoryTickSize \<noteq> 0) \<noteq> (0 < sint (tickSizeRaw source)) \<or>
     (directoryFlags source AND DirectoryMarginEligible \<noteq> 0 \<and>
      directoryFlags source AND DirectoryMarginEligibilityKnown = 0) \<or>
     instrumentMetadataFlags source AND NOT kBinaryMarketInstrumentMetadataFlags \<noteq> 0 \<or>
     (instrumentMetadataFlags source AND InstrumentCanonicalStepSize \<noteq> 0) \<noteq>
       (0 < sint (canonicalStepSizeRaw source)) \<or>
     (instrumentMetadataFlags source AND InstrumentExecutionQuantityStep \<noteq> 0) \<noteq>
       (0 < sint (executionQuantityStepRaw source)) \<or>
     (instrumentMetadataFlags source AND InstrumentStepSize \<noteq> 0) \<noteq> (0 < sint (stepSizeRaw source)) \<or>
     (instrumentMetadataFlags source AND InstrumentContractBaseQty \<noteq> 0) \<noteq>
       (0 < sint (contractBaseQtyRaw source)) \<or>
     configuredChannelMask source AND NOT 0x00ff \<noteq> 0 \<or>
     availableChannelMask source AND NOT (configuredChannelMask source) \<noteq> 0 \<or>
     traderReplayChannelMask source AND NOT (availableChannelMask source) \<noteq> 0 \<or>
     1 < initiallyPresent source \<or> \<not> all_zero (reserved source)"

definition directoryChannels :: "BinaryMarketSource \<Rightarrow> u16" where
  "directoryChannels source =
     (if directoryFlags source AND DirectoryBookTicker \<noteq> 0 then binaryMarketChannelBit chBookTicker else 0) OR
     (if directoryFlags source AND DirectoryTrade \<noteq> 0 then binaryMarketChannelBit chTrade else 0) OR
     (if directoryFlags source AND DirectoryDepth \<noteq> 0 then binaryMarketChannelBit chDepth else 0)"

definition directoryOwnedChannelMask :: u16 where
  "directoryOwnedChannelMask =
     binaryMarketChannelBit chBookTicker OR binaryMarketChannelBit chTrade OR binaryMarketChannelBit chDepth"

definition channelCompatibilityOk :: "BinaryMarketSource \<Rightarrow> nat \<Rightarrow> bool" where
  "channelCompatibilityOk source channel =
     (let bit = push_bit channel 1; c = compatibility source ! channel in
      if \<not> validBinaryMarketCompatibility c then False
      else if availableChannelMask source AND bit = 0 then c = compatUnavailable
      else if traderReplayChannelMask source AND bit \<noteq> 0 then c = compatExactTraderReplay
      else c = compatRecordedOnly)"

definition validBinaryMarketSource :: "BinaryMarketSource \<Rightarrow> nat \<Rightarrow> bool" where
  "validBinaryMarketSource source index =
     (if sourceScalarsInvalid source index \<or> sourceFlagsInvalid source then False
      else if configuredChannelMask source AND directoryOwnedChannelMask \<noteq> directoryChannels source then False
      else if list_ex (\<lambda>channel. qc_kinds (quantityConversion source) ! channel \<noteq> kindUnknown \<and>
          configuredChannelMask source AND push_bit channel 1 = 0) [0..<3] then False
      else list_all (channelCompatibilityOk source) [0..<kBinaryMarketChannelCount])"

section \<open>Source lifecycle\<close>

definition kindAdded :: u8 where "kindAdded = 1"
definition kindRemoved :: u8 where "kindRemoved = 2"
definition kindReadded :: u8 where "kindReadded = 3"
definition kindDirectoryChanged :: u8 where "kindDirectoryChanged = 4"

definition causeSubscription :: u8 where "causeSubscription = 0"
definition causeNativeStale :: u8 where "causeNativeStale = 1"
definition causeNativeDegraded :: u8 where "causeNativeDegraded = 2"
definition causeNativeSequenceGap :: u8 where "causeNativeSequenceGap = 3"
definition causeNativeRecovered :: u8 where "causeNativeRecovered = 4"
definition causeNativeClosed :: u8 where "causeNativeClosed = 5"

definition binaryMarketTransitionIsUnhealthy :: "u8 \<Rightarrow> bool" where
  "binaryMarketTransitionIsUnhealthy cause \<longleftrightarrow> cause = causeNativeStale \<or> cause = causeNativeDegraded \<or>
     cause = causeNativeSequenceGap \<or> cause = causeNativeClosed"

record BinaryMarketSourceLifecyclePayload =
  lp_directoryRevision :: u64
  lp_previousSourceGeneration :: u64
  lp_requestSequence :: u64
  lp_channelMaskBefore :: u16
  lp_channelMaskAfter :: u16
  lp_kind :: u8
  lp_affectedChannel :: u8
  lp_reason :: u8
  lp_cause :: u8
  lp_source :: BinaryMarketSource

end
