(* ===== verification/CorpusRecord.thy ===== *)
theory CorpusRecord
  imports CorpusFormat
begin

text \<open>
  Records of the binary market corpus: the header, the payload views and the predicates
  \<^verbatim>\<open>validBinaryMarketRecord\<close> is made of. An image is what the compiler lays out for the
  struct on the 64-bit target; padding is written as zero (the objects are value
  initialised) and ignored when an image is read.
\<close>

section \<open>Source images\<close>

definition sizeof_BinaryMarketSource :: nat where "sizeof_BinaryMarketSource = 272"

definition quantityConversion_image :: "BinaryMarketQuantityConversion \<Rightarrow> bytes" where
  "quantityConversion_image c = qc_kinds c @ qc_reserved c @
     field_put 4 (qc_canonicalBaseMultiplier c) @ field_put 4 (qc_nativeBaseMultiplier c) @
     field_put 8 (qc_nativeContractBaseQtyRaw c) @ field_put 8 (qc_nativeLotBaseQtyRaw c)"

definition quantityConversion_of :: "bytes \<Rightarrow> BinaryMarketQuantityConversion" where
  "quantityConversion_of bs = \<lparr>qc_kinds = slice 0 3 bs, qc_reserved = slice 3 5 bs,
     qc_canonicalBaseMultiplier = field_get 8 4 bs, qc_nativeBaseMultiplier = field_get 12 4 bs,
     qc_nativeContractBaseQtyRaw = field_get 16 8 bs, qc_nativeLotBaseQtyRaw = field_get 24 8 bs\<rparr>"

definition source_image :: "BinaryMarketSource \<Rightarrow> bytes" where
  "source_image s = field_put 4 (sourceId s) @ field_put 4 (canonicalSymbolId s) @
     field_put 8 (initialSourceGeneration s) @ field_put 8 (tickSizeRaw s) @
     field_put 8 (stepSizeRaw s) @ field_put 8 (contractBaseQtyRaw s) @
     field_put 8 (canonicalStepSizeRaw s) @ field_put 8 (executionQuantityStepRaw s) @
     quantityConversion_image (quantityConversion s) @ field_put 8 (priceBasisQtyRaw s) @
     field_put 4 (economicBaseAssetId s) @ field_put 4 (quoteAssetId s) @
     field_put 2 (venueId s) @ field_put 2 (directoryFlags s) @
     field_put 2 (configuredChannelMask s) @ field_put 2 (availableChannelMask s) @
     field_put 2 (traderReplayChannelMask s) @ [0, 0] @ field_put 4 (instrumentMetadataFlags s) @
     [marketRaw s, marketKindRaw s, assetDomainRaw s, priceScale s, quantityScale s, venueBytes s,
      marketBytes s, canonicalSymbolBytes s, nativeSymbolBytes s] @
     compatibility s @ [initiallyPresent s] @ reserved s @ venue s @ market s @
     canonicalSymbol s @ nativeSymbol s @ [0]"

definition byte_at :: "nat \<Rightarrow> bytes \<Rightarrow> u8" where
  "byte_at off bs = field_get off 1 bs"

definition source_of :: "bytes \<Rightarrow> BinaryMarketSource" where
  "source_of bs = \<lparr>sourceId = field_get 0 4 bs, canonicalSymbolId = field_get 4 4 bs,
     initialSourceGeneration = field_get 8 8 bs, tickSizeRaw = field_get 16 8 bs,
     stepSizeRaw = field_get 24 8 bs, contractBaseQtyRaw = field_get 32 8 bs,
     canonicalStepSizeRaw = field_get 40 8 bs, executionQuantityStepRaw = field_get 48 8 bs,
     quantityConversion = quantityConversion_of (slice 56 32 bs), priceBasisQtyRaw = field_get 88 8 bs,
     economicBaseAssetId = field_get 96 4 bs, quoteAssetId = field_get 100 4 bs,
     venueId = field_get 104 2 bs, directoryFlags = field_get 106 2 bs,
     configuredChannelMask = field_get 108 2 bs, availableChannelMask = field_get 110 2 bs,
     traderReplayChannelMask = field_get 112 2 bs, instrumentMetadataFlags = field_get 116 4 bs,
     marketRaw = byte_at 120 bs, marketKindRaw = byte_at 121 bs, assetDomainRaw = byte_at 122 bs,
     priceScale = byte_at 123 bs, quantityScale = byte_at 124 bs, venueBytes = byte_at 125 bs,
     marketBytes = byte_at 126 bs, canonicalSymbolBytes = byte_at 127 bs,
     nativeSymbolBytes = byte_at 128 bs, compatibility = slice 129 8 bs,
     initiallyPresent = byte_at 137 bs, reserved = slice 138 5 bs, venue = slice 143 16 bs,
     market = slice 159 16 bs, canonicalSymbol = slice 175 48 bs, nativeSymbol = slice 223 48 bs\<rparr>"

definition lifecyclePayload_of :: "bytes \<Rightarrow> BinaryMarketSourceLifecyclePayload" where
  "lifecyclePayload_of bs = \<lparr>lp_directoryRevision = field_get 0 8 bs,
     lp_previousSourceGeneration = field_get 8 8 bs, lp_requestSequence = field_get 16 8 bs,
     lp_channelMaskBefore = field_get 24 2 bs, lp_channelMaskAfter = field_get 26 2 bs,
     lp_kind = byte_at 28 bs, lp_affectedChannel = byte_at 29 bs, lp_reason = byte_at 30 bs,
     lp_cause = byte_at 31 bs, lp_source = source_of (slice 32 272 bs)\<rparr>"

definition lifecyclePayload_image :: "BinaryMarketSourceLifecyclePayload \<Rightarrow> bytes" where
  "lifecyclePayload_image p = field_put 8 (lp_directoryRevision p) @
     field_put 8 (lp_previousSourceGeneration p) @ field_put 8 (lp_requestSequence p) @
     field_put 2 (lp_channelMaskBefore p) @ field_put 2 (lp_channelMaskAfter p) @
     [lp_kind p, lp_affectedChannel p, lp_reason p, lp_cause p] @ source_image (lp_source p)"

definition sizeof_LifecyclePayload :: nat where "sizeof_LifecyclePayload = 304"

lemma byte_at_skip [layout_simps]: "length a \<le> off \<Longrightarrow> byte_at off (a @ post) = byte_at (off - length a) post"
  by (simp add: byte_at_def field_get_skip)

lemma byte_at_Cons [layout_simps]:
  "byte_at 0 (b # bs) = b" "0 < off \<Longrightarrow> byte_at off (b # bs) = byte_at (off - 1) bs"
proof -
  show "byte_at 0 (b # bs) = b" by (simp add: byte_at_def field_get_def slice_def)
  assume "0 < off"
  then show "byte_at off (b # bs) = byte_at (off - 1) bs"
    by (cases off) (simp_all add: byte_at_def field_get_def slice_def)
qed

lemma slice_Cons [layout_simps]: "0 < off \<Longrightarrow> slice off k (b # bs) = slice (off - 1) k bs"
  by (cases off) (simp_all add: slice_def)

lemma field_get_Cons [layout_simps]: "0 < off \<Longrightarrow> field_get off k (b # bs) = field_get (off - 1) k bs"
  by (simp add: field_get_def slice_Cons)

lemma length_source_image: "source_wf s \<Longrightarrow> length (source_image s) = 272"
  by (simp add: source_wf_def source_image_def quantityConversion_image_def)

lemma source_of_image:
  assumes "source_wf s"
  shows "source_of (source_image s) = s"
proof -
  have q: "quantityConversion_of (quantityConversion_image (quantityConversion s)) = quantityConversion s"
    and ql: "length (quantityConversion_image (quantityConversion s)) = 32"
    using assms by (simp_all add: quantityConversion_of_def quantityConversion_image_def source_wf_def layout_simps)
  show ?thesis using assms q ql unfolding source_of_def source_image_def
    by (simp add: source_wf_def layout_simps)
qed

section \<open>Records\<close>

record BinaryMarketRecordHeaderA =
  rh_sourceId :: u32
  rh_flags :: u32
  rh_sourceGeneration :: u64
  rh_sessionEpoch :: u64
  rh_eventSequence :: u64
  rh_frameSequence :: u64
  rh_nativeIdentityFirst :: u64
  rh_nativeIdentitySecond :: u64
  rh_exchangeTimestampNs :: i64
  rh_receiveRealtimeNs :: i64

record BinaryMarketRecordHeader = BinaryMarketRecordHeaderA +
  rh_receiveMonotonicNs :: u64
  rh_shardSequence :: u64
  rh_payloadBytes :: u16
  rh_shardIndex :: u16
  rh_sourceFlags :: u16
  rh_channel :: u8
  rh_nativeIdentityShape :: u8
  rh_eventOrdinal :: u16
  rh_reserved :: u32

record BinaryMarketRecord =
  header :: BinaryMarketRecordHeader
  payload :: bytes

definition record_wf :: "BinaryMarketRecord \<Rightarrow> bool" where
  "record_wf r \<longleftrightarrow> length (payload r) = kBinaryMarketPayloadBytes"

definition sizeof_BinaryMarketRecord :: nat where "sizeof_BinaryMarketRecord = 1024"

definition recordHeader_image :: "BinaryMarketRecordHeader \<Rightarrow> bytes" where
  "recordHeader_image h = field_put 4 (rh_sourceId h) @ field_put 4 (rh_flags h) @
     field_put 8 (rh_sourceGeneration h) @ field_put 8 (rh_sessionEpoch h) @
     field_put 8 (rh_eventSequence h) @ field_put 8 (rh_frameSequence h) @
     field_put 8 (rh_nativeIdentityFirst h) @ field_put 8 (rh_nativeIdentitySecond h) @
     field_put 8 (rh_exchangeTimestampNs h) @ field_put 8 (rh_receiveRealtimeNs h) @
     field_put 8 (rh_receiveMonotonicNs h) @ field_put 8 (rh_shardSequence h) @
     field_put 2 (rh_payloadBytes h) @ field_put 2 (rh_shardIndex h) @
     field_put 2 (rh_sourceFlags h) @ [rh_channel h, rh_nativeIdentityShape h] @
     field_put 2 (rh_eventOrdinal h) @ [0, 0] @ field_put 4 (rh_reserved h)"

definition recordHeader_of :: "bytes \<Rightarrow> BinaryMarketRecordHeader" where
  "recordHeader_of bs = \<lparr>rh_sourceId = field_get 0 4 bs, rh_flags = field_get 4 4 bs,
     rh_sourceGeneration = field_get 8 8 bs, rh_sessionEpoch = field_get 16 8 bs,
     rh_eventSequence = field_get 24 8 bs, rh_frameSequence = field_get 32 8 bs,
     rh_nativeIdentityFirst = field_get 40 8 bs, rh_nativeIdentitySecond = field_get 48 8 bs,
     rh_exchangeTimestampNs = field_get 56 8 bs, rh_receiveRealtimeNs = field_get 64 8 bs,
     rh_receiveMonotonicNs = field_get 72 8 bs, rh_shardSequence = field_get 80 8 bs,
     rh_payloadBytes = field_get 88 2 bs, rh_shardIndex = field_get 90 2 bs,
     rh_sourceFlags = field_get 92 2 bs, rh_channel = byte_at 94 bs,
     rh_nativeIdentityShape = byte_at 95 bs, rh_eventOrdinal = field_get 96 2 bs,
     rh_reserved = field_get 100 4 bs\<rparr>"

definition record_image :: "BinaryMarketRecord \<Rightarrow> bytes" where
  "record_image r = recordHeader_image (header r) @ payload r @ replicate 32 0"

definition record_of :: "bytes \<Rightarrow> BinaryMarketRecord" where
  "record_of bs = \<lparr>header = recordHeader_of (slice 0 104 bs), payload = slice 104 888 bs\<rparr>"

lemma length_recordHeader_image [simp]: "length (recordHeader_image h) = 104"
  by (simp add: recordHeader_image_def)

lemma recordHeader_of_image: "recordHeader_of (recordHeader_image h) = h"
  unfolding recordHeader_of_def recordHeader_image_def by (simp add: layout_simps)

lemma length_record_image: "record_wf r \<Longrightarrow> length (record_image r) = 1024"
  by (simp add: record_image_def record_wf_def kBinaryMarketPayloadBytes_def)

lemma record_of_image: "record_wf r \<Longrightarrow> record_of (record_image r) = r"
  by (simp add: record_of_def record_image_def record_wf_def kBinaryMarketPayloadBytes_def
      layout_simps recordHeader_of_image)

section \<open>Payload views\<close>

text \<open>What the code uses of \<^verbatim>\<open>cxet\<close>: the evidence check, equality and default value of the
  evidence block, the largest depth failure code, the capacity constants, the source position
  flag and the snapshot sequence check.\<close>

record cxet =
  validMarketNativeEvidence :: "bytes \<Rightarrow> bool"
  sameMarketNativeEvidence :: "bytes \<Rightarrow> bytes \<Rightarrow> bool"
  defaultMarketNativeEvidence :: bytes
  depthFailureConsumerBookRejected :: u8
  kMaximumDepthSourceCapacity :: u32
  kMaximumDepthLevelsPerSide :: u32
  kMaximumDepthTransactionParts :: u16
  depthEventSourcePosition :: u32
  validDepthSnapshotSequence :: "u64 \<Rightarrow> u64 \<Rightarrow> u64 \<Rightarrow> bool"

definition sizeof_BookTickerPayload :: nat where "sizeof_BookTickerPayload = 88"
definition sizeof_TradePayload :: nat where "sizeof_TradePayload = 80"
definition sizeof_DepthChunkPayload :: nat where "sizeof_DepthChunkPayload = 888"
definition sizeof_DepthCoveragePayload :: nat where "sizeof_DepthCoveragePayload = 736"

text \<open>The evidence block sits after the four prices of a best-price payload, and after the
  price, the quantity and the side of a trade.\<close>

definition bookTickerEvidence :: "bytes \<Rightarrow> bytes" where "bookTickerEvidence bs = slice 32 56 bs"
definition tradeEvidence :: "bytes \<Rightarrow> bytes" where "tradeEvidence bs = slice 24 56 bs"

definition frameSnapshot :: u8 where "frameSnapshot = 1"
definition frameDelta :: u8 where "frameDelta = 2"
definition frameState :: u8 where "frameState = 3"

definition depthEmpty :: u8 where "depthEmpty = 0"
definition depthPartial :: u8 where "depthPartial = 1"
definition depthRebaseInFlight :: u8 where "depthRebaseInFlight = 2"
definition depthHealthy :: u8 where "depthHealthy = 3"
definition depthGap :: u8 where "depthGap = 4"

lemmas depth_defs = frameSnapshot_def frameDelta_def frameState_def depthEmpty_def depthPartial_def
  depthRebaseInFlight_def depthHealthy_def depthGap_def

record BinaryMarketDepthSequence =
  firstUpdateId :: u64
  lastUpdateId :: u64
  previousUpdateId :: u64

record BinaryMarketDepthChunkA =
  dc_sequence :: BinaryMarketDepthSequence
  dc_totalLevelCount :: u32
  dc_levelOffset :: u32
  dc_partIndex :: u16
  dc_partCount :: u16
  dc_levelCount :: u16
  dc_frameKind :: u8
  dc_state :: u8
  dc_failure :: u8

record BinaryMarketDepthChunkPayload = BinaryMarketDepthChunkA +
  dc_transactionPartIndex :: u16
  dc_transactionPartCount :: u16
  dc_sourceReceiveRealtimeNs :: u64
  dc_sourceFreshnessMonotonicNs :: u64
  dc_nativeEvidence :: bytes
  dc_levels :: bytes

definition depthChunk_of :: "bytes \<Rightarrow> BinaryMarketDepthChunkPayload" where
  "depthChunk_of bs = \<lparr>dc_sequence = \<lparr>firstUpdateId = field_get 0 8 bs, lastUpdateId = field_get 8 8 bs,
       previousUpdateId = field_get 16 8 bs\<rparr>,
     dc_totalLevelCount = field_get 24 4 bs, dc_levelOffset = field_get 28 4 bs,
     dc_partIndex = field_get 32 2 bs, dc_partCount = field_get 34 2 bs,
     dc_levelCount = field_get 36 2 bs, dc_frameKind = byte_at 38 bs, dc_state = byte_at 39 bs,
     dc_failure = byte_at 40 bs, dc_transactionPartIndex = field_get 42 2 bs,
     dc_transactionPartCount = field_get 44 2 bs, dc_sourceReceiveRealtimeNs = field_get 48 8 bs,
     dc_sourceFreshnessMonotonicNs = field_get 56 8 bs, dc_nativeEvidence = slice 64 56 bs,
     dc_levels = slice 120 768 bs\<rparr>"

definition depthChunk_image :: "BinaryMarketDepthChunkPayload \<Rightarrow> bytes" where
  "depthChunk_image p = field_put 8 (firstUpdateId (dc_sequence p)) @
     field_put 8 (lastUpdateId (dc_sequence p)) @ field_put 8 (previousUpdateId (dc_sequence p)) @
     field_put 4 (dc_totalLevelCount p) @ field_put 4 (dc_levelOffset p) @
     field_put 2 (dc_partIndex p) @ field_put 2 (dc_partCount p) @ field_put 2 (dc_levelCount p) @
     [dc_frameKind p, dc_state p, dc_failure p, 0] @ field_put 2 (dc_transactionPartIndex p) @
     field_put 2 (dc_transactionPartCount p) @ [0, 0] @ field_put 8 (dc_sourceReceiveRealtimeNs p) @
     field_put 8 (dc_sourceFreshnessMonotonicNs p) @ dc_nativeEvidence p @ dc_levels p"

lemma depthChunk_of_image:
  assumes "length (dc_nativeEvidence p) = 56" and "length (dc_levels p) = 768"
  shows "depthChunk_of (depthChunk_image p) = p" and "length (depthChunk_image p) = 888"
  using assms unfolding depthChunk_of_def depthChunk_image_def by (simp_all add: layout_simps)

record BinaryMarketDepthCoverageA =
  cv_sourceId :: u32
  cv_sequenceDomain :: u32
  cv_maximumLevelsPerSide :: u32
  cv_sequenceFlags :: u32
  cv_sourceGeneration :: u64
  cv_sessionEpoch :: u64
  cv_lastUpdateId :: u64
  cv_freshnessMonotonicNs :: u64

record BinaryMarketDepthCoverage = BinaryMarketDepthCoverageA +
  cv_lowestBidPriceRaw :: i64
  cv_highestAskPriceRaw :: i64
  cv_lowestProtectedBidPriceRaw :: i64
  cv_highestProtectedAskPriceRaw :: i64
  cv_state :: u8
  cv_failure :: u8
  cv_snapshotAligned :: u8
  cv_liquidityPopulation :: u8
  cv_reserved32 :: u32
  cv_nativeEvidence :: bytes

definition coverage_of :: "bytes \<Rightarrow> BinaryMarketDepthCoverage" where
  "coverage_of bs = \<lparr>cv_sourceId = field_get 0 4 bs, cv_sequenceDomain = field_get 4 4 bs,
     cv_maximumLevelsPerSide = field_get 8 4 bs, cv_sequenceFlags = field_get 12 4 bs,
     cv_sourceGeneration = field_get 16 8 bs, cv_sessionEpoch = field_get 24 8 bs,
     cv_lastUpdateId = field_get 32 8 bs, cv_freshnessMonotonicNs = field_get 40 8 bs,
     cv_lowestBidPriceRaw = field_get 48 8 bs, cv_highestAskPriceRaw = field_get 56 8 bs,
     cv_lowestProtectedBidPriceRaw = field_get 64 8 bs, cv_highestProtectedAskPriceRaw = field_get 72 8 bs,
     cv_state = byte_at 80 bs, cv_failure = byte_at 81 bs, cv_snapshotAligned = byte_at 82 bs,
     cv_liquidityPopulation = byte_at 83 bs, cv_reserved32 = field_get 84 4 bs,
     cv_nativeEvidence = slice 88 56 bs\<rparr>"

record BinaryMarketDepthCoveragePayload =
  cp_totalCoverageCount :: u32
  cp_coverageOffset :: u32
  cp_coverageCount :: u16
  cp_partIndex :: u16
  cp_partCount :: u16
  cp_transactionPartCount :: u16
  cp_coverage :: "bytes list"

definition coveragePayload_of :: "bytes \<Rightarrow> BinaryMarketDepthCoveragePayload" where
  "coveragePayload_of bs = \<lparr>cp_totalCoverageCount = field_get 0 4 bs, cp_coverageOffset = field_get 4 4 bs,
     cp_coverageCount = field_get 8 2 bs, cp_partIndex = field_get 10 2 bs, cp_partCount = field_get 12 2 bs,
     cp_transactionPartCount = field_get 14 2 bs,
     cp_coverage = map (\<lambda>i. slice (16 + 144 * i) 144 bs) [0..<kBinaryMarketDepthCoveragePerRecord]\<rparr>"

section \<open>Depth predicates\<close>

definition depthOf :: "BinaryMarketRecord \<Rightarrow> BinaryMarketDepthChunkPayload" where
  "depthOf r = depthChunk_of (payload r)"

definition binaryMarketDepthRecordIsComposedCut :: "BinaryMarketRecord \<Rightarrow> bool" where
  "binaryMarketDepthRecordIsComposedCut r =
     (let flags = rh_flags (header r);
          required = RecordDepthSnapshot OR RecordDepthSourcePosition OR RecordDepthHasCoverage;
          forbidden = RecordDepthDelta OR RecordDepthState OR RecordDepthRebase OR RecordDepthCoverage
      in if rh_channel (header r) \<noteq> chDepth \<or>
            unat (rh_payloadBytes (header r)) \<noteq> sizeof_DepthChunkPayload \<or>
            flags AND required \<noteq> required \<or> flags AND forbidden \<noteq> 0 then False
         else let p = depthOf r in
           dc_frameKind p = frameSnapshot \<and> dc_transactionPartIndex p = 0 \<and>
           dc_transactionPartCount p = 1 \<and>
           (dc_state p = depthHealthy \<or> dc_state p = depthPartial \<or> dc_state p = depthGap \<or>
            (dc_state p = depthEmpty \<and> dc_totalLevelCount p = 0 \<and> dc_levelCount p = 0)))"

definition validBinaryMarketDepthNativeState :: "cxet \<Rightarrow> BinaryMarketRecord \<Rightarrow> bool" where
  "validBinaryMarketDepthNativeState cx r =
     (let p = depthOf r; flags = rh_flags (header r);
          composed = binaryMarketDepthRecordIsComposedCut r;
          partial = (dc_state p = depthPartial); healthy = (dc_state p = depthHealthy);
          rebase = (dc_state p = depthRebaseInFlight); gap = (dc_state p = depthGap);
          snapshot = (dc_frameKind p = frameSnapshot); delta = (dc_frameKind p = frameDelta);
          state = (dc_frameKind p = frameState);
          compatible = (flags AND RecordTraderReplayCompatible \<noteq> 0)
      in \<not> ((\<not> partial \<and> \<not> healthy \<and> \<not> rebase \<and> \<not> gap \<and> \<not> composed) \<or>
            (\<not> snapshot \<and> \<not> delta \<and> \<not> state) \<or>
            depthFailureConsumerBookRejected cx < dc_failure p \<or>
            (flags AND RecordDepthSnapshot \<noteq> 0) \<noteq> snapshot \<or>
            (flags AND RecordDepthDelta \<noteq> 0) \<noteq> delta \<or>
            (flags AND RecordDepthState \<noteq> 0) \<noteq> state \<or>
            (flags AND RecordDepthPartial \<noteq> 0) \<noteq> partial \<or>
            (flags AND RecordDepthRebase \<noteq> 0) \<noteq> rebase \<or>
            compatible \<noteq> (partial \<or> healthy \<or> rebase \<or> composed) \<or>
            (dc_totalLevelCount p = 0 \<and> \<not> state \<and> \<not> snapshot) \<or>
            (state \<and> dc_totalLevelCount p \<noteq> 0) \<or>
            ((partial \<or> healthy \<or> rebase) \<and> dc_failure p \<noteq> 0) \<or>
            (gap \<and> dc_failure p = 0 \<and> \<not> composed) \<or>
            (dc_state p = depthEmpty \<and> dc_failure p \<noteq> 0) \<or>
            ((partial \<or> healthy) \<and> \<not> delta \<and> \<not> snapshot) \<or>
            (rebase \<and> snapshot \<noteq> (dc_transactionPartIndex p = 0)) \<or>
            (\<not> rebase \<and> dc_transactionPartCount p \<noteq> 1) \<or>
            (state \<and> (\<not> gap \<or> compatible \<or> partial \<or> rebase \<or> dc_sourceReceiveRealtimeNs p \<noteq> 0)) \<or>
            (\<not> state \<and> ((\<not> composed \<and> (dc_sourceReceiveRealtimeNs p = 0 \<or>
                dc_sourceFreshnessMonotonicNs p = 0)) \<or>
              0x7fffffffffffffff < dc_sourceReceiveRealtimeNs p))))"

definition binaryMarketDepthRecordIsNativeRebaseSnapshot :: "cxet \<Rightarrow> BinaryMarketRecord \<Rightarrow> bool" where
  "binaryMarketDepthRecordIsNativeRebaseSnapshot cx r =
     (let required = RecordTraderReplayCompatible OR RecordDepthSnapshot OR RecordDepthRebase;
          forbidden = RecordDepthDelta OR RecordDepthState OR RecordDepthCoverage OR
            RecordDepthHasCoverage OR RecordDepthSourcePosition
      in if rh_channel (header r) \<noteq> chDepth \<or>
            unat (rh_payloadBytes (header r)) \<noteq> sizeof_DepthChunkPayload \<or>
            rh_flags (header r) AND required \<noteq> required \<or> rh_flags (header r) AND forbidden \<noteq> 0 then False
         else let p = depthOf r in
           dc_frameKind p = frameSnapshot \<and> dc_state p = depthRebaseInFlight \<and>
           dc_transactionPartIndex p = 0 \<and> dc_partIndex p = 0 \<and> dc_failure p = 0 \<and>
           validDepthSnapshotSequence cx (firstUpdateId (dc_sequence p)) (lastUpdateId (dc_sequence p))
             (previousUpdateId (dc_sequence p)))"

definition validBinaryMarketDepthCoverage :: "cxet \<Rightarrow> BinaryMarketDepthCoverage \<Rightarrow> bool" where
  "validBinaryMarketDepthCoverage cx v \<longleftrightarrow>
     cv_sourceId v \<noteq> 0 \<and> cv_sourceId v \<le> kMaximumDepthSourceCapacity cx \<and>
     cv_maximumLevelsPerSide v \<le> kMaximumDepthLevelsPerSide cx \<and>
     cv_sequenceFlags v AND NOT (depthEventSourcePosition cx) = 0 \<and>
     0 \<le> sint (cv_lowestBidPriceRaw v) \<and> 0 \<le> sint (cv_highestAskPriceRaw v) \<and>
     0 \<le> sint (cv_lowestProtectedBidPriceRaw v) \<and> 0 \<le> sint (cv_highestProtectedAskPriceRaw v) \<and>
     cv_state v \<le> depthGap \<and> cv_failure v \<le> 8 \<and> cv_snapshotAligned v \<le> 1 \<and>
     cv_liquidityPopulation v \<le> 3 \<and> cv_reserved32 v = 0 \<and>
     validMarketNativeEvidence cx (cv_nativeEvidence v)"

definition coverageIsDefault :: "cxet \<Rightarrow> bytes \<Rightarrow> bool" where
  "coverageIsDefault cx bs \<longleftrightarrow> all_zero (slice 0 88 bs) \<and>
     sameMarketNativeEvidence cx (slice 88 56 bs) (defaultMarketNativeEvidence cx)"

text \<open>Sums and products of the counts are 32-bit unsigned.\<close>

definition validBinaryMarketDepthCoveragePayload :: "cxet \<Rightarrow> BinaryMarketDepthCoveragePayload \<Rightarrow> bool" where
  "validBinaryMarketDepthCoveragePayload cx v =
     (let total = cp_totalCoverageCount v; offset = cp_coverageOffset v in
      if total = 0 \<or> kMaximumDepthSourceCapacity cx < total \<or>
         ucast (cp_partCount v) \<noteq> (total + 4) div 5 \<or> cp_partCount v \<le> cp_partIndex v \<or>
         offset \<noteq> ucast (cp_partIndex v) * 5 \<or> total \<le> offset \<or>
         cp_coverageCount v = 0 \<or> 5 < cp_coverageCount v \<or>
         ucast (cp_coverageCount v) \<noteq> (if total - offset < 5 then total - offset else 5) \<or>
         cp_transactionPartCount v = 0 \<or>
         kMaximumDepthTransactionParts cx < cp_transactionPartCount v then False
      else list_all (\<lambda>i. if i < unat (cp_coverageCount v)
             then validBinaryMarketDepthCoverage cx (coverage_of (cp_coverage v ! i))
             else coverageIsDefault cx (cp_coverage v ! i)) [0..<kBinaryMarketDepthCoveragePerRecord])"

definition binaryMarketRecordIsSourceHealth :: "BinaryMarketRecord \<Rightarrow> bool" where
  "binaryMarketRecordIsSourceHealth r =
     (let h = header r in
      if \<not> validBinaryMarketChannel (rh_channel h) then False
      else if binaryMarketDepthRecordIsComposedCut r then
        dc_state (depthOf r) = depthGap \<or> dc_state (depthOf r) = depthEmpty
      else if rh_sourceFlags h AND (SourceStale OR SourceDegraded OR SourceSequenceGap) \<noteq> 0 then True
      else if rh_channel h \<noteq> chDepth \<or> rh_flags h AND RecordDepthState = 0 \<or>
        unat (rh_payloadBytes h) \<noteq> sizeof_DepthChunkPayload then False
      else dc_frameKind (depthOf r) = frameState \<and> dc_state (depthOf r) = depthGap)"

section \<open>Valid records\<close>

definition payloadRejected :: "cxet \<Rightarrow> BinaryMarketRecord \<Rightarrow> bool" where
  "payloadRejected cx r =
     (let h = header r; flags = rh_flags h in
      if rh_channel h = chBookTicker then
        unat (rh_payloadBytes h) \<noteq> sizeof_BookTickerPayload \<or>
        \<not> validMarketNativeEvidence cx (bookTickerEvidence (payload r))
      else if rh_channel h = chTrade then
        unat (rh_payloadBytes h) \<noteq> sizeof_TradePayload \<or>
        \<not> validMarketNativeEvidence cx (tradeEvidence (payload r))
      else if rh_channel h = chDepth \<and> flags AND RecordDepthCoverage \<noteq> 0 then
        (let p = coveragePayload_of (payload r);
             required = RecordDepthHasCoverage OR RecordDepthSourcePosition OR RecordTraderReplayCompatible in
         unat (rh_payloadBytes h) \<noteq> sizeof_DepthCoveragePayload \<or>
         \<not> validBinaryMarketDepthCoveragePayload cx p \<or> rh_eventOrdinal h \<noteq> cp_partIndex p \<or>
         rh_sourceFlags h \<noteq> (if rh_exchangeTimestampNs h = 0 then SourceExchangeTimestampMissing else 0) \<or>
         flags AND (RecordDepthSnapshot OR RecordDepthDelta OR RecordDepthState) \<noteq> 0 \<or>
         flags AND required \<noteq> required \<or>
         (flags AND RecordDepthTransactionEnd \<noteq> 0) \<noteq> (unat (cp_partIndex p) + 1 = unat (cp_partCount p)))
      else if rh_channel h = chDepth then
        unat (rh_payloadBytes h) \<noteq> sizeof_DepthChunkPayload \<or>
        \<not> validBinaryMarketDepthNativeState cx r \<or>
        \<not> validMarketNativeEvidence cx (dc_nativeEvidence (depthOf r))
      else False)"

definition lifecycleOf :: "BinaryMarketRecord \<Rightarrow> BinaryMarketSourceLifecyclePayload" where
  "lifecycleOf r = lifecyclePayload_of (payload r)"

definition lifecycleRejected :: "BinaryMarketRecord \<Rightarrow> bool" where
  "lifecycleRejected r =
     (let h = header r; p = lifecycleOf r; src = lp_source p in
      unat (rh_payloadBytes h) \<noteq> sizeof_LifecyclePayload \<or> lp_directoryRevision p = 0 \<or>
      causeNativeClosed < lp_cause p \<or>
      (lp_cause p \<noteq> causeSubscription \<and>
        (lp_kind p \<noteq> kindDirectoryChanged \<or> lp_channelMaskBefore p \<noteq> lp_channelMaskAfter p \<or>
         lp_affectedChannel p = 0 \<or> 3 < lp_affectedChannel p \<or> lp_requestSequence p \<noteq> 0)) \<or>
      (lp_cause p \<noteq> causeSubscription \<and>
        configuredChannelMask src AND binaryMarketChannelBit (lp_affectedChannel p) = 0) \<or>
      lp_kind p < kindAdded \<or> kindDirectoryChanged < lp_kind p \<or>
      sourceId src \<noteq> rh_sourceId h \<or> initialSourceGeneration src \<noteq> rh_sourceGeneration h \<or>
      sourceId src = 0 \<or> \<not> validBinaryMarketSource src (unat (sourceId src) - 1) \<or>
      lp_channelMaskBefore p AND NOT 0xff \<noteq> 0 \<or> lp_channelMaskAfter p \<noteq> availableChannelMask src \<or>
      (lp_affectedChannel p \<noteq> 0 \<and> \<not> validBinaryMarketChannel (lp_affectedChannel p)) \<or>
      (lp_previousSourceGeneration p = 0 \<and> lp_kind p \<noteq> kindAdded) \<or>
      rh_flags h AND RecordTraderReplayCompatible = 0 \<or> rh_sourceFlags h \<noteq> 0 \<or>
      rh_nativeIdentityShape h \<noteq> 0)"

definition nativeIdentityOk :: "BinaryMarketRecordHeader \<Rightarrow> bool" where
  "nativeIdentityOk h =
     (if rh_nativeIdentityShape h = 0
      then rh_nativeIdentityFirst h = 0 \<and> rh_nativeIdentitySecond h = 0
      else if rh_nativeIdentityShape h = 1
      then rh_nativeIdentityFirst h \<noteq> 0 \<and> rh_nativeIdentitySecond h = 0
      else rh_nativeIdentityShape h = 2 \<or>
        (rh_nativeIdentityShape h = 4 \<and> rh_channel h = chTrade \<and> rh_nativeIdentitySecond h = 0))"

definition validBinaryMarketRecord :: "cxet \<Rightarrow> BinaryMarketRecord \<Rightarrow> bool" where
  "validBinaryMarketRecord cx r =
     (let h = header r; flags = rh_flags h; lifecycle = (rh_channel h = chSourceLifecycle) in
      if payloadRejected cx r then False
      else if rh_channel h \<noteq> chDepth \<and>
        flags AND (RecordDepthCoverage OR RecordDepthHasCoverage OR RecordDepthTransactionEnd OR
          RecordDepthSourcePosition) \<noteq> 0 then False
      else if flags AND RecordDepthSourcePosition \<noteq> 0 \<and>
        (rh_nativeIdentityShape h \<noteq> 0 \<or> rh_nativeIdentityFirst h \<noteq> 0 \<or> rh_nativeIdentitySecond h \<noteq> 0)
      then False
      else if lifecycle \<and> lifecycleRejected r then False
      else rh_sourceId h \<noteq> 0 \<and> rh_sourceGeneration h \<noteq> 0 \<and>
        (lifecycle \<or> rh_sessionEpoch h \<noteq> 0) \<and> rh_eventSequence h \<noteq> 0 \<and>
        (lifecycle \<or> rh_frameSequence h \<noteq> 0) \<and>
        (flags AND RecordSourceLifecycle \<noteq> 0) = lifecycle \<and>
        0 \<le> sint (rh_exchangeTimestampNs h) \<and>
        (flags AND RecordExchangeTimestampMissing \<noteq> 0) = (rh_exchangeTimestampNs h = 0) \<and>
        0 < sint (rh_receiveRealtimeNs h) \<and> rh_receiveMonotonicNs h \<noteq> 0 \<and>
        rh_shardSequence h \<noteq> 0 \<and> rh_payloadBytes h \<noteq> 0 \<and>
        unat (rh_payloadBytes h) \<le> kBinaryMarketPayloadBytes \<and>
        validBinaryMarketRecordChannel (rh_channel h) \<and> nativeIdentityOk h \<and>
        flags AND NOT kBinaryMarketKnownRecordFlags = 0 \<and>
        rh_sourceFlags h AND NOT kBinaryMarketKnownSourceFlags = 0 \<and>
        (rh_sourceFlags h AND SourceExchangeTimestampMissing = 0 \<or>
         flags AND RecordExchangeTimestampMissing \<noteq> 0) \<and>
        rh_reserved h = 0)"

end
