(* ===== verification/SampleCorpus.thy ===== *)
theory SampleCorpus
  imports CorpusRecord
begin

text \<open>
  Concrete inputs at which the corpus theorems are applied: an instance of the external
  library's checks, one source descriptor, and lifecycle and depth records built from their
  payload structs. Nothing here models code.
\<close>

definition sample_cx :: cxet where
  "sample_cx = \<lparr>validMarketNativeEvidence = (\<lambda>bs. length bs = 56),
     sameMarketNativeEvidence = (=), defaultMarketNativeEvidence = replicate 56 0,
     depthFailureConsumerBookRejected = 8, kMaximumDepthSourceCapacity = 64,
     kMaximumDepthLevelsPerSide = 5000, kMaximumDepthTransactionParts = 1024,
     depthEventSourcePosition = 1,
     validDepthSnapshotSequence = (\<lambda>first last previous. first \<le> last)\<rparr>"

text \<open>A spot source with the depth channel, fit for replay.\<close>

definition sample_text :: "nat \<Rightarrow> string \<Rightarrow> bytes" where
  "sample_text n t = map (\<lambda>c. word_of_nat (of_char c)) t @ replicate (n - length t) 0"

definition sample_source :: BinaryMarketSource where
  "sample_source = \<lparr>sourceId = 1, canonicalSymbolId = 7, initialSourceGeneration = 1,
     tickSizeRaw = 0, stepSizeRaw = 0, contractBaseQtyRaw = 0, canonicalStepSizeRaw = 0,
     executionQuantityStepRaw = 0,
     quantityConversion = \<lparr>qc_kinds = [0, 0, 0], qc_reserved = [0, 0, 0, 0, 0],
       qc_canonicalBaseMultiplier = 0, qc_nativeBaseMultiplier = 0,
       qc_nativeContractBaseQtyRaw = 0, qc_nativeLotBaseQtyRaw = 0\<rparr>,
     priceBasisQtyRaw = 0, economicBaseAssetId = 1, quoteAssetId = 2, venueId = 1,
     directoryFlags = DirectoryDepth, configuredChannelMask = 4, availableChannelMask = 4,
     traderReplayChannelMask = 4, instrumentMetadataFlags = 0, marketRaw = 2, marketKindRaw = 1,
     assetDomainRaw = 0, priceScale = 8, quantityScale = 8, venueBytes = 1, marketBytes = 4,
     canonicalSymbolBytes = 3, nativeSymbolBytes = 3, compatibility = [0, 0, 1, 0, 0, 0, 0, 0],
     initiallyPresent = 1, reserved = [0, 0, 0, 0, 0], venue = sample_text 16 ''x'',
     market = sample_text 16 ''spot'', canonicalSymbol = sample_text 48 ''BTC'',
     nativeSymbol = sample_text 48 ''btc''\<rparr>"

definition sample_header :: "u8 \<Rightarrow> u32 \<Rightarrow> u64 \<Rightarrow> u16 \<Rightarrow> BinaryMarketRecordHeader" where
  "sample_header channel flags sequence bytes =
     \<lparr>rh_sourceId = 1, rh_flags = flags, rh_sourceGeneration = 1, rh_sessionEpoch = 1,
      rh_eventSequence = sequence, rh_frameSequence = 1, rh_nativeIdentityFirst = 0,
      rh_nativeIdentitySecond = 0, rh_exchangeTimestampNs = 5, rh_receiveRealtimeNs = 10,
      rh_receiveMonotonicNs = 10, rh_shardSequence = sequence, rh_payloadBytes = bytes,
      rh_shardIndex = 0, rh_sourceFlags = 0, rh_channel = channel, rh_nativeIdentityShape = 0,
      rh_eventOrdinal = 0, rh_reserved = 0\<rparr>"

definition sample_marker :: "u8 \<Rightarrow> u64 \<Rightarrow> BinaryMarketRecord" where
  "sample_marker cause sequence =
     \<lparr>header = sample_header chSourceLifecycle (RecordTraderReplayCompatible OR RecordSourceLifecycle)
        sequence 304,
      payload = lifecyclePayload_image \<lparr>lp_directoryRevision = 1, lp_previousSourceGeneration = 1,
        lp_requestSequence = 0, lp_channelMaskBefore = 4, lp_channelMaskAfter = 4,
        lp_kind = kindDirectoryChanged, lp_affectedChannel = chDepth, lp_reason = 0,
        lp_cause = cause, lp_source = sample_source\<rparr> @ replicate 584 0\<rparr>"

text \<open>A depth frame with no levels: the first is the snapshot of a two-part rebase, the
  second its delta, the third a healthy update.\<close>

definition sample_depth :: "u32 \<Rightarrow> u64 \<Rightarrow> u8 \<Rightarrow> u8 \<Rightarrow> u32 \<Rightarrow> u16 \<Rightarrow> u16 \<Rightarrow> BinaryMarketRecord" where
  "sample_depth flags sequence kind state levels part parts =
     \<lparr>header = sample_header chDepth flags sequence 888,
      payload = depthChunk_image \<lparr>dc_sequence = \<lparr>firstUpdateId = 1, lastUpdateId = 1, previousUpdateId = 0\<rparr>,
        dc_totalLevelCount = levels, dc_levelOffset = 0, dc_partIndex = 0, dc_partCount = 1,
        dc_levelCount = ucast levels, dc_frameKind = kind, dc_state = state, dc_failure = 0,
        dc_transactionPartIndex = part, dc_transactionPartCount = parts,
        dc_sourceReceiveRealtimeNs = 9, dc_sourceFreshnessMonotonicNs = 9,
        dc_nativeEvidence = replicate 56 0, dc_levels = replicate 768 0\<rparr>\<rparr>"

definition sample_snapshot :: BinaryMarketRecord where
  "sample_snapshot = sample_depth
     (RecordTraderReplayCompatible OR RecordDepthSnapshot OR RecordDepthRebase) 1 frameSnapshot
     depthRebaseInFlight 0 0 2"

definition sample_delta :: BinaryMarketRecord where
  "sample_delta = sample_depth
     (RecordTraderReplayCompatible OR RecordDepthDelta OR RecordDepthRebase OR RecordDepthTransactionEnd)
     2 frameDelta depthRebaseInFlight 1 1 2"

definition sample_healthy :: BinaryMarketRecord where
  "sample_healthy = sample_depth
     (RecordTraderReplayCompatible OR RecordDepthDelta OR RecordDepthTransactionEnd)
     3 frameDelta depthHealthy 1 0 1"

lemmas sample_simps = sample_header_def flag_simps record_flag_defs source_flag_defs channel_defs
  depth_defs compat_defs kBinaryMarketKnownRecordFlags_def kBinaryMarketKnownSourceFlags_def

lemma sample_source_wf: "source_wf sample_source"
  by (simp add: source_wf_def sample_source_def sample_text_def)

lemma lifecycleOf_image:
  assumes "source_wf (lp_source p)"
  shows "lifecyclePayload_of (lifecyclePayload_image p @ post) = p"
  using source_of_image [OF assms] length_source_image [OF assms]
  unfolding lifecyclePayload_of_def lifecyclePayload_image_def
  by (simp add: layout_simps)

lemma sample_lifecycleOf:
  "lifecycleOf (sample_marker cause sequence) = \<lparr>lp_directoryRevision = 1,
     lp_previousSourceGeneration = 1, lp_requestSequence = 0, lp_channelMaskBefore = 4,
     lp_channelMaskAfter = 4, lp_kind = kindDirectoryChanged, lp_affectedChannel = chDepth,
     lp_reason = 0, lp_cause = cause, lp_source = sample_source\<rparr>"
  by (simp add: lifecycleOf_def sample_marker_def lifecycleOf_image sample_source_wf)

lemma sample_depthOf:
  "depthOf (sample_depth flags sequence kind state levels part parts) =
     \<lparr>dc_sequence = \<lparr>firstUpdateId = 1, lastUpdateId = 1, previousUpdateId = 0\<rparr>,
      dc_totalLevelCount = levels, dc_levelOffset = 0, dc_partIndex = 0, dc_partCount = 1,
      dc_levelCount = ucast levels, dc_frameKind = kind, dc_state = state, dc_failure = 0,
      dc_transactionPartIndex = part, dc_transactionPartCount = parts,
      dc_sourceReceiveRealtimeNs = 9, dc_sourceFreshnessMonotonicNs = 9,
      dc_nativeEvidence = replicate 56 0, dc_levels = replicate 768 0\<rparr>"
  by (simp add: depthOf_def sample_depth_def depthChunk_of_image)

lemma sample_headers:
  "header (sample_depth flags sequence kind state levels part parts) = sample_header chDepth flags sequence 888"
  "header (sample_marker cause sequence) =
     sample_header chSourceLifecycle (RecordTraderReplayCompatible OR RecordSourceLifecycle) sequence 304"
  by (simp_all add: sample_depth_def sample_marker_def)

lemma sample_source_valid: "validBinaryMarketSource sample_source 0"
  by code_simp


lemmas sample_record_simps = validBinaryMarketRecord_def payloadRejected_def lifecycleRejected_def
  validBinaryMarketDepthNativeState_def binaryMarketDepthRecordIsComposedCut_def Let_def
  sample_lifecycleOf sample_depthOf sample_headers sample_simps sizeof_DepthChunkPayload_def
  sizeof_LifecyclePayload_def nativeIdentityOk_def validBinaryMarketRecordChannel_def
  validBinaryMarketChannel_def kBinaryMarketPayloadBytes_def sample_cx_def

lemma sample_source_fields:
  "availableChannelMask sample_source = 4" "configuredChannelMask sample_source = 4"
  "initialSourceGeneration sample_source = 1" "sourceId sample_source = 1"
  "initiallyPresent sample_source = 1"
  by (simp_all add: sample_source_def)

lemma sample_depth_bit: "binaryMarketChannelBit 3 = 4"
  by (simp add: binaryMarketChannelBit_def binaryMarketChannelIndex_def validBinaryMarketChannel_def
      channel_defs)

lemma sample_marker_valid: "validBinaryMarketRecord sample_cx (sample_marker causeNativeStale 1)"
  using sample_source_valid
  by (simp add: sample_record_simps sample_source_fields causeNativeClosed_def causeNativeStale_def
      causeSubscription_def kindDirectoryChanged_def kindAdded_def sample_depth_bit)

lemma sample_depth_valid:
  "validBinaryMarketRecord sample_cx sample_snapshot"
  "validBinaryMarketRecord sample_cx sample_delta"
  "validBinaryMarketRecord sample_cx sample_healthy"
  by (simp_all add: sample_record_simps sample_snapshot_def sample_delta_def sample_healthy_def)

end
