(* ===== verification/Checker.thy ===== *)
theory Checker
  imports Prelude
begin

text \<open>
  The contract of the code that checks a record stream: a step takes a record and a state,
  answers whether the record is accepted and returns the new state. The writer and the
  readers stop at the first record that is not accepted.

  \<open>accept_all\<close> is that loop. The locale \<open>checker\<close> is its interface: \<open>ok\<close> is what holds of every
  record on its own, \<open>inv hs s\<close> relates a state to the records that led to it. The source
  state and the depth transaction are interpretations.
\<close>

fun accept_all :: "('r \<Rightarrow> 's \<Rightarrow> bool \<times> 's) \<Rightarrow> 'r list \<Rightarrow> 's \<Rightarrow> 's option" where
  "accept_all step [] s = Some s"
| "accept_all step (r # rs) s = (case step r s of (ok, s') \<Rightarrow> if ok then accept_all step rs s' else None)"

lemma accept_all_Cons_Some:
  "accept_all step (r # rs) s = Some s' \<longleftrightarrow>
     (\<exists>t. step r s = (True, t) \<and> accept_all step rs t = Some s')"
  by (auto split: prod.splits)

lemma accept_all_append:
  "accept_all step (rs @ rs') s = Option.bind (accept_all step rs s) (accept_all step rs')"
  by (induction rs arbitrary: s) (simp_all split: prod.splits)

locale checker =
  fixes step :: "'r \<Rightarrow> 's \<Rightarrow> bool \<times> 's"
    and ok :: "'r \<Rightarrow> bool"
    and inv :: "'r list \<Rightarrow> 's \<Rightarrow> bool"
  assumes step_inv: "inv hs s \<Longrightarrow> ok r \<Longrightarrow> step r s = (True, s') \<Longrightarrow> inv (hs @ [r]) s'"
begin

lemma run_inv:
  "inv hs s \<Longrightarrow> list_all ok rs \<Longrightarrow> accept_all step rs s = Some s' \<Longrightarrow> inv (hs @ rs) s'"
proof (induction rs arbitrary: hs s)
  case (Cons r rs)
  then obtain t where "step r s = (True, t)" "accept_all step rs t = Some s'"
    by (auto simp only: accept_all_Cons_Some)
  with Cons.prems Cons.IH [of "hs @ [r]" t] step_inv show ?case by auto
qed simp

end

end
