(* ===== verification/SourceState.thy ===== *)
theory SourceState
  imports SampleCorpus Checker
begin

text \<open>
  The effective state of a source, \<^verbatim>\<open>Corpus/BinaryMarketSourceState.hpp\<close>: which channels are
  available, which are unhealthy, and how each record changes that. The writer advances the
  state in append order and the readers in merge order. An advance that returns false leaves
  the state as it was.
\<close>

record BinaryMarketSourceState =
  metadata :: BinaryMarketSource
  generation :: u64
  availableMask :: u16
  st_directoryRevision :: u64
  unhealthyMask :: u16
  administrativeUnhealthyMask :: u16
  recoveryPendingMask :: u16

definition initialBinaryMarketSourceState :: "BinaryMarketSource \<Rightarrow> BinaryMarketSourceState" where
  "initialBinaryMarketSourceState source =
     \<lparr>metadata = source,
      generation = (if initiallyPresent source \<noteq> 0 then initialSourceGeneration source else 0),
      availableMask = (if initiallyPresent source \<noteq> 0 then availableChannelMask source else 0),
      st_directoryRevision = 0, unhealthyMask = 0, administrativeUnhealthyMask = 0,
      recoveryPendingMask = 0\<rparr>"

definition effectiveBinaryMarketSource :: "BinaryMarketSourceState \<Rightarrow> BinaryMarketSource" where
  "effectiveBinaryMarketSource st =
     (let source = metadata st in
      source\<lparr>initiallyPresent := (if availableMask st \<noteq> 0 then 1 else 0),
        initialSourceGeneration := generation st,
        availableChannelMask := availableMask st,
        traderReplayChannelMask := traderReplayChannelMask source AND availableMask st,
        compatibility := map (\<lambda>c. if availableMask st AND push_bit c 1 = 0 then compatUnavailable
          else compatibility source ! c) [0..<kBinaryMarketChannelCount]\<rparr>)"

definition sameBinaryMarketSourceIdentity :: "BinaryMarketSource \<Rightarrow> BinaryMarketSource \<Rightarrow> bool" where
  "sameBinaryMarketSourceIdentity a b \<longleftrightarrow> sourceId a = sourceId b \<and>
     canonicalSymbolId a = canonicalSymbolId b \<and> venueId a = venueId b \<and> marketRaw a = marketRaw b \<and>
     venueBytes a = venueBytes b \<and> marketBytes a = marketBytes b \<and>
     canonicalSymbolBytes a = canonicalSymbolBytes b \<and> nativeSymbolBytes a = nativeSymbolBytes b \<and>
     venue a = venue b \<and> market a = market b \<and> canonicalSymbol a = canonicalSymbol b \<and>
     nativeSymbol a = nativeSymbol b"

definition sameBinaryMarketSourceRules :: "BinaryMarketSource \<Rightarrow> BinaryMarketSource \<Rightarrow> bool" where
  "sameBinaryMarketSourceRules a b \<longleftrightarrow> tickSizeRaw a = tickSizeRaw b \<and> stepSizeRaw a = stepSizeRaw b \<and>
     contractBaseQtyRaw a = contractBaseQtyRaw b \<and> priceBasisQtyRaw a = priceBasisQtyRaw b \<and>
     canonicalStepSizeRaw a = canonicalStepSizeRaw b \<and>
     executionQuantityStepRaw a = executionQuantityStepRaw b \<and>
     quantityConversion a = quantityConversion b \<and>
     instrumentMetadataFlags a = instrumentMetadataFlags b \<and> priceScale a = priceScale b \<and>
     quantityScale a = quantityScale b \<and> economicBaseAssetId a = economicBaseAssetId b \<and>
     quoteAssetId a = quoteAssetId b \<and> assetDomainRaw a = assetDomainRaw b \<and>
     marketKindRaw a = marketKindRaw b"

section \<open>Market records\<close>

definition marketRecordAdmitted :: "BinaryMarketRecord \<Rightarrow> BinaryMarketSourceState \<Rightarrow> bool" where
  "marketRecordAdmitted r st =
     (let h = header r; bit = binaryMarketChannelBit (rh_channel h);
          c = compatibility (metadata st) ! unat (binaryMarketChannelIndex (rh_channel h)) in
      availableMask st AND bit \<noteq> 0 \<and> c \<noteq> compatUnavailable \<and>
      (rh_flags h AND RecordTraderReplayCompatible = 0 \<or> c = compatExactTraderReplay))"

definition advanceMarketRecord ::
  "BinaryMarketRecord \<Rightarrow> bool \<Rightarrow> BinaryMarketSourceState \<Rightarrow> bool \<times> BinaryMarketSourceState" where
  "advanceMarketRecord r nativeRebaseSnapshot st =
     (let h = header r; bit = binaryMarketChannelBit (rh_channel h) in
      if generation st \<noteq> rh_sourceGeneration h then (False, st)
      else if binaryMarketRecordIsSourceHealth r
      then (True, st\<lparr>unhealthyMask := unhealthyMask st OR bit\<rparr>)
      else let valid = marketRecordAdmitted r st in
        if valid \<and> rh_flags h AND RecordTraderReplayCompatible \<noteq> 0 then
          if rh_channel h \<noteq> chDepth
          then (valid, st\<lparr>unhealthyMask := unhealthyMask st AND NOT bit\<rparr>)
          else if rh_flags h AND RecordDepthCoverage = 0 \<and> administrativeUnhealthyMask st AND bit = 0 \<and>
            (dc_state (depthOf r) = depthHealthy \<or> dc_state (depthOf r) = depthPartial \<or> nativeRebaseSnapshot)
          then (valid, st\<lparr>unhealthyMask := unhealthyMask st AND NOT bit,
                 recoveryPendingMask := recoveryPendingMask st AND NOT bit\<rparr>)
          else (valid, st)
        else (valid, st))"

section \<open>Lifecycle records\<close>

definition advanceNativeHealth ::
  "BinaryMarketRecord \<Rightarrow> BinaryMarketSourceState \<Rightarrow> bool \<times> BinaryMarketSourceState" where
  "advanceNativeHealth r st =
     (let h = header r; p = lifecycleOf r in
      if lp_kind p \<noteq> kindDirectoryChanged \<or> \<not> sameBinaryMarketSourceRules (metadata st) (lp_source p) \<or>
         rh_sourceGeneration h < generation st \<or>
         (rh_sourceGeneration h \<noteq> generation st \<and> lp_cause p \<noteq> causeNativeRecovered) \<or>
         lp_channelMaskBefore p \<noteq> lp_channelMaskAfter p then (False, st)
      else let bit = binaryMarketChannelBit (lp_affectedChannel p);
               st' = (if binaryMarketTransitionIsUnhealthy (lp_cause p) then
                   (if lp_affectedChannel p = chDepth
                    then st\<lparr>unhealthyMask := unhealthyMask st OR bit,
                            administrativeUnhealthyMask := administrativeUnhealthyMask st OR bit,
                            recoveryPendingMask := recoveryPendingMask st AND NOT bit\<rparr>
                    else st\<lparr>unhealthyMask := unhealthyMask st OR bit\<rparr>)
                 else if lp_cause p = causeNativeRecovered then
                   (if lp_affectedChannel p = chDepth
                    then st\<lparr>administrativeUnhealthyMask := administrativeUnhealthyMask st AND NOT bit,
                            recoveryPendingMask := recoveryPendingMask st OR bit,
                            unhealthyMask := unhealthyMask st OR bit\<rparr>
                    else st\<lparr>unhealthyMask := unhealthyMask st AND NOT bit\<rparr>)
                 else st)
           in (True, st'\<lparr>generation := rh_sourceGeneration h\<rparr>))"

definition membershipRejected :: "BinaryMarketRecord \<Rightarrow> BinaryMarketSourceState \<Rightarrow> bool" where
  "membershipRejected r st =
     (let h = header r; p = lifecycleOf r; before = lp_channelMaskBefore p; after = lp_channelMaskAfter p in
      if lp_kind p = kindAdded then
        after = 0 \<or> after AND NOT before = 0 \<or> before AND NOT after \<noteq> 0
      else if lp_kind p = kindRemoved then
        rh_sourceGeneration h \<noteq> generation st \<or> before = 0 \<or> before AND NOT after = 0 \<or>
        after AND NOT before \<noteq> 0
      else if lp_kind p = kindReadded then
        after = 0 \<or> generation st = 0 \<or> after AND NOT before = 0 \<or> before AND NOT after \<noteq> 0
      else if lp_kind p = kindDirectoryChanged then before \<noteq> after \<or> generation st = 0
      else False)"

definition advanceMembership ::
  "BinaryMarketRecord \<Rightarrow> BinaryMarketSourceState \<Rightarrow> bool \<times> BinaryMarketSourceState" where
  "advanceMembership r st =
     (let h = header r; p = lifecycleOf r in
      if lp_previousSourceGeneration p \<noteq> generation st \<or> lp_channelMaskBefore p \<noteq> availableMask st \<or>
         rh_sourceGeneration h < generation st \<or> lp_directoryRevision p \<le> st_directoryRevision st
      then (False, st)
      else if membershipRejected r st then (False, st)
      else let changed = lp_channelMaskBefore p XOR lp_channelMaskAfter p;
               keep = (if rh_sourceGeneration h \<noteq> generation st then 0 else NOT changed)
           in (True, \<lparr>metadata = lp_source p, generation = rh_sourceGeneration h,
                availableMask = lp_channelMaskAfter p, st_directoryRevision = lp_directoryRevision p,
                unhealthyMask = unhealthyMask st AND keep,
                administrativeUnhealthyMask = administrativeUnhealthyMask st AND keep,
                recoveryPendingMask = recoveryPendingMask st AND keep\<rparr>))"

definition advanceBinaryMarketSourceState ::
  "BinaryMarketRecord \<Rightarrow> bool \<Rightarrow> BinaryMarketSourceState \<Rightarrow> bool \<times> BinaryMarketSourceState" where
  "advanceBinaryMarketSourceState r nativeRebaseSnapshot st =
     (if rh_channel (header r) \<noteq> chSourceLifecycle then advanceMarketRecord r nativeRebaseSnapshot st
      else if \<not> sameBinaryMarketSourceIdentity (metadata st) (lp_source (lifecycleOf r)) then (False, st)
      else if lp_cause (lifecycleOf r) \<noteq> causeSubscription then advanceNativeHealth r st
      else advanceMembership r st)"

section \<open>Masks\<close>

lemma channel_cases:
  "validBinaryMarketChannel c \<longleftrightarrow> c \<in> {1, 2, 3, 4, 5, 6, 7, 8}"
proof -
  have "1 \<le> n \<and> n \<le> 8 \<longleftrightarrow> n \<in> {1, 2, 3, 4, 5, 6, 7, 8}" for n :: nat by auto
  from this [of "unat c"] show ?thesis
    by (simp add: validBinaryMarketChannel_def channel_defs word_le_nat_alt word_unat_eq_iff)
qed

lemma bit_channelBit:
  "bit (binaryMarketChannelBit c) n \<longleftrightarrow> validBinaryMarketChannel c \<and> n + 1 = unat c"
proof (cases "validBinaryMarketChannel c")
  case True
  then have "c \<in> {1, 2, 3, 4, 5, 6, 7, 8}" by (simp add: channel_cases)
  then show ?thesis using True
    by (auto simp: binaryMarketChannelBit_def binaryMarketChannelIndex_def bit_simps)
qed (simp add: binaryMarketChannelBit_def)

lemma bit_depthBit: "bit (binaryMarketChannelBit chDepth) n \<longleftrightarrow> n = 2"
  by (simp add: bit_channelBit channel_cases channel_defs)

lemma bit_otherChannel: "c \<noteq> chDepth \<Longrightarrow> \<not> bit (binaryMarketChannelBit c) 2"
  by (auto simp: bit_channelBit channel_defs channel_cases)

lemma and_depthBit: "w AND binaryMarketChannelBit chDepth = 0 \<longleftrightarrow> \<not> bit w 2"
proof
  assume "w AND binaryMarketChannelBit chDepth = 0"
  then have "\<not> bit (w AND binaryMarketChannelBit chDepth) 2" by simp
  then show "\<not> bit w 2" by (simp add: bit_and_iff bit_depthBit)
next
  assume "\<not> bit w 2"
  then show "w AND binaryMarketChannelBit chDepth = 0"
    by (intro bit_word_eqI) (auto simp: bit_and_iff bit_depthBit)
qed

text \<open>Administrative marks concern the depth channel only, imply that it is unhealthy, and
  exclude a pending recovery; so does a pending recovery.\<close>

definition mask_inv :: "BinaryMarketSourceState \<Rightarrow> bool" where
  "mask_inv st \<longleftrightarrow> (\<forall>n. bit (administrativeUnhealthyMask st) n \<longrightarrow>
        n = 2 \<and> bit (unhealthyMask st) n \<and> \<not> bit (recoveryPendingMask st) n) \<and>
     (\<forall>n. bit (recoveryPendingMask st) n \<longrightarrow> n = 2 \<and> bit (unhealthyMask st) n)"

lemmas advance_defs = advanceBinaryMarketSourceState_def advanceMarketRecord_def
  advanceNativeHealth_def advanceMembership_def

lemma mask_inv_step:
  assumes "mask_inv st" and "advanceBinaryMarketSourceState r b st = (True, st')"
  shows "mask_inv st'"
  using assms bit_otherChannel [of "rh_channel (header r)"]
    bit_otherChannel [of "lp_affectedChannel (lifecycleOf r)"]
  by (auto simp: mask_inv_def advance_defs Let_def bit_simps bit_depthBit and_depthBit
      split: if_splits)

section \<open>Membership\<close>

text \<open>What holds of a state besides the masks: its metadata is a valid source descriptor, and
  the available channels are those of the metadata or none.\<close>

definition member_inv :: "nat \<Rightarrow> BinaryMarketSourceState \<Rightarrow> bool" where
  "member_inv index st \<longleftrightarrow> validBinaryMarketSource (metadata st) index \<and>
     (availableMask st = availableChannelMask (metadata st) \<or> availableMask st = 0) \<and>
     (availableMask st \<noteq> 0 \<longrightarrow> generation st \<noteq> 0)"

lemma validSource_sourceId: "validBinaryMarketSource s i \<Longrightarrow> unat (sourceId s) = i + 1"
  by (auto simp: validBinaryMarketSource_def sourceScalarsInvalid_def split: if_splits)

lemma validSource_replay_subset:
  "validBinaryMarketSource s i \<Longrightarrow> traderReplayChannelMask s AND availableChannelMask s = traderReplayChannelMask s"
proof -
  assume "validBinaryMarketSource s i"
  then have "traderReplayChannelMask s AND NOT (availableChannelMask s) = 0"
    by (auto simp: validBinaryMarketSource_def sourceFlagsInvalid_def split: if_splits)
  then have "\<not> bit (traderReplayChannelMask s AND NOT (availableChannelMask s)) n" for n by simp
  then show ?thesis by (intro bit_word_eqI) (auto simp: bit_and_iff bit_not_iff)
qed

lemma effective_compatibility:
  assumes "member_inv index st" and "c < kBinaryMarketChannelCount"
  shows "channelCompatibilityOk (effectiveBinaryMarketSource st) c"
proof -
  have ok: "channelCompatibilityOk (metadata st) c"
    using assms by (auto simp: member_inv_def validBinaryMarketSource_def list_all_iff split: if_splits)
  show ?thesis
  proof (cases "availableMask st AND push_bit c 1 = 0")
    case True
    then show ?thesis using assms
      by (simp add: channelCompatibilityOk_def effectiveBinaryMarketSource_def Let_def
          validBinaryMarketCompatibility_def)
  next
    case False
    then have "availableMask st = availableChannelMask (metadata st)"
      using assms by (auto simp: member_inv_def)
    moreover have "traderReplayChannelMask (metadata st) AND availableChannelMask (metadata st) =
        traderReplayChannelMask (metadata st)"
      using assms validSource_replay_subset by (auto simp: member_inv_def)
    ultimately show ?thesis using ok assms False
      by (simp add: channelCompatibilityOk_def effectiveBinaryMarketSource_def Let_def split: if_splits)
  qed
qed

lemma effective_flags:
  assumes "member_inv index st"
  shows "\<not> sourceFlagsInvalid (effectiveBinaryMarketSource st)"
proof -
  have "\<not> sourceFlagsInvalid (metadata st)"
    using assms by (auto simp: member_inv_def validBinaryMarketSource_def split: if_splits)
  moreover have "(w AND a) AND NOT a = 0" for w a :: u16
    by (intro bit_word_eqI) (auto simp: bit_simps)
  ultimately show ?thesis using assms
    by (auto simp: sourceFlagsInvalid_def effectiveBinaryMarketSource_def Let_def member_inv_def)
qed

lemma effective_valid:
  assumes "member_inv index st"
  shows "validBinaryMarketSource (effectiveBinaryMarketSource st) index"
proof -
  have v: "validBinaryMarketSource (metadata st) index"
    and g: "availableMask st \<noteq> 0 \<longrightarrow> generation st \<noteq> 0"
    using assms by (simp_all add: member_inv_def)
  have scalars: "\<not> sourceScalarsInvalid (effectiveBinaryMarketSource st) index"
    using v g unfolding validBinaryMarketSource_def sourceScalarsInvalid_def
      effectiveBinaryMarketSource_def Let_def
    by (simp split: if_splits)
  have same: "directoryChannels (effectiveBinaryMarketSource st) = directoryChannels (metadata st)"
    "configuredChannelMask (effectiveBinaryMarketSource st) = configuredChannelMask (metadata st)"
    "quantityConversion (effectiveBinaryMarketSource st) = quantityConversion (metadata st)"
    by (simp_all add: directoryChannels_def effectiveBinaryMarketSource_def Let_def)
  have "list_all (channelCompatibilityOk (effectiveBinaryMarketSource st)) [0..<kBinaryMarketChannelCount]"
    using effective_compatibility [OF assms] by (simp add: list_all_iff)
  then show ?thesis using v scalars effective_flags [OF assms]
    unfolding validBinaryMarketSource_def same by (simp split: if_splits)
qed

lemma member_inv_initial:
  "validBinaryMarketSource s i \<Longrightarrow> member_inv i (initialBinaryMarketSourceState s)"
  by (auto simp: member_inv_def initialBinaryMarketSourceState_def validBinaryMarketSource_def
      sourceScalarsInvalid_def split: if_splits)

lemma identity_refl: "sameBinaryMarketSourceIdentity s s"
  by (simp add: sameBinaryMarketSourceIdentity_def)

lemma identity_trans:
  "sameBinaryMarketSourceIdentity a b \<Longrightarrow> sameBinaryMarketSourceIdentity b c \<Longrightarrow>
     sameBinaryMarketSourceIdentity a c"
  by (simp add: sameBinaryMarketSourceIdentity_def)

lemma valid_lifecycle:
  assumes "validBinaryMarketRecord cx r" and "rh_channel (header r) = chSourceLifecycle"
  shows "rh_sourceGeneration (header r) \<noteq> 0"
    and "validBinaryMarketSource (lp_source (lifecycleOf r)) (unat (sourceId (lp_source (lifecycleOf r))) - 1)"
    and "lp_channelMaskAfter (lifecycleOf r) = availableChannelMask (lp_source (lifecycleOf r))"
proof -
  have l: "\<not> lifecycleRejected r" and g: "rh_sourceGeneration (header r) \<noteq> 0"
    using assms by (auto simp: validBinaryMarketRecord_def Let_def split: if_splits)
  show "rh_sourceGeneration (header r) \<noteq> 0" by (rule g)
  show "validBinaryMarketSource (lp_source (lifecycleOf r)) (unat (sourceId (lp_source (lifecycleOf r))) - 1)"
    and "lp_channelMaskAfter (lifecycleOf r) = availableChannelMask (lp_source (lifecycleOf r))"
    using l unfolding lifecycleRejected_def Let_def by blast+
qed

lemma advance_identity:
  "advanceBinaryMarketSourceState r b st = (True, st') \<Longrightarrow>
     sameBinaryMarketSourceIdentity (metadata st) (metadata st')"
  by (auto simp: advance_defs Let_def identity_refl split: if_splits)

lemma member_inv_step:
  assumes "member_inv i st" and "validBinaryMarketRecord cx r"
    and "advanceBinaryMarketSourceState r b st = (True, st')"
  shows "member_inv i st'"
proof (cases "rh_channel (header r) = chSourceLifecycle")
  case False
  then show ?thesis using assms
    by (auto simp: advance_defs Let_def member_inv_def split: if_splits)
next
  case True
  note l = valid_lifecycle [OF assms(2) True]
  have "unat (sourceId (metadata st)) = i + 1"
    using assms(1) validSource_sourceId by (auto simp: member_inv_def)
  with assms True l show ?thesis
    by (auto simp: advance_defs Let_def member_inv_def sameBinaryMarketSourceIdentity_def split: if_splits)
qed

section \<open>The checked stream\<close>

definition source_step ::
  "BinaryMarketRecord \<times> bool \<Rightarrow> BinaryMarketSourceState \<Rightarrow> bool \<times> BinaryMarketSourceState" where
  "source_step rb st = advanceBinaryMarketSourceState (fst rb) (snd rb) st"

definition source_inv :: "BinaryMarketSource \<Rightarrow> nat \<Rightarrow> BinaryMarketSourceState \<Rightarrow> bool" where
  "source_inv source i st \<longleftrightarrow> mask_inv st \<and> member_inv i st \<and>
     sameBinaryMarketSourceIdentity source (metadata st)"

lemma source_inv_initial:
  "validBinaryMarketSource s i \<Longrightarrow> source_inv s i (initialBinaryMarketSourceState s)"
  by (simp add: source_inv_def member_inv_initial mask_inv_def)
    (simp add: initialBinaryMarketSourceState_def identity_refl)

interpretation source_stream: checker source_step "\<lambda>rb. validBinaryMarketRecord cx (fst rb)"
    "\<lambda>hs. source_inv source i" for cx source i
  by unfold_locales (auto simp: source_inv_def source_step_def intro: mask_inv_step member_inv_step
      identity_trans advance_identity)

section \<open>Effect of one record\<close>

lemma advance_effect:
  assumes "advanceBinaryMarketSourceState r b st = (ok, st')"
  shows "if ok then generation st \<le> generation st' \<and> st_directoryRevision st \<le> st_directoryRevision st' \<and>
      (availableMask st' \<noteq> availableMask st \<longrightarrow> rh_channel (header r) = chSourceLifecycle \<and>
        lp_cause (lifecycleOf r) = causeSubscription \<and> st_directoryRevision st < st_directoryRevision st')
    else st' = st"
  using assms by (auto simp: advance_defs Let_def not_less split: if_splits)

text \<open>The records that may end an administrative mark of the depth channel.\<close>

definition depthReset :: "BinaryMarketRecord \<Rightarrow> bool" where
  "depthReset r \<longleftrightarrow> rh_channel (header r) = chSourceLifecycle \<and>
     (lp_cause (lifecycleOf r) = causeSubscription \<or>
      (lp_cause (lifecycleOf r) = causeNativeRecovered \<and> lp_affectedChannel (lifecycleOf r) = chDepth))"

lemma administrative_kept:
  assumes "bit (administrativeUnhealthyMask st) 2" and "\<not> depthReset r"
    and "advanceBinaryMarketSourceState r b st = (True, st')"
  shows "bit (administrativeUnhealthyMask st') 2"
  using assms by (auto simp: advance_defs Let_def depthReset_def bit_simps split: if_splits)

interpretation depth_marked: checker source_step "\<lambda>rb. \<not> depthReset (fst rb)"
    "\<lambda>hs st. bit (administrativeUnhealthyMask st) 2"
  by unfold_locales (auto simp: source_step_def intro: administrative_kept)

definition depthMarker :: "BinaryMarketRecord \<Rightarrow> bool" where
  "depthMarker r \<longleftrightarrow> rh_channel (header r) = chSourceLifecycle \<and>
     binaryMarketTransitionIsUnhealthy (lp_cause (lifecycleOf r)) \<and>
     lp_affectedChannel (lifecycleOf r) = chDepth"

lemma marker_sets:
  assumes "depthMarker m" and "advanceBinaryMarketSourceState m b st = (True, st')"
  shows "bit (administrativeUnhealthyMask st') 2"
proof -
  have "lp_cause (lifecycleOf m) \<noteq> causeSubscription"
    using assms(1) by (auto simp: depthMarker_def binaryMarketTransitionIsUnhealthy_def
        causeSubscription_def causeNativeStale_def causeNativeDegraded_def
        causeNativeSequenceGap_def causeNativeClosed_def)
  with assms show ?thesis
    by (auto simp: advance_defs Let_def depthMarker_def bit_simps bit_depthBit split: if_splits)
qed

interpretation mask_stream: checker source_step "\<lambda>rb. True" "\<lambda>hs. mask_inv"
  by unfold_locales (auto simp: source_step_def intro: mask_inv_step)

lemma mask_inv_initial: "mask_inv (initialBinaryMarketSourceState s)"
  by (simp add: mask_inv_def initialBinaryMarketSourceState_def)

lemma market_recovery:
  assumes "advanceMarketRecord r b st = (True, st')"
    and "bit (unhealthyMask st) 2" and "\<not> bit (unhealthyMask st') 2"
  shows "rh_channel (header r) = chDepth \<and> rh_flags (header r) AND RecordTraderReplayCompatible \<noteq> 0 \<and>
    rh_flags (header r) AND RecordDepthCoverage = 0 \<and>
    (dc_state (depthOf r) = depthHealthy \<or> dc_state (depthOf r) = depthPartial \<or> b) \<and>
    \<not> bit (administrativeUnhealthyMask st) 2 \<and> bit (availableMask st) 2"
proof (cases "rh_channel (header r) = chDepth")
  case True
  then show ?thesis using assms
    by (auto simp: advanceMarketRecord_def Let_def bit_simps and_depthBit marketRecordAdmitted_def
        split: if_splits)
next
  case False
  then show ?thesis using assms bit_otherChannel [OF False]
    by (auto simp: advanceMarketRecord_def Let_def bit_simps split: if_splits)
qed

lemma native_no_recovery:
  assumes "advanceNativeHealth r st = (True, st')" and "bit (unhealthyMask st) 2"
  shows "bit (unhealthyMask st') 2"
  using assms bit_otherChannel [of "lp_affectedChannel (lifecycleOf r)"]
  by (auto simp: advanceNativeHealth_def Let_def bit_simps split: if_splits)

lemma membership_recovery:
  assumes "advanceMembership r st = (True, st')"
    and "bit (unhealthyMask st) 2" and "\<not> bit (unhealthyMask st') 2"
  shows "generation st < generation st' \<or> bit (availableMask st) 2 \<noteq> bit (availableMask st') 2"
  using assms by (auto simp: advanceMembership_def Let_def bit_simps split: if_splits)

text \<open>A sample stream: a stale marker of the depth feed followed by a healthy depth record.\<close>

definition sample_state :: "u16 \<Rightarrow> u16 \<Rightarrow> BinaryMarketSourceState" where
  "sample_state unhealthy administrative = \<lparr>metadata = sample_source, generation = 1, availableMask = 4,
     st_directoryRevision = 0, unhealthyMask = unhealthy, administrativeUnhealthyMask = administrative,
     recoveryPendingMask = 0\<rparr>"

lemma sample_initial: "initialBinaryMarketSourceState sample_source = sample_state 0 0"
  by (simp add: initialBinaryMarketSourceState_def sample_state_def sample_source_fields)

lemma sample_marker_step:
  "advanceBinaryMarketSourceState (sample_marker causeNativeStale 1) b (sample_state 0 0) =
     (True, sample_state 4 4)"
  by (simp add: advance_defs Let_def sample_headers sample_lifecycleOf sample_state_def sample_simps
      identity_refl sameBinaryMarketSourceRules_def causeNativeStale_def causeSubscription_def
      binaryMarketTransitionIsUnhealthy_def sample_depth_bit)

lemma sample_healthy_step:
  "advanceBinaryMarketSourceState sample_healthy b (sample_state 4 a) =
     (True, sample_state (if a AND 4 = 0 then 0 else 4) a)"
  by (simp add: advance_defs Let_def sample_healthy_def sample_record_simps sample_state_def
      sample_depth_bit binaryMarketRecordIsSourceHealth_def marketRecordAdmitted_def
      binaryMarketChannelIndex_def)
    (simp add: sample_source_def)

lemma sample_run:
  "accept_all source_step [(sample_marker causeNativeStale 1, False), (sample_healthy, False)]
     (initialBinaryMarketSourceState sample_source) = Some (sample_state 4 4)"
  by (simp add: source_step_def sample_initial sample_marker_step sample_healthy_step)

section \<open>Properties\<close>

text \<open>C9: Starting from a valid source descriptor, whatever valid records are accepted, the
  effective descriptor that readers see is again a valid descriptor of the same source. The
  administrative mark and the pending recovery concern the depth channel only, never hold
  together, and each of them keeps the channel unhealthy.\<close>

theorem source_state_effective_valid:
  assumes "validBinaryMarketSource s i"
    and "list_all (\<lambda>rb. validBinaryMarketRecord cx (fst rb)) rs"
    and "accept_all source_step rs (initialBinaryMarketSourceState s) = Some st"
  shows "validBinaryMarketSource (effectiveBinaryMarketSource st) i \<and>
    sameBinaryMarketSourceIdentity s (metadata st) \<and>
    (administrativeUnhealthyMask st OR recoveryPendingMask st) AND
      NOT (unhealthyMask st AND binaryMarketChannelBit chDepth) = 0 \<and>
    administrativeUnhealthyMask st AND recoveryPendingMask st = 0"
proof -
  have inv: "source_inv s i st"
    by (rule source_stream.run_inv [OF source_inv_initial [OF assms(1)] assms(2,3)])
  then have m: "mask_inv st" by (simp add: source_inv_def)
  have "(administrativeUnhealthyMask st OR recoveryPendingMask st) AND
      NOT (unhealthyMask st AND binaryMarketChannelBit chDepth) = 0"
    using m by (intro bit_word_eqI) (auto simp: bit_simps bit_depthBit mask_inv_def)
  moreover have "administrativeUnhealthyMask st AND recoveryPendingMask st = 0"
    using m by (intro bit_word_eqI) (auto simp: bit_simps mask_inv_def)
  ultimately show ?thesis using inv effective_valid by (simp add: source_inv_def)
qed

theorem source_state_effective_valid_witness:
  "validBinaryMarketSource (effectiveBinaryMarketSource (sample_state 4 4)) 0"
  using source_state_effective_valid [OF sample_source_valid _ sample_run, of sample_cx]
    sample_marker_valid sample_depth_valid by simp

text \<open>C12: An accepted record never decreases the generation or the directory revision of a
  source, and the available channels change only by a subscription transition that carries a
  larger directory revision. A record that is not accepted changes nothing.\<close>

theorem source_state_step:
  "advanceBinaryMarketSourceState r b st = (ok, st') \<Longrightarrow>
     (if ok then generation st \<le> generation st' \<and> st_directoryRevision st \<le> st_directoryRevision st' \<and>
        (availableMask st' \<noteq> availableMask st \<longrightarrow> rh_channel (header r) = chSourceLifecycle \<and>
          lp_cause (lifecycleOf r) = causeSubscription \<and> st_directoryRevision st < st_directoryRevision st')
      else st' = st)"
  by (rule advance_effect)

theorem source_state_step_witness:
  "generation (sample_state 0 0) \<le> generation (sample_state 4 4)"
  using source_state_step [OF sample_marker_step [of False]] by simp

text \<open>C10: Once a native marker has reported the depth feed of a source stale, degraded, closed or
  with a sequence gap, the depth channel stays unhealthy: no depth record, not even a healthy
  one, and no record of another channel clears it, until a recovery marker of the depth
  channel or a subscription transition arrives.\<close>

theorem depth_quarantine:
  assumes "depthMarker m" and "list_all (\<lambda>rb. \<not> depthReset (fst rb)) rs"
    and "accept_all source_step (hs @ (m, b) # rs) (initialBinaryMarketSourceState s) = Some st"
  shows "unhealthyMask st AND binaryMarketChannelBit chDepth \<noteq> 0"
proof -
  obtain t u where "source_step (m, b) t = (True, u)"
    and run: "accept_all source_step rs u = Some st"
    using assms(3) unfolding accept_all_append accept_all_Cons_Some bind_eq_Some_conv by blast
  then have "bit (administrativeUnhealthyMask u) 2"
    using marker_sets [OF assms(1)] by (simp add: source_step_def)
  then have "bit (administrativeUnhealthyMask st) 2"
    by (rule depth_marked.run_inv [OF _ assms(2) run])
  moreover have "mask_inv st"
    by (rule mask_stream.run_inv [OF mask_inv_initial _ assms(3)]) (simp add: list_all_iff)
  ultimately have "bit (unhealthyMask st) 2" unfolding mask_inv_def by blast
  then show ?thesis by (simp add: and_depthBit)
qed

theorem depth_quarantine_witness:
  "unhealthyMask (sample_state 4 4) AND binaryMarketChannelBit chDepth \<noteq> 0"
proof -
  have "depthMarker (sample_marker causeNativeStale 1)"
    by (simp add: depthMarker_def sample_headers sample_header_def sample_lifecycleOf
        binaryMarketTransitionIsUnhealthy_def)
  moreover have "\<not> depthReset sample_healthy"
    by (simp add: depthReset_def sample_healthy_def sample_headers sample_simps)
  ultimately show ?thesis
    using depth_quarantine [of "sample_marker causeNativeStale 1" "[(sample_healthy, False)]" "[]" False]
      sample_run by simp
qed

text \<open>C11: The depth channel becomes healthy again in two ways only: by a depth record that is fit for
  replay, is no coverage record and reports a healthy or partial book (or is the snapshot of a
  native rebase) while no administrative mark is set, or by a subscription transition that
  starts a new generation or changes the membership of the depth channel.\<close>

theorem depth_recovery_only:
  assumes "advanceBinaryMarketSourceState r b st = (True, st')"
    and "unhealthyMask st AND binaryMarketChannelBit chDepth \<noteq> 0"
    and "unhealthyMask st' AND binaryMarketChannelBit chDepth = 0"
  shows "(rh_channel (header r) = chDepth \<and> rh_flags (header r) AND RecordTraderReplayCompatible \<noteq> 0 \<and>
      rh_flags (header r) AND RecordDepthCoverage = 0 \<and>
      (dc_state (depthOf r) = depthHealthy \<or> dc_state (depthOf r) = depthPartial \<or> b) \<and>
      administrativeUnhealthyMask st AND binaryMarketChannelBit chDepth = 0 \<and>
      availableMask st AND binaryMarketChannelBit chDepth \<noteq> 0) \<or>
    (rh_channel (header r) = chSourceLifecycle \<and> lp_cause (lifecycleOf r) = causeSubscription \<and>
      (generation st < generation st' \<or>
       (availableMask st XOR availableMask st') AND binaryMarketChannelBit chDepth \<noteq> 0))"
proof (cases "rh_channel (header r) = chSourceLifecycle")
  case False
  then show ?thesis using assms market_recovery
    by (simp add: advanceBinaryMarketSourceState_def and_depthBit)
next
  case True
  then show ?thesis using assms native_no_recovery membership_recovery
    by (auto simp add: advanceBinaryMarketSourceState_def and_depthBit bit_xor_iff split: if_splits)
qed

theorem depth_recovery_only_witness:
  "rh_flags (header sample_healthy) AND RecordTraderReplayCompatible \<noteq> 0"
proof -
  have "unhealthyMask (sample_state 4 0) AND binaryMarketChannelBit chDepth \<noteq> 0"
    "unhealthyMask (sample_state 0 0) AND binaryMarketChannelBit chDepth = 0"
    by (simp_all add: sample_state_def chDepth_def sample_depth_bit)
  moreover have "rh_channel (header sample_healthy) \<noteq> chSourceLifecycle"
    by (simp add: sample_healthy_def sample_headers sample_simps)
  ultimately show ?thesis
    using depth_recovery_only [of sample_healthy False "sample_state 4 0" "sample_state 0 0"]
      sample_healthy_step [of False 0] by simp
qed

end
