(* ===== verification/DepthTransaction.thy ===== *)
theory DepthTransaction
  imports SampleCorpus Checker
begin

text \<open>
  The depth transaction of a producer shard, \<^verbatim>\<open>CorpusContract/BinaryMarketDepthTransaction.hpp\<close>:
  the state and the step that checks one record against it. A transaction is a sequence of
  native frames, each split into chunks of at most 32 levels, followed by coverage records
  when it announces them. The step returns false with the state it has reached so far, as the
  code does; its callers stop there.
\<close>

record DepthTransactionStateA =
  lastNative :: BinaryMarketRecordHeader
  dt_frameSequence :: u64
  dt_firstShardSequence :: u64
  dt_receiveMonotonicNs :: u64
  dt_receiveRealtimeNs :: i64
  dt_totalLevelCount :: u32
  dt_totalCoverageCount :: u32
  nativeSequence :: BinaryMarketDepthSequence
  dt_nativeEvidence :: bytes
  dt_sourceReceiveRealtimeNs :: u64
  dt_sourceFreshnessMonotonicNs :: u64

record BinaryMarketDepthTransactionState = DepthTransactionStateA +
  dt_frameKind :: u8
  nativeState :: u8
  dt_failure :: u8
  nativeParts :: u16
  nextNative :: u16
  chunkParts :: u16
  nextChunk :: u16
  coverageParts :: u16
  nextCoverage :: u16
  hasCoverage :: bool
  awaitingCoverage :: bool

definition emptyRecordHeader :: BinaryMarketRecordHeader where
  "emptyRecordHeader = \<lparr>rh_sourceId = 0, rh_flags = 0, rh_sourceGeneration = 0, rh_sessionEpoch = 0,
     rh_eventSequence = 0, rh_frameSequence = 0, rh_nativeIdentityFirst = 0, rh_nativeIdentitySecond = 0,
     rh_exchangeTimestampNs = 0, rh_receiveRealtimeNs = 0, rh_receiveMonotonicNs = 0, rh_shardSequence = 0,
     rh_payloadBytes = 0, rh_shardIndex = 0, rh_sourceFlags = 0, rh_channel = chBookTicker,
     rh_nativeIdentityShape = 0, rh_eventOrdinal = 0, rh_reserved = 0\<rparr>"

definition emptyDepthTransaction :: "cxet \<Rightarrow> BinaryMarketDepthTransactionState" where
  "emptyDepthTransaction cx = \<lparr>lastNative = emptyRecordHeader, dt_frameSequence = 0,
     dt_firstShardSequence = 0, dt_receiveMonotonicNs = 0, dt_receiveRealtimeNs = 0,
     dt_totalLevelCount = 0, dt_totalCoverageCount = 0,
     nativeSequence = \<lparr>firstUpdateId = 0, lastUpdateId = 0, previousUpdateId = 0\<rparr>,
     dt_nativeEvidence = defaultMarketNativeEvidence cx, dt_sourceReceiveRealtimeNs = 0,
     dt_sourceFreshnessMonotonicNs = 0, dt_frameKind = 0, nativeState = depthEmpty, dt_failure = 0,
     nativeParts = 0, nextNative = 0, chunkParts = 0, nextChunk = 0, coverageParts = 0, nextCoverage = 0,
     hasCoverage = False, awaitingCoverage = False\<rparr>"

definition active :: "BinaryMarketDepthTransactionState \<Rightarrow> bool" where
  "active st \<longleftrightarrow> dt_frameSequence st \<noteq> 0"

definition isCoverage :: "BinaryMarketRecord \<Rightarrow> bool" where
  "isCoverage r \<longleftrightarrow> rh_flags (header r) AND RecordDepthCoverage \<noteq> 0"
definition announcesCoverage :: "BinaryMarketRecord \<Rightarrow> bool" where
  "announcesCoverage r \<longleftrightarrow> rh_flags (header r) AND RecordDepthHasCoverage \<noteq> 0"
definition isTransactionEnd :: "BinaryMarketRecord \<Rightarrow> bool" where
  "isTransactionEnd r \<longleftrightarrow> rh_flags (header r) AND RecordDepthTransactionEnd \<noteq> 0"

definition semanticFlags :: u32 where
  "semanticFlags = RecordTraderReplayCompatible OR RecordDepthSnapshot OR RecordDepthDelta OR
     RecordDepthPartial OR RecordDepthRebase OR RecordDepthState OR RecordDepthHasCoverage OR
     RecordDepthSourcePosition"

section \<open>The step\<close>

definition sameOwner :: "BinaryMarketRecordHeader \<Rightarrow> BinaryMarketRecordHeader \<Rightarrow> bool" where
  "sameOwner h k \<longleftrightarrow> rh_sourceId h = rh_sourceId k \<and> rh_sourceGeneration h = rh_sourceGeneration k \<and>
     rh_sessionEpoch h = rh_sessionEpoch k"

definition sameEvent :: "BinaryMarketRecordHeader \<Rightarrow> BinaryMarketRecordHeader \<Rightarrow> bool" where
  "sameEvent h k \<longleftrightarrow> sameOwner h k \<and> rh_eventSequence h = rh_eventSequence k \<and>
     rh_exchangeTimestampNs h = rh_exchangeTimestampNs k"

definition startTransaction ::
  "BinaryMarketRecord \<Rightarrow> BinaryMarketDepthTransactionState \<Rightarrow> BinaryMarketDepthTransactionState" where
  "startTransaction r st = (let h = header r in
     st\<lparr>dt_frameSequence := rh_frameSequence h, dt_firstShardSequence := rh_shardSequence h,
       dt_receiveMonotonicNs := rh_receiveMonotonicNs h, dt_receiveRealtimeNs := rh_receiveRealtimeNs h,
       nativeParts := dc_transactionPartCount (depthOf r), hasCoverage := announcesCoverage r\<rparr>)"

definition advanceCoverage :: "cxet \<Rightarrow> BinaryMarketRecord \<Rightarrow> BinaryMarketDepthTransactionState \<Rightarrow>
    bool \<times> BinaryMarketDepthTransactionState" where
  "advanceCoverage cx r st =
     (let h = header r; p = coveragePayload_of (payload r) in
      if \<not> awaitingCoverage st \<or> cp_transactionPartCount p \<noteq> nativeParts st \<or>
         cp_partIndex p \<noteq> nextCoverage st \<or> \<not> sameEvent h (lastNative st) then (False, st)
      else let st1 = (if nextCoverage st = 0
             then st\<lparr>dt_totalCoverageCount := cp_totalCoverageCount p, coverageParts := cp_partCount p\<rparr>
             else st) in
        if cp_totalCoverageCount p \<noteq> dt_totalCoverageCount st1 \<or> cp_partCount p \<noteq> coverageParts st1
        then (False, st1)
        else let st2 = st1\<lparr>nextCoverage := nextCoverage st1 + 1\<rparr> in
          if nextCoverage st2 = coverageParts st2
          then if \<not> isTransactionEnd r then (False, st2) else (True, emptyDepthTransaction cx)
          else (True, st2))"

definition chunkRejected :: "cxet \<Rightarrow> BinaryMarketDepthChunkPayload \<Rightarrow> BinaryMarketDepthTransactionState \<Rightarrow> bool" where
  "chunkRejected cx p st \<longleftrightarrow>
     dc_transactionPartCount p = 0 \<or> kMaximumDepthTransactionParts cx < dc_transactionPartCount p \<or>
     dc_transactionPartCount p \<noteq> nativeParts st \<or> dc_transactionPartIndex p \<noteq> nextNative st \<or>
     dc_partCount p = 0 \<or> dc_partIndex p \<noteq> nextChunk st \<or> dc_partCount p \<le> dc_partIndex p \<or>
     dc_levelOffset p \<noteq> ucast (dc_partIndex p) * word_of_nat kBinaryMarketDepthLevelsPerRecord \<or>
     dc_totalLevelCount p < dc_levelOffset p \<or>
     kBinaryMarketDepthLevelsPerRecord < unat (dc_levelCount p) \<or>
     unat (dc_levelCount p) \<noteq>
       min kBinaryMarketDepthLevelsPerRecord (unat (dc_totalLevelCount p - dc_levelOffset p)) \<or>
     unat (dc_partCount p) \<noteq>
       (unat (dc_totalLevelCount p) + kBinaryMarketDepthLevelsPerRecord - 1) div
         kBinaryMarketDepthLevelsPerRecord + (if dc_totalLevelCount p = 0 then 1 else 0)"

definition firstChunk ::
  "BinaryMarketDepthChunkPayload \<Rightarrow> BinaryMarketDepthTransactionState \<Rightarrow> BinaryMarketDepthTransactionState" where
  "firstChunk p st = st\<lparr>dt_totalLevelCount := dc_totalLevelCount p, chunkParts := dc_partCount p,
     nativeSequence := dc_sequence p, dt_nativeEvidence := dc_nativeEvidence p,
     dt_sourceReceiveRealtimeNs := dc_sourceReceiveRealtimeNs p,
     dt_sourceFreshnessMonotonicNs := dc_sourceFreshnessMonotonicNs p, dt_frameKind := dc_frameKind p,
     nativeState := dc_state p, dt_failure := dc_failure p\<rparr>"

definition sameFrame :: "cxet \<Rightarrow> BinaryMarketRecord \<Rightarrow> BinaryMarketDepthTransactionState \<Rightarrow> bool" where
  "sameFrame cx r st =
     (let h = header r; p = depthOf r; k = lastNative st in
      sameEvent h k \<and> rh_sourceFlags h = rh_sourceFlags k \<and>
      rh_flags h AND semanticFlags = rh_flags k AND semanticFlags \<and>
      dc_sequence p = nativeSequence st \<and>
      sameMarketNativeEvidence cx (dc_nativeEvidence p) (dt_nativeEvidence st) \<and>
      dc_sourceReceiveRealtimeNs p = dt_sourceReceiveRealtimeNs st \<and>
      dc_sourceFreshnessMonotonicNs p = dt_sourceFreshnessMonotonicNs st \<and>
      dc_frameKind p = dt_frameKind st \<and> dc_state p = nativeState st \<and> dc_failure p = dt_failure st)"

definition countChunk ::
  "cxet \<Rightarrow> BinaryMarketDepthTransactionState \<Rightarrow> BinaryMarketDepthTransactionState" where
  "countChunk cx st =
     (if nextChunk st + 1 \<noteq> chunkParts st then st\<lparr>nextChunk := nextChunk st + 1\<rparr>
      else let st1 = st\<lparr>nextChunk := 0, nextNative := nextNative st + 1\<rparr> in
        if nextNative st1 \<noteq> nativeParts st1 then st1
        else if hasCoverage st1 then st1\<lparr>awaitingCoverage := True\<rparr>
        else emptyDepthTransaction cx)"

definition advanceNative :: "cxet \<Rightarrow> BinaryMarketRecord \<Rightarrow> BinaryMarketDepthTransactionState \<Rightarrow>
    bool \<times> BinaryMarketDepthTransactionState" where
  "advanceNative cx r st =
     (let h = header r; p = depthOf r in
      if awaitingCoverage st then (False, st)
      else if chunkRejected cx p st then (False, st)
      else if nextChunk st \<noteq> 0 \<and> \<not> sameFrame cx r st then (False, st)
      else let st1 = (if nextChunk st = 0 then firstChunk p st else st) in
        if dc_totalLevelCount p \<noteq> dt_totalLevelCount st1 \<or> dc_partCount p \<noteq> chunkParts st1 then (False, st1)
        else let st2 = st1\<lparr>lastNative := h\<rparr>;
                 finalChunk = (unat (dc_partIndex p) + 1 = unat (dc_partCount p));
                 finalNative = (unat (dc_transactionPartIndex p) + 1 = unat (dc_transactionPartCount p)) in
          if isTransactionEnd r \<noteq> (\<not> announcesCoverage r \<and> finalChunk \<and> finalNative) then (False, st2)
          else (True, countChunk cx st2))"

definition advanceBinaryMarketDepthTransaction :: "cxet \<Rightarrow> BinaryMarketRecord \<Rightarrow>
    BinaryMarketDepthTransactionState \<Rightarrow> bool \<times> BinaryMarketDepthTransactionState" where
  "advanceBinaryMarketDepthTransaction cx r st =
     (let h = header r in
      if rh_channel h \<noteq> chDepth then (\<not> active st, st)
      else if \<not> validBinaryMarketRecord cx r then (False, st)
      else if \<not> active st \<and> (isCoverage r \<or> dc_transactionPartIndex (depthOf r) \<noteq> 0 \<or>
          dc_partIndex (depthOf r) \<noteq> 0) then (False, st)
      else let st1 = (if active st then st else startTransaction r st) in
        if rh_frameSequence h \<noteq> dt_frameSequence st1 \<or> rh_receiveMonotonicNs h \<noteq> dt_receiveMonotonicNs st1 \<or>
           rh_receiveRealtimeNs h \<noteq> dt_receiveRealtimeNs st1 \<or> announcesCoverage r \<noteq> hasCoverage st1
        then (False, st1)
        else if rh_sourceId (lastNative st1) \<noteq> 0 \<and> \<not> sameOwner h (lastNative st1) then (False, st1)
        else if isCoverage r then advanceCoverage cx r st1
        else advanceNative cx r st1)"

section \<open>What a transaction is\<close>

text \<open>Position \<open>j\<close> of the \<open>K\<close> chunks of frame \<open>i\<close> of \<open>N\<close>, in a frame of \<open>T\<close> levels.\<close>

definition chunk_ok :: "nat \<Rightarrow> nat \<Rightarrow> nat \<Rightarrow> nat \<Rightarrow> nat \<Rightarrow> BinaryMarketRecord \<Rightarrow> bool" where
  "chunk_ok N i T K j r \<longleftrightarrow> \<not> isCoverage r \<and>
     unat (dc_transactionPartCount (depthOf r)) = N \<and> unat (dc_transactionPartIndex (depthOf r)) = i \<and>
     unat (dc_totalLevelCount (depthOf r)) = T \<and> unat (dc_partCount (depthOf r)) = K \<and>
     unat (dc_partIndex (depthOf r)) = j \<and> unat (dc_levelOffset (depthOf r)) = 32 * j \<and>
     unat (dc_levelCount (depthOf r)) = min 32 (T - 32 * j)"

definition parts_of :: "nat \<Rightarrow> nat" where
  "parts_of T = (T + 31) div 32 + (if T = 0 then 1 else 0)"

definition frame_ok :: "nat \<Rightarrow> nat \<Rightarrow> BinaryMarketRecord list \<Rightarrow> bool" where
  "frame_ok N i f \<longleftrightarrow> (\<exists>T. length f = parts_of T \<and> (\<forall>j < length f. chunk_ok N i T (length f) j (f ! j)))"

definition coverage_ok :: "nat \<Rightarrow> nat \<Rightarrow> nat \<Rightarrow> nat \<Rightarrow> BinaryMarketRecord \<Rightarrow> bool" where
  "coverage_ok N T K k r \<longleftrightarrow> isCoverage r \<and>
     unat (cp_transactionPartCount (coveragePayload_of (payload r))) = N \<and>
     unat (cp_totalCoverageCount (coveragePayload_of (payload r))) = T \<and>
     unat (cp_partCount (coveragePayload_of (payload r))) = K \<and>
     unat (cp_partIndex (coveragePayload_of (payload r))) = k"

definition sameRoot :: "BinaryMarketRecord \<Rightarrow> BinaryMarketRecord \<Rightarrow> bool" where
  "sameRoot a b \<longleftrightarrow> rh_channel (header a) = rh_channel (header b) \<and>
     rh_frameSequence (header a) = rh_frameSequence (header b) \<and>
     rh_receiveMonotonicNs (header a) = rh_receiveMonotonicNs (header b) \<and>
     rh_receiveRealtimeNs (header a) = rh_receiveRealtimeNs (header b) \<and>
     announcesCoverage a = announcesCoverage b \<and> sameOwner (header a) (header b)"

text \<open>A complete transaction: its frames in order, each with all its chunks in order, then its
  coverage records in order if and only if it announces coverage; every record has the root
  identity of the others, and the last record alone carries the end flag.\<close>

definition depthTransaction :: "BinaryMarketRecord list \<Rightarrow> bool" where
  "depthTransaction tx \<longleftrightarrow> (\<exists>frames cov T. tx = concat frames @ cov \<and> frames \<noteq> [] \<and>
     (\<forall>i < length frames. frame_ok (length frames) i (frames ! i)) \<and>
     (\<forall>k < length cov. coverage_ok (length frames) T (length cov) k (cov ! k)) \<and>
     (\<forall>r \<in> set tx. announcesCoverage r = (cov \<noteq> []))) \<and>
     (\<forall>a \<in> set tx. rh_channel (header a) = chDepth \<and> (\<forall>b \<in> set tx. sameRoot a b)) \<and>
     (\<forall>r \<in> set (butlast tx). \<not> isTransactionEnd r) \<and> isTransactionEnd (last tx)"

text \<open>A shard's records: complete transactions, with other records only in between.\<close>

definition completeRun :: "BinaryMarketRecord list \<Rightarrow> bool" where
  "completeRun rs \<longleftrightarrow> (\<exists>txs. rs = concat txs \<and>
     (\<forall>tx \<in> set txs. depthTransaction tx \<or> (\<exists>r. tx = [r] \<and> rh_channel (header r) \<noteq> chDepth)))"

lemma completeRun_append:
  "completeRun rs \<Longrightarrow> depthTransaction tx \<or> (\<exists>r. tx = [r] \<and> rh_channel (header r) \<noteq> chDepth) \<Longrightarrow>
     completeRun (rs @ tx)"
proof -
  assume "completeRun rs" and tx: "depthTransaction tx \<or> (\<exists>r. tx = [r] \<and> rh_channel (header r) \<noteq> chDepth)"
  then obtain txs where "rs = concat txs"
    "\<forall>tx \<in> set txs. depthTransaction tx \<or> (\<exists>r. tx = [r] \<and> rh_channel (header r) \<noteq> chDepth)"
    by (auto simp: completeRun_def)
  with tx show ?thesis unfolding completeRun_def by (intro exI [of _ "txs @ [tx]"]) auto
qed

text \<open>The chunks of a frame carry all its levels.\<close>

lemma chunk_sum: "(\<Sum>j < K. min 32 (T - 32 * j)) = min (32 * K) (T :: nat)"
  by (induction K) auto

lemma frame_levels:
  assumes "frame_ok N i f"
  shows "f \<noteq> [] \<and> (\<Sum>r \<leftarrow> f. unat (dc_levelCount (depthOf r))) = unat (dc_totalLevelCount (depthOf (hd f)))"
proof -
  obtain T where len: "length f = parts_of T" and ok: "\<And>j. j < length f \<Longrightarrow> chunk_ok N i T (length f) j (f ! j)"
    using assms by (auto simp: frame_ok_def)
  have ne: "f \<noteq> []" using len by (auto simp: parts_of_def split: if_splits)
  have "(\<Sum>r \<leftarrow> f. unat (dc_levelCount (depthOf r))) = (\<Sum>j < length f. min 32 (T - 32 * j))"
    using ok by (simp add: sum_list_sum_nth atLeast0LessThan chunk_ok_def)
  also have "\<dots> = T" using len by (auto simp: chunk_sum parts_of_def split: if_splits)
  finally show ?thesis using ne ok [of 0] by (simp add: hd_conv_nth chunk_ok_def)
qed

section \<open>The invariant\<close>

lemma unat_inc: "x < y \<Longrightarrow> unat (x + 1) = unat (x :: 'a::len word) + 1"
proof -
  assume "x < y"
  then have "unat x < unat y" by (simp add: word_less_nat_alt)
  moreover have "unat y < 2 ^ LENGTH('a)" by (rule unsigned_less)
  ultimately have "unat x + 1 < 2 ^ LENGTH('a)" by linarith
  then show ?thesis by (simp add: unat_word_ariths)
qed

definition rootOk :: "BinaryMarketDepthTransactionState \<Rightarrow> BinaryMarketRecord \<Rightarrow> bool" where
  "rootOk st r \<longleftrightarrow> rh_channel (header r) = chDepth \<and> rh_frameSequence (header r) = dt_frameSequence st \<and>
     rh_receiveMonotonicNs (header r) = dt_receiveMonotonicNs st \<and>
     rh_receiveRealtimeNs (header r) = dt_receiveRealtimeNs st \<and> announcesCoverage r = hasCoverage st"

text \<open>The open transaction: \<open>frames\<close> are complete, \<open>cur\<close> are the chunks of the frame being read,
  \<open>cov\<close> the coverage records read so far.\<close>

definition members_inv :: "BinaryMarketDepthTransactionState \<Rightarrow> BinaryMarketRecord list \<Rightarrow> bool" where
  "members_inv st rs \<longleftrightarrow> (\<forall>r \<in> set rs. rootOk st r \<and> \<not> isTransactionEnd r \<and>
       sameOwner (header r) (lastNative st)) \<and>
     (rs \<noteq> [] \<longrightarrow> rh_sourceId (lastNative st) \<noteq> 0)"

definition frames_inv :: "BinaryMarketDepthTransactionState \<Rightarrow> BinaryMarketRecord list list \<Rightarrow> bool" where
  "frames_inv st frames \<longleftrightarrow> length frames = unat (nextNative st) \<and>
     (\<forall>i < length frames. frame_ok (unat (nativeParts st)) i (frames ! i))"

definition chunks_inv :: "BinaryMarketDepthTransactionState \<Rightarrow> BinaryMarketRecord list \<Rightarrow> bool" where
  "chunks_inv st cur \<longleftrightarrow> length cur = unat (nextChunk st) \<and>
     (\<forall>j < length cur. chunk_ok (unat (nativeParts st)) (unat (nextNative st))
        (unat (dt_totalLevelCount st)) (unat (chunkParts st)) j (cur ! j))"

definition coverage_inv :: "BinaryMarketDepthTransactionState \<Rightarrow> BinaryMarketRecord list \<Rightarrow> bool" where
  "coverage_inv st cov \<longleftrightarrow> length cov = unat (nextCoverage st) \<and>
     (\<forall>k < length cov. coverage_ok (unat (nativeParts st)) (unat (dt_totalCoverageCount st))
        (unat (coverageParts st)) k (cov ! k))"

definition open_inv :: "BinaryMarketDepthTransactionState \<Rightarrow> BinaryMarketRecord list list \<Rightarrow>
    BinaryMarketRecord list \<Rightarrow> BinaryMarketRecord list \<Rightarrow> bool" where
  "open_inv st frames cur cov \<longleftrightarrow> frames_inv st frames \<and> chunks_inv st cur \<and> coverage_inv st cov \<and>
     members_inv st (concat frames @ cur @ cov) \<and>
     (if awaitingCoverage st
      then hasCoverage st \<and> cur = [] \<and> frames \<noteq> [] \<and> nextNative st = nativeParts st
      else cov = [] \<and> (nativeParts st = 0 \<or> nextNative st < nativeParts st))"

lemmas open_defs = open_inv_def frames_inv_def chunks_inv_def coverage_inv_def members_inv_def

definition transaction_inv :: "cxet \<Rightarrow> BinaryMarketRecord list \<Rightarrow> BinaryMarketDepthTransactionState \<Rightarrow> bool" where
  "transaction_inv cx hs st \<longleftrightarrow>
     (if active st
      then \<exists>closed frames cur cov. hs = closed @ concat frames @ cur @ cov \<and> completeRun closed \<and>
        open_inv st frames cur cov
      else st = emptyDepthTransaction cx \<and> completeRun hs)"

lemma start_inv: "open_inv (startTransaction r (emptyDepthTransaction cx)) [] [] []"
  by (simp add: open_defs startTransaction_def emptyDepthTransaction_def Let_def)
    (simp add: word_gt_0)

lemma chunk_accepted:
  assumes "\<not> chunkRejected cx (depthOf r) st" and "\<not> isCoverage r"
  shows "chunk_ok (unat (nativeParts st)) (unat (nextNative st)) (unat (dc_totalLevelCount (depthOf r)))
      (unat (dc_partCount (depthOf r))) (unat (nextChunk st)) r"
    and "unat (dc_partCount (depthOf r)) = parts_of (unat (dc_totalLevelCount (depthOf r)))"
    and "nextChunk st < dc_partCount (depthOf r)" and "nativeParts st \<noteq> 0"
proof -
  let ?p = "depthOf r"
  have off: "dc_levelOffset ?p = ucast (dc_partIndex ?p) * 32"
    and le: "dc_levelOffset ?p \<le> dc_totalLevelCount ?p"
    and cnt: "unat (dc_levelCount ?p) = min 32 (unat (dc_totalLevelCount ?p - dc_levelOffset ?p))"
    and ix: "dc_partIndex ?p = nextChunk st" "dc_transactionPartCount ?p = nativeParts st"
      "dc_transactionPartIndex ?p = nextNative st"
    using assms(1) by (auto simp: chunkRejected_def kBinaryMarketDepthLevelsPerRecord_def not_less)
  have "unat (dc_partIndex ?p) < 2 ^ 16" using unsigned_less [of "dc_partIndex ?p"] by simp
  then have o: "unat (dc_levelOffset ?p) = 32 * unat (nextChunk st)"
    using ix by (simp add: off unat_word_ariths unsigned_ucast_eq take_bit_nat_eq_self)
  have "unat (dc_totalLevelCount ?p - dc_levelOffset ?p) = unat (dc_totalLevelCount ?p) - 32 * unat (nextChunk st)"
    using le o by (simp add: unat_sub)
  with ix o cnt assms(2) show "chunk_ok (unat (nativeParts st)) (unat (nextNative st))
      (unat (dc_totalLevelCount ?p)) (unat (dc_partCount ?p)) (unat (nextChunk st)) r"
    by (simp add: chunk_ok_def)
  show "unat (dc_partCount ?p) = parts_of (unat (dc_totalLevelCount ?p))"
    using assms(1) by (auto simp: chunkRejected_def kBinaryMarketDepthLevelsPerRecord_def parts_of_def
        unat_eq_0)
  show "nextChunk st < dc_partCount ?p" "nativeParts st \<noteq> 0"
    using assms(1) by (auto simp: chunkRejected_def not_le)
qed

section \<open>Native records\<close>

text \<open>The state in which the chunk of an accepted record is counted.\<close>

definition acceptNative :: "BinaryMarketRecord \<Rightarrow> BinaryMarketDepthTransactionState \<Rightarrow>
    BinaryMarketDepthTransactionState" where
  "acceptNative r st =
     (if nextChunk st = 0 then firstChunk (depthOf r) st else st)\<lparr>lastNative := header r\<rparr>"

lemma acceptNative_simps [simp]:
  "nativeParts (acceptNative r st) = nativeParts st" "nextNative (acceptNative r st) = nextNative st"
  "nextChunk (acceptNative r st) = nextChunk st" "hasCoverage (acceptNative r st) = hasCoverage st"
  "awaitingCoverage (acceptNative r st) = awaitingCoverage st"
  "nextCoverage (acceptNative r st) = nextCoverage st"
  "lastNative (acceptNative r st) = header r" "rootOk (acceptNative r st) = rootOk st"
  "active (acceptNative r st) = active st"
  by (auto simp: acceptNative_def firstChunk_def rootOk_def active_def)

lemma advanceNative_True:
  assumes "advanceNative cx r st = (True, st')"
  shows "\<not> awaitingCoverage st" and "\<not> chunkRejected cx (depthOf r) st"
    and "dc_totalLevelCount (depthOf r) = dt_totalLevelCount (acceptNative r st)"
    and "dc_partCount (depthOf r) = chunkParts (acceptNative r st)"
    and "isTransactionEnd r \<longleftrightarrow> \<not> announcesCoverage r \<and>
      unat (dc_partIndex (depthOf r)) + 1 = unat (dc_partCount (depthOf r)) \<and>
      unat (dc_transactionPartIndex (depthOf r)) + 1 = unat (dc_transactionPartCount (depthOf r))"
    and "st' = countChunk cx (acceptNative r st)"
  using assms by (auto simp: advanceNative_def acceptNative_def Let_def split: if_splits)

lemma acceptNative_chunk:
  assumes "open_inv st frames cur cov" and "advanceNative cx r st = (True, st')" and "\<not> isCoverage r"
    and "j < length (cur @ [r])"
  shows "chunk_ok (unat (nativeParts st)) (unat (nextNative st)) (unat (dt_totalLevelCount (acceptNative r st)))
      (unat (chunkParts (acceptNative r st))) j ((cur @ [r]) ! j)"
proof (cases "j < length cur")
  case True
  then have "nextChunk st \<noteq> 0" using assms(1) by (auto simp: open_defs)
  then have "dt_totalLevelCount (acceptNative r st) = dt_totalLevelCount st"
    "chunkParts (acceptNative r st) = chunkParts st" by (simp_all add: acceptNative_def)
  with True assms(1) show ?thesis by (simp add: open_defs nth_append)
next
  case False
  then have "j = unat (nextChunk st)" "(cur @ [r]) ! j = r"
    using assms(1,4) by (auto simp: open_defs nth_append less_Suc_eq)
  then show ?thesis
    using chunk_accepted(1) [OF advanceNative_True(2) [OF assms(2)] assms(3)]
      advanceNative_True(3,4) [OF assms(2)] by simp
qed

lemma acceptNative_members:
  assumes "members_inv st rs" and "rootOk st r" and "\<not> isTransactionEnd r"
    and "rh_sourceId (header r) \<noteq> 0"
    and "rh_sourceId (lastNative st) \<noteq> 0 \<Longrightarrow> sameOwner (header r) (lastNative st)"
  shows "members_inv (acceptNative r st) (rs @ [r])"
proof (cases "rs = []")
  case False
  then have "sameOwner (header r) (lastNative st)" using assms(1,5) by (simp add: members_inv_def)
  then show ?thesis using assms(1-4) by (auto simp: members_inv_def sameOwner_def)
qed (use assms in \<open>auto simp: members_inv_def sameOwner_def\<close>)

lemma members_sameRoot:
  assumes "members_inv st rs" and "rootOk st r"
    and "rh_sourceId (lastNative st) \<noteq> 0 \<Longrightarrow> sameOwner (header r) (lastNative st)"
  shows "\<forall>a \<in> set (rs @ [r]). rh_channel (header a) = chDepth \<and> (\<forall>b \<in> set (rs @ [r]). sameRoot a b)"
    and "\<forall>a \<in> set (rs @ [r]). announcesCoverage a = hasCoverage st"
proof -
  show "\<forall>a \<in> set (rs @ [r]). announcesCoverage a = hasCoverage st"
    using assms(1,2) by (auto simp: members_inv_def rootOk_def)
  have root: "\<forall>a \<in> set (rs @ [r]). rootOk st a" using assms(1,2) by (simp add: members_inv_def)
  have "\<forall>a \<in> set (rs @ [r]). \<forall>b \<in> set (rs @ [r]). sameOwner (header a) (header b)"
  proof (cases "rs = []")
    case False
    then have "sameOwner (header r) (lastNative st)" using assms(1,3) by (simp add: members_inv_def)
    then have "\<forall>a \<in> set (rs @ [r]). sameOwner (header a) (lastNative st)"
      using assms(1) by (simp add: members_inv_def)
    then show ?thesis by (simp add: sameOwner_def)
  qed (simp add: sameOwner_def)
  with root show "\<forall>a \<in> set (rs @ [r]). rh_channel (header a) = chDepth \<and> (\<forall>b \<in> set (rs @ [r]). sameRoot a b)"
    by (simp add: sameRoot_def rootOk_def)
qed

lemma frame_complete:
  assumes "open_inv st frames cur cov" and "advanceNative cx r st = (True, st')" and "\<not> isCoverage r"
    and "nextChunk st + 1 = chunkParts (acceptNative r st)"
  shows "frame_ok (unat (nativeParts st)) (unat (nextNative st)) (cur @ [r])"
proof -
  have acc: "\<not> chunkRejected cx (depthOf r) st" by (rule advanceNative_True(2) [OF assms(2)])
  have "length (cur @ [r]) = unat (chunkParts (acceptNative r st))"
    using assms(1,4) unat_inc [OF chunk_accepted(3) [OF acc assms(3)]] by (simp add: open_defs)
  moreover have "unat (chunkParts (acceptNative r st)) =
      parts_of (unat (dt_totalLevelCount (acceptNative r st)))"
    using chunk_accepted(2) [OF acc assms(3)] advanceNative_True(3,4) [OF assms(2)] by simp
  ultimately show ?thesis unfolding frame_ok_def
    using acceptNative_chunk [OF assms(1-3)] by (metis (no_types, lifting))
qed


text \<open>The end of a record's effect: either the transaction is still open, or it is complete.\<close>

definition extended :: "cxet \<Rightarrow> BinaryMarketDepthTransactionState \<Rightarrow> BinaryMarketRecord list \<Rightarrow> bool" where
  "extended cx st rs \<longleftrightarrow>
     (active st \<and> (\<exists>frames cur cov. rs = concat frames @ cur @ cov \<and> open_inv st frames cur cov)) \<or>
     (st = emptyDepthTransaction cx \<and> depthTransaction rs)"

lemma counter_updates [simp]:
  "rootOk (st\<lparr>nextChunk := x\<rparr>) = rootOk st" "rootOk (st\<lparr>nextNative := x\<rparr>) = rootOk st"
  "rootOk (st\<lparr>awaitingCoverage := b\<rparr>) = rootOk st" "rootOk (st\<lparr>nextCoverage := x\<rparr>) = rootOk st"
  "active (st\<lparr>nextChunk := x\<rparr>) = active st" "active (st\<lparr>nextNative := x\<rparr>) = active st"
  "active (st\<lparr>awaitingCoverage := b\<rparr>) = active st" "active (st\<lparr>nextCoverage := x\<rparr>) = active st"
  by (auto simp: rootOk_def active_def)

lemma native_facts:
  assumes inv: "open_inv st frames cur cov" and adv: "advanceNative cx r st = (True, st')"
    and nc: "\<not> isCoverage r" and root: "rootOk st r"
  shows "cov = []" and "nextCoverage st = 0" and "members_inv st (concat frames @ cur)"
    and "length frames = unat (nextNative st)" and "length cur = unat (nextChunk st)"
    and "unat (nextChunk st + 1) = unat (nextChunk st) + 1"
    and "unat (nextNative st + 1) = unat (nextNative st) + 1" and "nextNative st < nativeParts st"
    and "isTransactionEnd r \<longleftrightarrow> \<not> hasCoverage st \<and> nextChunk st + 1 = chunkParts (acceptNative r st) \<and>
      nextNative st + 1 = nativeParts st"
proof -
  note T = advanceNative_True [OF adv]
  have acc: "\<not> chunkRejected cx (depthOf r) st" by (rule T(2))
  show cov: "cov = []" "nextCoverage st = 0" using inv T(1) by (auto simp: open_defs unat_eq_0)
  show "members_inv st (concat frames @ cur)" using inv cov by (simp add: open_inv_def)
  show "length frames = unat (nextNative st)" "length cur = unat (nextChunk st)"
    using inv by (simp_all add: open_defs)
  show nn: "nextNative st < nativeParts st"
    using inv T(1) chunk_accepted(4) [OF acc nc] by (auto simp: open_inv_def)
  show inc: "unat (nextChunk st + 1) = unat (nextChunk st) + 1"
    "unat (nextNative st + 1) = unat (nextNative st) + 1"
    by (rule unat_inc [OF chunk_accepted(3) [OF acc nc]], rule unat_inc [OF nn])
  have "unat (dc_partIndex (depthOf r)) = unat (nextChunk st)"
    "unat (dc_transactionPartIndex (depthOf r)) = unat (nextNative st)"
    "unat (dc_transactionPartCount (depthOf r)) = unat (nativeParts st)"
    using chunk_accepted(1) [OF acc nc] by (simp_all add: chunk_ok_def)
  then show "isTransactionEnd r \<longleftrightarrow> \<not> hasCoverage st \<and> nextChunk st + 1 = chunkParts (acceptNative r st) \<and>
      nextNative st + 1 = nativeParts st"
    using T(4,5) root inc by (simp add: rootOk_def word_unat_eq_iff)
qed

lemma native_step_chunk:
  assumes inv: "open_inv st frames cur cov" and adv: "advanceNative cx r st = (True, st')"
    and act: "active st" and nc: "\<not> isCoverage r" and root: "rootOk st r"
    and sid: "rh_sourceId (header r) \<noteq> 0"
    and owner: "rh_sourceId (lastNative st) \<noteq> 0 \<Longrightarrow> sameOwner (header r) (lastNative st)"
    and more: "nextChunk st + 1 \<noteq> chunkParts (acceptNative r st)"
  shows "extended cx st' (concat frames @ cur @ cov @ [r])"
proof -
  note F = native_facts [OF inv adv nc root]
  have st': "st' = (acceptNative r st)\<lparr>nextChunk := nextChunk st + 1\<rparr>"
    using advanceNative_True(6) [OF adv] more by (simp add: countChunk_def)
  have "members_inv st' (concat frames @ cur @ [r])"
    using acceptNative_members [OF F(3) root _ sid owner] F(9) more by (simp add: st' members_inv_def)
  moreover have "chunks_inv st' (cur @ [r])"
    using acceptNative_chunk [OF inv adv nc] F(5,6) by (simp add: st' chunks_inv_def)
  ultimately have "open_inv st' frames (cur @ [r]) []"
    using inv F(1,2,8) advanceNative_True(1) [OF adv]
    by (simp add: st' open_inv_def frames_inv_def coverage_inv_def)
  moreover have "active st'" using act by (simp add: st')
  moreover have "concat frames @ cur @ cov @ [r] = concat frames @ (cur @ [r]) @ []" using F(1) by simp
  ultimately show ?thesis unfolding extended_def by blast
qed

lemma native_step_frame:
  assumes inv: "open_inv st frames cur cov" and adv: "advanceNative cx r st = (True, st')"
    and act: "active st" and nc: "\<not> isCoverage r" and root: "rootOk st r"
    and sid: "rh_sourceId (header r) \<noteq> 0"
    and owner: "rh_sourceId (lastNative st) \<noteq> 0 \<Longrightarrow> sameOwner (header r) (lastNative st)"
    and frame: "nextChunk st + 1 = chunkParts (acceptNative r st)"
    and more: "nextNative st + 1 \<noteq> nativeParts st \<or> hasCoverage st"
  shows "extended cx st' (concat frames @ cur @ cov @ [r])"
proof -
  note F = native_facts [OF inv adv nc root]
  let ?b = "nextNative st + 1 = nativeParts st"
  have aw: "\<not> awaitingCoverage st" by (rule advanceNative_True(1) [OF adv])
  then have st': "st' = (acceptNative r st)\<lparr>nextChunk := 0, nextNative := nextNative st + 1,
      awaitingCoverage := ?b\<rparr>"
    using advanceNative_True(6) [OF adv] frame more by (auto simp: countChunk_def Let_def)
  have "members_inv st' (concat (frames @ [cur @ [r]]))"
    using acceptNative_members [OF F(3) root _ sid owner] F(9) more by (auto simp: st' members_inv_def)
  moreover have "frames_inv st' (frames @ [cur @ [r]])"
    using frame_complete [OF inv adv nc frame] F(4,7) inv
    by (auto simp: st' frames_inv_def open_inv_def nth_append less_Suc_eq)
  moreover have "nextNative st + 1 \<le> nativeParts st"
    using F(7,8) by (simp add: word_le_nat_alt word_less_nat_alt)
  ultimately have "open_inv st' (frames @ [cur @ [r]]) [] []"
    using F(2) more by (auto simp: st' open_inv_def chunks_inv_def coverage_inv_def)
  moreover have "active st'" using act by (simp add: st')
  moreover have "concat frames @ cur @ cov @ [r] = concat (frames @ [cur @ [r]]) @ [] @ []" using F(1) by simp
  ultimately show ?thesis unfolding extended_def by blast
qed

lemma native_step_last:
  assumes inv: "open_inv st frames cur cov" and adv: "advanceNative cx r st = (True, st')"
    and nc: "\<not> isCoverage r" and root: "rootOk st r"
    and owner: "rh_sourceId (lastNative st) \<noteq> 0 \<Longrightarrow> sameOwner (header r) (lastNative st)"
    and frame: "nextChunk st + 1 = chunkParts (acceptNative r st)"
    and last: "nextNative st + 1 = nativeParts st" "\<not> hasCoverage st"
  shows "extended cx st' (concat frames @ cur @ cov @ [r])"
proof -
  note F = native_facts [OF inv adv nc root]
  let ?fs = "frames @ [cur @ [r]]"
  have st': "st' = emptyDepthTransaction cx"
    using advanceNative_True(6) [OF adv] frame last by (simp add: countChunk_def Let_def)
  have n: "length ?fs = unat (nativeParts st)" using F(4) F(7) [unfolded last(1)] by simp
  have "\<forall>i < length ?fs. frame_ok (length ?fs) i (?fs ! i)"
  proof (intro allI impI)
    fix i assume "i < length ?fs"
    then consider "i < length frames" | "i = length frames" by fastforce
    then show "frame_ok (length ?fs) i (?fs ! i)"
      unfolding n using frame_complete [OF inv adv nc frame] F(4) inv
      by cases (auto simp: frames_inv_def open_inv_def nth_append)
  qed
  moreover have "isTransactionEnd r" using F(9) frame last by simp
  moreover have "\<forall>a \<in> set (concat frames @ cur). \<not> isTransactionEnd a"
    using F(3) by (simp add: members_inv_def)
  ultimately have "depthTransaction (concat ?fs)"
    using members_sameRoot [OF F(3) root owner] last(2) unfolding depthTransaction_def
    by (intro conjI exI [of _ ?fs] exI [of _ "[]"] exI [of _ 0]) (auto simp: butlast_append)
  then show ?thesis using F(1) by (simp add: extended_def st')
qed

lemma native_step:
  assumes "open_inv st frames cur cov" and "advanceNative cx r st = (True, st')"
    and "active st" and "\<not> isCoverage r" and "rootOk st r" and "rh_sourceId (header r) \<noteq> 0"
    and "rh_sourceId (lastNative st) \<noteq> 0 \<Longrightarrow> sameOwner (header r) (lastNative st)"
  shows "extended cx st' (concat frames @ cur @ cov @ [r])"
  using native_step_chunk [OF assms] native_step_frame [OF assms] native_step_last [OF assms(1,2,4,5,7)]
  by blast

section \<open>Coverage records\<close>

lemma valid_coverage:
  assumes "validBinaryMarketRecord cx r" and "rh_channel (header r) = chDepth" and "isCoverage r"
  shows "cp_partIndex (coveragePayload_of (payload r)) < cp_partCount (coveragePayload_of (payload r))"
    and "isTransactionEnd r \<longleftrightarrow> unat (cp_partIndex (coveragePayload_of (payload r))) + 1 =
      unat (cp_partCount (coveragePayload_of (payload r)))"
proof -
  have ch: "chDepth \<noteq> chBookTicker" "chDepth \<noteq> chTrade" by (simp_all add: channel_defs)
  have "\<not> payloadRejected cx r" using assms(1) by (auto simp: validBinaryMarketRecord_def Let_def)
  then have "validBinaryMarketDepthCoveragePayload cx (coveragePayload_of (payload r))"
    and "isTransactionEnd r \<longleftrightarrow> unat (cp_partIndex (coveragePayload_of (payload r))) + 1 =
      unat (cp_partCount (coveragePayload_of (payload r)))"
    using assms(2,3) ch unfolding payloadRejected_def Let_def isCoverage_def isTransactionEnd_def by auto
  then show "cp_partIndex (coveragePayload_of (payload r)) < cp_partCount (coveragePayload_of (payload r))"
    and "isTransactionEnd r \<longleftrightarrow> unat (cp_partIndex (coveragePayload_of (payload r))) + 1 =
      unat (cp_partCount (coveragePayload_of (payload r)))"
    by (auto simp: validBinaryMarketDepthCoveragePayload_def Let_def not_le split: if_splits)
qed

definition acceptCoverage :: "BinaryMarketRecord \<Rightarrow> BinaryMarketDepthTransactionState \<Rightarrow>
    BinaryMarketDepthTransactionState" where
  "acceptCoverage r st = (let p = coveragePayload_of (payload r) in
     if nextCoverage st = 0
     then st\<lparr>dt_totalCoverageCount := cp_totalCoverageCount p, coverageParts := cp_partCount p\<rparr> else st)"

lemma acceptCoverage_simps [simp]:
  "nativeParts (acceptCoverage r st) = nativeParts st" "nextNative (acceptCoverage r st) = nextNative st"
  "nextChunk (acceptCoverage r st) = nextChunk st" "hasCoverage (acceptCoverage r st) = hasCoverage st"
  "awaitingCoverage (acceptCoverage r st) = awaitingCoverage st"
  "nextCoverage (acceptCoverage r st) = nextCoverage st"
  "lastNative (acceptCoverage r st) = lastNative st" "rootOk (acceptCoverage r st) = rootOk st"
  "active (acceptCoverage r st) = active st"
  by (auto simp: acceptCoverage_def Let_def rootOk_def active_def)

lemma advanceCoverage_True:
  assumes "advanceCoverage cx r st = (True, st')"
  shows "awaitingCoverage st" and "cp_transactionPartCount (coveragePayload_of (payload r)) = nativeParts st"
    and "cp_partIndex (coveragePayload_of (payload r)) = nextCoverage st"
    and "sameOwner (header r) (lastNative st)"
    and "cp_totalCoverageCount (coveragePayload_of (payload r)) = dt_totalCoverageCount (acceptCoverage r st)"
    and "cp_partCount (coveragePayload_of (payload r)) = coverageParts (acceptCoverage r st)"
    and "if nextCoverage st + 1 = coverageParts (acceptCoverage r st)
      then isTransactionEnd r \<and> st' = emptyDepthTransaction cx
      else st' = (acceptCoverage r st)\<lparr>nextCoverage := nextCoverage st + 1\<rparr>"
  using assms by (auto simp: advanceCoverage_def acceptCoverage_def Let_def sameEvent_def split: if_splits)

lemma acceptCoverage_ok:
  assumes "open_inv st frames cur cov" and "advanceCoverage cx r st = (True, st')" and "isCoverage r"
    and "k < length (cov @ [r])"
  shows "coverage_ok (unat (nativeParts st)) (unat (dt_totalCoverageCount (acceptCoverage r st)))
      (unat (coverageParts (acceptCoverage r st))) k ((cov @ [r]) ! k)"
proof (cases "k < length cov")
  case True
  then have "nextCoverage st \<noteq> 0" using assms(1) by (auto simp: open_defs)
  then have "acceptCoverage r st = st" by (simp add: acceptCoverage_def)
  with True assms(1) show ?thesis by (simp add: open_defs nth_append)
next
  case False
  then have "k = unat (nextCoverage st)" "(cov @ [r]) ! k = r"
    using assms(1,4) by (auto simp: open_defs nth_append less_Suc_eq)
  then show ?thesis using advanceCoverage_True(2,3,5,6) [OF assms(2)] assms(3) by (simp add: coverage_ok_def)
qed

lemma coverage_step:
  assumes inv: "open_inv st frames cur cov" and adv: "advanceCoverage cx r st = (True, st')"
    and act: "active st" and c: "isCoverage r" and root: "rootOk st r"
    and valid: "validBinaryMarketRecord cx r"
  shows "extended cx st' (concat frames @ cur @ cov @ [r])"
proof -
  note T = advanceCoverage_True [OF adv]
  have ch: "rh_channel (header r) = chDepth" using root by (simp add: rootOk_def)
  note V = valid_coverage [OF valid ch c, unfolded T(3,6)]
  have inc: "unat (nextCoverage st + 1) = unat (nextCoverage st) + 1" by (rule unat_inc [OF V(1)])
  have I: "cur = []" "frames \<noteq> []" "hasCoverage st" "nextNative st = nativeParts st" "nextChunk st = 0"
    and mem: "members_inv st (concat frames @ cov)" and len: "length cov = unat (nextCoverage st)"
    using inv T(1) by (auto simp: open_defs unat_eq_0)
  show ?thesis
  proof (cases "nextCoverage st + 1 = coverageParts (acceptCoverage r st)")
    case False
    then have st': "st' = (acceptCoverage r st)\<lparr>nextCoverage := nextCoverage st + 1\<rparr>" using T(7) by simp
    have "\<not> isTransactionEnd r" using V(2) False inc by (simp add: word_unat_eq_iff)
    moreover have "rh_sourceId (lastNative st) \<noteq> 0"
      using T(4) valid by (auto simp: sameOwner_def validBinaryMarketRecord_def Let_def split: if_splits)
    ultimately have "members_inv st' (concat frames @ cov @ [r])"
      using mem root T(4) by (simp add: st' members_inv_def)
    moreover have "coverage_inv st' (cov @ [r])"
      using acceptCoverage_ok [OF inv adv c] len inc by (simp add: st' coverage_inv_def)
    ultimately have "open_inv st' frames [] (cov @ [r])"
      using inv I T(1) by (simp add: st' open_inv_def frames_inv_def chunks_inv_def)
    moreover have "active st'" using act by (simp add: st')
    ultimately show ?thesis using I(1) unfolding extended_def by auto
  next
    case True
    then have "isTransactionEnd r" and st': "st' = emptyDepthTransaction cx" using T(7) by simp_all
    have "length (cov @ [r]) = unat (coverageParts (acceptCoverage r st))" using len inc True by simp
    moreover have n: "length frames = unat (nativeParts st)" using inv I(4) by (simp add: open_defs)
    ultimately have "\<forall>k < length (cov @ [r]). coverage_ok (length frames)
        (unat (dt_totalCoverageCount (acceptCoverage r st))) (length (cov @ [r])) k ((cov @ [r]) ! k)"
      using acceptCoverage_ok [OF inv adv c] by simp
    moreover have "\<forall>i < length frames. frame_ok (length frames) i (frames ! i)"
      using inv unfolding open_inv_def frames_inv_def n by metis
    moreover have "\<forall>a \<in> set (concat frames @ cov). \<not> isTransactionEnd a"
      using mem by (simp add: members_inv_def)
    ultimately have "depthTransaction ((concat frames @ cov) @ [r])"
      using members_sameRoot [OF mem root T(4)] I(2,3) \<open>isTransactionEnd r\<close> unfolding depthTransaction_def
      by (intro conjI exI [of _ frames] exI [of _ "cov @ [r]"]
          exI [of _ "unat (dt_totalCoverageCount (acceptCoverage r st))"]) (auto simp: butlast_append)
    then show ?thesis using I(1) by (simp add: extended_def st')
  qed
qed

section \<open>Every record\<close>

lemma step_extended:
  assumes "advanceBinaryMarketDepthTransaction cx r st = (True, st')" and "rh_channel (header r) = chDepth"
    and "open_inv st1 frames cur cov"
    and "st1 = (if active st then st else startTransaction r st)"
  shows "extended cx st' (concat frames @ cur @ cov @ [r])"
proof -
  have valid: "validBinaryMarketRecord cx r" and root: "rootOk st1 r"
    and owner: "rh_sourceId (lastNative st1) \<noteq> 0 \<Longrightarrow> sameOwner (header r) (lastNative st1)"
    and adv: "(if isCoverage r then advanceCoverage cx r st1 else advanceNative cx r st1) = (True, st')"
    using assms(1,2) unfolding assms(4) advanceBinaryMarketDepthTransaction_def Let_def rootOk_def
    by (auto split: if_splits)
  have "chDepth \<noteq> chSourceLifecycle" by (simp add: channel_defs)
  then have "rh_frameSequence (header r) \<noteq> 0" "rh_sourceId (header r) \<noteq> 0"
    using valid assms(2) by (auto simp: validBinaryMarketRecord_def Let_def split: if_splits)
  moreover from this root have "active st1" by (simp add: rootOk_def active_def)
  ultimately show ?thesis
    using coverage_step [OF assms(3) _ _ _ root valid] native_step [OF assms(3) _ _ _ root _ owner] adv
    by (auto split: if_splits)
qed

lemma transaction_step:
  assumes "transaction_inv cx hs st" and "advanceBinaryMarketDepthTransaction cx r st = (True, st')"
  shows "transaction_inv cx (hs @ [r]) st'"
proof (cases "rh_channel (header r) = chDepth")
  case False
  then have "\<not> active st" "st' = st" using assms(2) by (auto simp: advanceBinaryMarketDepthTransaction_def)
  then show ?thesis using assms(1) False completeRun_append [of hs "[r]"] by (auto simp: transaction_inv_def)
next
  case True
  let ?st1 = "if active st then st else startTransaction r st"
  obtain closed frames cur cov where hs: "hs = closed @ concat frames @ cur @ cov"
    and "completeRun closed" and "open_inv ?st1 frames cur cov"
  proof (cases "active st")
    case False
    then have "st = emptyDepthTransaction cx" "completeRun hs" using assms(1) by (simp_all add: transaction_inv_def)
    then show ?thesis using that [of hs "[]" "[]" "[]"] start_inv False by simp
  next
    case a: True
    then obtain closed frames cur cov where "hs = closed @ concat frames @ cur @ cov" "completeRun closed"
      "open_inv st frames cur cov" using assms(1) unfolding transaction_inv_def by auto
    then show ?thesis using that a by simp
  qed
  moreover from this have "extended cx st' (concat frames @ cur @ cov @ [r])"
    using step_extended [OF assms(2) True _ refl] by blast
  moreover have "\<not> active (emptyDepthTransaction cx)" by (simp add: active_def emptyDepthTransaction_def)
  ultimately consider frames' cur' cov' where "active st'"
      "hs @ [r] = closed @ concat frames' @ cur' @ cov'" "open_inv st' frames' cur' cov'"
    | "st' = emptyDepthTransaction cx" "\<not> active st'" "completeRun (hs @ [r])"
    using completeRun_append [of closed "concat frames @ cur @ cov @ [r]"]
    unfolding extended_def by auto
  then show ?thesis using \<open>completeRun closed\<close> by cases (auto simp: transaction_inv_def)
qed

interpretation depth_stream: checker "advanceBinaryMarketDepthTransaction cx" "\<lambda>r. True"
    "transaction_inv cx" for cx
  by unfold_locales (rule transaction_step)

section \<open>Properties\<close>

text \<open>A sample transaction: the snapshot and the delta of a rebase.\<close>

definition sample_open :: BinaryMarketDepthTransactionState where
  "sample_open = snd (advanceBinaryMarketDepthTransaction sample_cx sample_snapshot (emptyDepthTransaction sample_cx))"

lemmas sample_flags = isCoverage_def announcesCoverage_def isTransactionEnd_def

lemma sample_snapshot_step:
  "advanceBinaryMarketDepthTransaction sample_cx sample_snapshot (emptyDepthTransaction sample_cx) = (True, sample_open)"
proof -
  have "fst (advanceBinaryMarketDepthTransaction sample_cx sample_snapshot (emptyDepthTransaction sample_cx))"
    using sample_depth_valid(1)
    by (simp add: advanceBinaryMarketDepthTransaction_def advanceNative_def chunkRejected_def Let_def
        startTransaction_def active_def sample_flags emptyDepthTransaction_def emptyRecordHeader_def firstChunk_def
        sample_snapshot_def sample_headers sample_depthOf sample_simps sample_cx_def
        kBinaryMarketDepthLevelsPerRecord_def)
  then show ?thesis by (simp add: sample_open_def prod_eq_iff)
qed

lemma sample_delta_step:
  "advanceBinaryMarketDepthTransaction sample_cx sample_delta sample_open = (True, emptyDepthTransaction sample_cx)"
  using sample_depth_valid
  by (simp add: sample_open_def advanceBinaryMarketDepthTransaction_def advanceNative_def chunkRejected_def Let_def
      startTransaction_def active_def sample_flags emptyDepthTransaction_def emptyRecordHeader_def firstChunk_def
      countChunk_def sameOwner_def
      sample_snapshot_def sample_delta_def sample_headers sample_depthOf sample_simps sample_cx_def
      kBinaryMarketDepthLevelsPerRecord_def)

lemma sample_stream:
  "accept_all (advanceBinaryMarketDepthTransaction sample_cx) [sample_snapshot, sample_delta]
     (emptyDepthTransaction sample_cx) = Some (emptyDepthTransaction sample_cx)"
  "\<not> active (emptyDepthTransaction sample_cx)"
  by (simp add: sample_snapshot_step sample_delta_step) (simp add: active_def emptyDepthTransaction_def)

lemma stream_inv:
  assumes "accept_all (advanceBinaryMarketDepthTransaction cx) rs (emptyDepthTransaction cx) = Some st"
  shows "transaction_inv cx rs st"
proof -
  have "transaction_inv cx [] (emptyDepthTransaction cx)"
    by (simp add: transaction_inv_def active_def emptyDepthTransaction_def completeRun_def exI [of _ "[]"])
  then have "transaction_inv cx ([] @ rs) st"
    by (rule depth_stream.run_inv [OF _ _ assms]) (simp add: list_all_iff)
  then show ?thesis by simp
qed

lemma complete_stream:
  "accept_all (advanceBinaryMarketDepthTransaction cx) rs (emptyDepthTransaction cx) = Some st \<Longrightarrow>
     \<not> active st \<Longrightarrow> completeRun rs"
  using stream_inv by (auto simp: transaction_inv_def)

section \<open>Levels of a stream\<close>

definition isNative :: "BinaryMarketRecord \<Rightarrow> bool" where
  "isNative r \<longleftrightarrow> rh_channel (header r) = chDepth \<and> \<not> isCoverage r"

definition levelsCarried :: "BinaryMarketRecord list \<Rightarrow> nat" where
  "levelsCarried rs = (\<Sum>r \<leftarrow> rs. if isNative r then unat (dc_levelCount (depthOf r)) else 0)"

definition levelsAnnounced :: "BinaryMarketRecord list \<Rightarrow> nat" where
  "levelsAnnounced rs = (\<Sum>r \<leftarrow> rs. if isNative r \<and> dc_partIndex (depthOf r) = 0
     then unat (dc_totalLevelCount (depthOf r)) else 0)"

lemma levels_append:
  "levelsCarried (xs @ ys) = levelsCarried xs + levelsCarried ys"
  "levelsAnnounced (xs @ ys) = levelsAnnounced xs + levelsAnnounced ys"
  by (simp_all add: levelsCarried_def levelsAnnounced_def)

lemma levels_concat:
  "(\<And>x. x \<in> set xss \<Longrightarrow> levelsCarried x = levelsAnnounced x) \<Longrightarrow>
     levelsCarried (concat xss) = levelsAnnounced (concat xss)"
  by (induction xss) (simp_all add: levels_append, simp_all add: levelsCarried_def levelsAnnounced_def)

lemma levels_frame:
  assumes "frame_ok N i f" and "\<forall>r \<in> set f. rh_channel (header r) = chDepth"
  shows "levelsCarried f = levelsAnnounced f"
proof -
  obtain T where ok: "\<And>j. j < length f \<Longrightarrow> chunk_ok N i T (length f) j (f ! j)"
    using assms(1) by (auto simp: frame_ok_def)
  have nat: "\<forall>r \<in> set f. isNative r" using ok assms(2) by (auto simp: in_set_conv_nth isNative_def chunk_ok_def)
  then have "levelsCarried f = (\<Sum>r \<leftarrow> f. unat (dc_levelCount (depthOf r)))"
    unfolding levelsCarried_def by (intro arg_cong [of _ _ sum_list] map_cong) auto
  moreover obtain r rs where f: "f = r # rs" using frame_levels [OF assms(1)] by (cases f) auto
  moreover have "levelsAnnounced rs = 0"
  proof -
    have "dc_partIndex (depthOf x) \<noteq> 0" if "x \<in> set rs" for x
    proof -
      from that obtain j where "j < length rs" "x = f ! Suc j" by (auto simp: in_set_conv_nth f)
      then show ?thesis using ok [of "Suc j"] by (auto simp: f chunk_ok_def)
    qed
    then show ?thesis by (simp add: levelsAnnounced_def sum_list_eq_0_iff)
  qed
  moreover have "dc_partIndex (depthOf r) = 0" using ok [of 0] by (simp add: f chunk_ok_def unat_eq_0)
  ultimately show ?thesis using frame_levels [OF assms(1)] nat by (simp add: levelsAnnounced_def)
qed

lemma levels_transaction:
  assumes "depthTransaction tx"
  shows "levelsCarried tx = levelsAnnounced tx"
proof -
  obtain frames cov T where tx: "tx = concat frames @ cov"
    and fr: "\<forall>i < length frames. frame_ok (length frames) i (frames ! i)"
    and cov: "\<forall>k < length cov. coverage_ok (length frames) T (length cov) k (cov ! k)"
    and ch: "\<forall>a \<in> set tx. rh_channel (header a) = chDepth"
    using assms unfolding depthTransaction_def by blast
  have "levelsCarried f = levelsAnnounced f" if f: "f \<in> set frames" for f
  proof -
    obtain i where "i < length frames" "frames ! i = f" using f unfolding in_set_conv_nth by blast
    moreover have "\<forall>r \<in> set f. rh_channel (header r) = chDepth" using ch tx f by auto
    ultimately show ?thesis using fr levels_frame by blast
  qed
  then have "levelsCarried (concat frames) = levelsAnnounced (concat frames)" by (rule levels_concat)
  moreover have "\<forall>r \<in> set cov. \<not> isNative r"
    using cov by (auto simp: in_set_conv_nth isNative_def coverage_ok_def)
  then have "levelsCarried cov = 0" "levelsAnnounced cov = 0"
    by (simp_all add: levelsCarried_def levelsAnnounced_def sum_list_eq_0_iff)
  ultimately show ?thesis by (simp add: tx levels_append)
qed

lemma levels_run:
  assumes "completeRun rs"
  shows "levelsCarried rs = levelsAnnounced rs"
proof -
  obtain txs where rs: "rs = concat txs"
    and txs: "\<forall>tx \<in> set txs. depthTransaction tx \<or> (\<exists>r. tx = [r] \<and> rh_channel (header r) \<noteq> chDepth)"
    using assms unfolding completeRun_def by blast
  have other: "levelsCarried [r] = levelsAnnounced [r]" if "rh_channel (header r) \<noteq> chDepth" for r
    using that by (simp add: levelsCarried_def levelsAnnounced_def isNative_def)
  show ?thesis unfolding rs using txs levels_transaction other by (intro levels_concat) blast
qed

section \<open>Stream properties\<close>

text \<open>C8: Whatever records a shard delivers, a stream that is accepted and leaves no transaction open is a
  concatenation of complete depth transactions with other records only between them: nothing is
  interleaved. In each transaction the frames come in order, each with all its chunks in order,
  then exactly the announced coverage records; all records have the same frame sequence, arrival
  times and source; the end flag is on the last record and nowhere else.\<close>

theorem depth_transactions_complete:
  assumes "accept_all (advanceBinaryMarketDepthTransaction cx) rs (emptyDepthTransaction cx) = Some st"
    and "\<not> active st"
  shows "st = emptyDepthTransaction cx \<and> completeRun rs"
  using stream_inv [OF assms(1)] assms(2) by (simp add: transaction_inv_def)

theorem depth_transactions_complete_witness:
  "completeRun [sample_snapshot, sample_delta]"
  using depth_transactions_complete [OF sample_stream] by simp



end
