(* ===== verification/CorpusFiles.thy ===== *)
theory CorpusFiles
  imports CorpusRecord Crc
begin

text \<open>
  The fixed structs of the corpus files, \<^verbatim>\<open>CorpusContract/BinaryMarketCorpusFormat.hpp\<close> and
  \<^verbatim>\<open>CorpusContract/CorpusCut.hpp\<close>: manifest, table header, segment header and footer, block
  header, index entry, gap and block range, each with the image it has in memory and on disk
  and the view of such an image. A checksum member is computed over the image with that member
  zeroed, as \<^verbatim>\<open>headerCrc\<close> does.
\<close>

section \<open>Zeroed members\<close>

definition zero4 :: "nat \<Rightarrow> bytes \<Rightarrow> bytes" where
  "zero4 off bs = take off bs @ [0, 0, 0, 0] @ drop (off + 4) bs"

lemma le_put_zero: "le_put n 0 = replicate n 0"
  by (induction n) simp_all

lemma field_put_zero [simp]: "field_put 4 (0 :: u32) = [0, 0, 0, 0]"
  by (simp add: field_put_def le_put_zero numeral_Bit0)

lemma zero4_join:
  "length a = off \<Longrightarrow> zero4 off (a @ field_put 4 w @ post) = a @ [0, 0, 0, 0] @ post"
  by (simp add: zero4_def)

lemma length_zero4 [simp]: "off + 4 \<le> length bs \<Longrightarrow> length (zero4 off bs) = length bs"
  by (simp add: zero4_def)

section \<open>Manifest\<close>

definition stopRequested :: u8 where "stopRequested = 1"
definition stopParserDisconnected :: u8 where "stopParserDisconnected = 4"
definition stopError :: u8 where "stopError = 5"

lemmas stop_defs = stopRequested_def stopParserDisconnected_def stopError_def

record BinaryMarketManifestA =
  mf_magic :: u32
  mf_headerBytes :: u16
  mf_producerEpoch :: u64
  mf_startedReceiveNs :: i64
  mf_replayAnchorReceiveNs :: i64
  mf_replayAnchorMonotonicNs :: u64
  mf_finalizedReceiveNs :: i64
  mf_firstReceiveNs :: i64
  mf_lastReceiveNs :: i64

record BinaryMarketManifestB = BinaryMarketManifestA +
  mf_maximumBytes :: u64
  mf_segmentTargetBytes :: u64
  mf_projectedBytes :: u64
  mf_recordCount :: u64
  mf_gapCount :: u64
  mf_sourceCount :: u32
  mf_segmentCount :: u32
  mf_indexCount :: u32

record BinaryMarketManifest = BinaryMarketManifestB +
  mf_shardCount :: u16
  mf_stopReason :: u8
  mf_complete :: u8
  mf_sourcesCrc32c :: u32
  mf_indexCrc32c :: u32
  mf_gapsCrc32c :: u32
  mf_manifestCrc32c :: u32
  mf_reserved :: bytes

definition manifest_wf :: "BinaryMarketManifest \<Rightarrow> bool" where
  "manifest_wf m \<longleftrightarrow> length (mf_reserved m) = 40"

definition sizeof_Manifest :: nat where "sizeof_Manifest = 192"

definition manifest_prefix :: "BinaryMarketManifest \<Rightarrow> bytes" where
  "manifest_prefix m = field_put 4 (mf_magic m) @ field_put 2 (mf_headerBytes m) @ [0, 0] @
     field_put 8 (mf_producerEpoch m) @ field_put 8 (mf_startedReceiveNs m) @
     field_put 8 (mf_replayAnchorReceiveNs m) @ field_put 8 (mf_replayAnchorMonotonicNs m) @
     field_put 8 (mf_finalizedReceiveNs m) @ field_put 8 (mf_firstReceiveNs m) @
     field_put 8 (mf_lastReceiveNs m) @ field_put 8 (mf_maximumBytes m) @
     field_put 8 (mf_segmentTargetBytes m) @ field_put 8 (mf_projectedBytes m) @
     field_put 8 (mf_recordCount m) @ field_put 8 (mf_gapCount m) @ field_put 4 (mf_sourceCount m) @
     field_put 4 (mf_segmentCount m) @ field_put 4 (mf_indexCount m) @ field_put 2 (mf_shardCount m) @
     [mf_stopReason m, mf_complete m] @ field_put 4 (mf_sourcesCrc32c m) @
     field_put 4 (mf_indexCrc32c m) @ field_put 4 (mf_gapsCrc32c m)"

definition manifest_image :: "BinaryMarketManifest \<Rightarrow> bytes" where
  "manifest_image m = manifest_prefix m @ field_put 4 (mf_manifestCrc32c m) @ mf_reserved m @ replicate 16 0"

definition manifest_of :: "bytes \<Rightarrow> BinaryMarketManifest" where
  "manifest_of bs = \<lparr>mf_magic = field_get 0 4 bs, mf_headerBytes = field_get 4 2 bs,
     mf_producerEpoch = field_get 8 8 bs, mf_startedReceiveNs = field_get 16 8 bs,
     mf_replayAnchorReceiveNs = field_get 24 8 bs, mf_replayAnchorMonotonicNs = field_get 32 8 bs,
     mf_finalizedReceiveNs = field_get 40 8 bs, mf_firstReceiveNs = field_get 48 8 bs,
     mf_lastReceiveNs = field_get 56 8 bs, mf_maximumBytes = field_get 64 8 bs,
     mf_segmentTargetBytes = field_get 72 8 bs, mf_projectedBytes = field_get 80 8 bs,
     mf_recordCount = field_get 88 8 bs, mf_gapCount = field_get 96 8 bs,
     mf_sourceCount = field_get 104 4 bs, mf_segmentCount = field_get 108 4 bs,
     mf_indexCount = field_get 112 4 bs, mf_shardCount = field_get 116 2 bs,
     mf_stopReason = byte_at 118 bs, mf_complete = byte_at 119 bs,
     mf_sourcesCrc32c = field_get 120 4 bs, mf_indexCrc32c = field_get 124 4 bs,
     mf_gapsCrc32c = field_get 128 4 bs, mf_manifestCrc32c = field_get 132 4 bs,
     mf_reserved = slice 136 40 bs\<rparr>"

lemma length_manifest_prefix [simp]: "length (manifest_prefix m) = 132"
  by (simp add: manifest_prefix_def)

lemma length_manifest_image [simp]: "manifest_wf m \<Longrightarrow> length (manifest_image m) = 192"
  by (simp add: manifest_image_def manifest_wf_def)

lemma manifest_of_image: "manifest_wf m \<Longrightarrow> manifest_of (manifest_image m) = m"
  unfolding manifest_of_def manifest_image_def manifest_prefix_def manifest_wf_def
  by (simp add: layout_simps)

lemma zero4_manifest: "zero4 132 (manifest_image m) = manifest_image (m\<lparr>mf_manifestCrc32c := 0\<rparr>)"
  unfolding manifest_image_def by (subst zero4_join) (simp_all add: manifest_prefix_def)

section \<open>Table header\<close>

record BinaryMarketTableHeader =
  th_magic :: u32
  th_headerBytes :: u16
  th_recordBytes :: u32
  th_recordCount :: u32
  th_recordsCrc32c :: u32
  th_headerCrc32c :: u32
  th_reserved :: bytes

definition tableHeader_image :: "BinaryMarketTableHeader \<Rightarrow> bytes" where
  "tableHeader_image h = (field_put 4 (th_magic h) @ field_put 2 (th_headerBytes h) @ [0, 0] @
     field_put 4 (th_recordBytes h) @ field_put 4 (th_recordCount h) @ field_put 4 (th_recordsCrc32c h)) @
     field_put 4 (th_headerCrc32c h) @ th_reserved h"

definition tableHeader_of :: "bytes \<Rightarrow> BinaryMarketTableHeader" where
  "tableHeader_of bs = \<lparr>th_magic = field_get 0 4 bs, th_headerBytes = field_get 4 2 bs,
     th_recordBytes = field_get 8 4 bs, th_recordCount = field_get 12 4 bs,
     th_recordsCrc32c = field_get 16 4 bs, th_headerCrc32c = field_get 20 4 bs,
     th_reserved = slice 24 40 bs\<rparr>"

lemma length_tableHeader_image [simp]:
  "length (th_reserved h) = 40 \<Longrightarrow> length (tableHeader_image h) = 64"
  by (simp add: tableHeader_image_def)

lemma tableHeader_of_image: "length (th_reserved h) = 40 \<Longrightarrow> tableHeader_of (tableHeader_image h) = h"
  unfolding tableHeader_of_def tableHeader_image_def by (simp add: layout_simps)

lemma zero4_tableHeader: "zero4 20 (tableHeader_image h) = tableHeader_image (h\<lparr>th_headerCrc32c := 0\<rparr>)"
  unfolding tableHeader_image_def by (subst zero4_join) simp_all

section \<open>Segment header and footer\<close>

record BinaryMarketSegmentHeaderA =
  sh_magic :: u32
  sh_headerBytes :: u16
  sh_recordBytes :: u32
  sh_segmentNumber :: u32
  sh_producerEpoch :: u64
  sh_recordCount :: u64
  sh_firstReceiveNs :: i64
  sh_lastReceiveNs :: i64

record BinaryMarketSegmentHeader = BinaryMarketSegmentHeaderA +
  sh_shardIndex :: u16
  sh_reserved16 :: u16
  sh_recordsCrc32c :: u32
  sh_headerCrc32c :: u32
  sh_storedBlockBytes :: u64
  sh_blockCount :: u32
  sh_codecId :: u32
  sh_reserved :: bytes

definition sizeof_SegmentHeader :: nat where "sizeof_SegmentHeader = 128"

definition segmentHeader_image :: "BinaryMarketSegmentHeader \<Rightarrow> bytes" where
  "segmentHeader_image h = (field_put 4 (sh_magic h) @ field_put 2 (sh_headerBytes h) @ [0, 0] @
     field_put 4 (sh_recordBytes h) @ field_put 4 (sh_segmentNumber h) @ field_put 8 (sh_producerEpoch h) @
     field_put 8 (sh_recordCount h) @ field_put 8 (sh_firstReceiveNs h) @ field_put 8 (sh_lastReceiveNs h) @
     field_put 2 (sh_shardIndex h) @ field_put 2 (sh_reserved16 h) @ field_put 4 (sh_recordsCrc32c h)) @
     field_put 4 (sh_headerCrc32c h) @ [0, 0, 0, 0] @ field_put 8 (sh_storedBlockBytes h) @
     field_put 4 (sh_blockCount h) @ field_put 4 (sh_codecId h) @ sh_reserved h"

definition segmentHeader_of :: "bytes \<Rightarrow> BinaryMarketSegmentHeader" where
  "segmentHeader_of bs = \<lparr>sh_magic = field_get 0 4 bs, sh_headerBytes = field_get 4 2 bs,
     sh_recordBytes = field_get 8 4 bs, sh_segmentNumber = field_get 12 4 bs,
     sh_producerEpoch = field_get 16 8 bs, sh_recordCount = field_get 24 8 bs,
     sh_firstReceiveNs = field_get 32 8 bs, sh_lastReceiveNs = field_get 40 8 bs,
     sh_shardIndex = field_get 48 2 bs, sh_reserved16 = field_get 50 2 bs,
     sh_recordsCrc32c = field_get 52 4 bs, sh_headerCrc32c = field_get 56 4 bs,
     sh_storedBlockBytes = field_get 64 8 bs, sh_blockCount = field_get 72 4 bs,
     sh_codecId = field_get 76 4 bs, sh_reserved = slice 80 48 bs\<rparr>"

lemma length_segmentHeader_image [simp]:
  "length (sh_reserved h) = 48 \<Longrightarrow> length (segmentHeader_image h) = 128"
  by (simp add: segmentHeader_image_def)

lemma segmentHeader_of_image: "length (sh_reserved h) = 48 \<Longrightarrow> segmentHeader_of (segmentHeader_image h) = h"
  unfolding segmentHeader_of_def segmentHeader_image_def by (simp add: layout_simps)

lemma zero4_segmentHeader: "zero4 56 (segmentHeader_image h) = segmentHeader_image (h\<lparr>sh_headerCrc32c := 0\<rparr>)"
  unfolding segmentHeader_image_def by (subst zero4_join) simp_all

record BinaryMarketSegmentFooter =
  sf_magic :: u32
  sf_footerBytes :: u16
  sf_segmentNumber :: u32
  sf_recordsCrc32c :: u32
  sf_recordCount :: u64
  sf_firstReceiveNs :: i64
  sf_lastReceiveNs :: i64
  sf_footerCrc32c :: u32
  sf_reserved :: bytes

definition sizeof_SegmentFooter :: nat where "sizeof_SegmentFooter = 64"

definition segmentFooter_image :: "BinaryMarketSegmentFooter \<Rightarrow> bytes" where
  "segmentFooter_image f = (field_put 4 (sf_magic f) @ field_put 2 (sf_footerBytes f) @ [0, 0] @
     field_put 4 (sf_segmentNumber f) @ field_put 4 (sf_recordsCrc32c f) @ field_put 8 (sf_recordCount f) @
     field_put 8 (sf_firstReceiveNs f) @ field_put 8 (sf_lastReceiveNs f)) @
     field_put 4 (sf_footerCrc32c f) @ sf_reserved f"

definition segmentFooter_of :: "bytes \<Rightarrow> BinaryMarketSegmentFooter" where
  "segmentFooter_of bs = \<lparr>sf_magic = field_get 0 4 bs, sf_footerBytes = field_get 4 2 bs,
     sf_segmentNumber = field_get 8 4 bs, sf_recordsCrc32c = field_get 12 4 bs,
     sf_recordCount = field_get 16 8 bs, sf_firstReceiveNs = field_get 24 8 bs,
     sf_lastReceiveNs = field_get 32 8 bs, sf_footerCrc32c = field_get 40 4 bs,
     sf_reserved = slice 44 20 bs\<rparr>"

lemma length_segmentFooter_image [simp]:
  "length (sf_reserved f) = 20 \<Longrightarrow> length (segmentFooter_image f) = 64"
  by (simp add: segmentFooter_image_def)

lemma segmentFooter_of_image: "length (sf_reserved f) = 20 \<Longrightarrow> segmentFooter_of (segmentFooter_image f) = f"
  unfolding segmentFooter_of_def segmentFooter_image_def by (simp add: layout_simps)

lemma zero4_segmentFooter: "zero4 40 (segmentFooter_image f) = segmentFooter_image (f\<lparr>sf_footerCrc32c := 0\<rparr>)"
  unfolding segmentFooter_image_def by (subst zero4_join) simp_all

section \<open>Block header and range\<close>

record BinaryMarketBlockHeader =
  bk_magic :: u32
  bk_headerBytes :: u16
  bk_blockNumber :: u32
  bk_recordCount :: u32
  bk_rawBytes :: u32
  bk_encodedBytes :: u32
  bk_rawCrc32c :: u32
  bk_encodedCrc32c :: u32
  bk_firstShardSequence :: u64
  bk_lastShardSequence :: u64
  bk_headerCrc32c :: u32
  bk_channel :: u8
  bk_reserved :: bytes

definition sizeof_BlockHeader :: nat where "sizeof_BlockHeader = 64"

definition blockHeader_wf :: "BinaryMarketBlockHeader \<Rightarrow> bool" where
  "blockHeader_wf b \<longleftrightarrow> length (bk_reserved b) = 11"

definition marketBlock_image :: "BinaryMarketBlockHeader \<Rightarrow> bytes" where
  "marketBlock_image b = (field_put 4 (bk_magic b) @ field_put 2 (bk_headerBytes b) @ [0, 0] @
     field_put 4 (bk_blockNumber b) @ field_put 4 (bk_recordCount b) @ field_put 4 (bk_rawBytes b) @
     field_put 4 (bk_encodedBytes b) @ field_put 4 (bk_rawCrc32c b) @ field_put 4 (bk_encodedCrc32c b) @
     field_put 8 (bk_firstShardSequence b) @ field_put 8 (bk_lastShardSequence b)) @
     field_put 4 (bk_headerCrc32c b) @ [bk_channel b] @ bk_reserved b"

definition marketBlock_of :: "bytes \<Rightarrow> BinaryMarketBlockHeader" where
  "marketBlock_of bs = \<lparr>bk_magic = field_get 0 4 bs, bk_headerBytes = field_get 4 2 bs,
     bk_blockNumber = field_get 8 4 bs, bk_recordCount = field_get 12 4 bs, bk_rawBytes = field_get 16 4 bs,
     bk_encodedBytes = field_get 20 4 bs, bk_rawCrc32c = field_get 24 4 bs,
     bk_encodedCrc32c = field_get 28 4 bs, bk_firstShardSequence = field_get 32 8 bs,
     bk_lastShardSequence = field_get 40 8 bs, bk_headerCrc32c = field_get 48 4 bs,
     bk_channel = byte_at 52 bs, bk_reserved = slice 53 11 bs\<rparr>"

lemma length_marketBlock_image [simp]: "blockHeader_wf b \<Longrightarrow> length (marketBlock_image b) = 64"
  by (simp add: marketBlock_image_def blockHeader_wf_def)

lemma marketBlock_of_image: "blockHeader_wf b \<Longrightarrow> marketBlock_of (marketBlock_image b) = b"
  unfolding marketBlock_of_def marketBlock_image_def blockHeader_wf_def by (simp add: layout_simps)

lemma zero4_marketBlock: "zero4 48 (marketBlock_image b) = marketBlock_image (b\<lparr>bk_headerCrc32c := 0\<rparr>)"
  unfolding marketBlock_image_def by (subst zero4_join) simp_all

record CorpusBlockRange =
  cr_offset :: u64
  cr_firstMonotonicNs :: u64
  cr_lastMonotonicNs :: u64
  cr_segmentNumber :: u32
  cr_shardIndex :: u16
  cr_reserved :: u16
  cr_header :: BinaryMarketBlockHeader

definition sizeof_BlockRange :: nat where "sizeof_BlockRange = 96"

definition range_wf :: "CorpusBlockRange \<Rightarrow> bool" where
  "range_wf r \<longleftrightarrow> blockHeader_wf (cr_header r)"

definition range_image :: "CorpusBlockRange \<Rightarrow> bytes" where
  "range_image r = field_put 8 (cr_offset r) @ field_put 8 (cr_firstMonotonicNs r) @
     field_put 8 (cr_lastMonotonicNs r) @ field_put 4 (cr_segmentNumber r) @ field_put 2 (cr_shardIndex r) @
     field_put 2 (cr_reserved r) @ marketBlock_image (cr_header r)"

definition range_of :: "bytes \<Rightarrow> CorpusBlockRange" where
  "range_of bs = \<lparr>cr_offset = field_get 0 8 bs, cr_firstMonotonicNs = field_get 8 8 bs,
     cr_lastMonotonicNs = field_get 16 8 bs, cr_segmentNumber = field_get 24 4 bs,
     cr_shardIndex = field_get 28 2 bs, cr_reserved = field_get 30 2 bs,
     cr_header = marketBlock_of (slice 32 64 bs)\<rparr>"

lemma length_range_image [simp]: "range_wf r \<Longrightarrow> length (range_image r) = 96"
  by (simp add: range_image_def range_wf_def)

lemma range_of_image: "range_wf r \<Longrightarrow> range_of (range_image r) = r"
  unfolding range_of_def range_image_def range_wf_def by (simp add: layout_simps marketBlock_of_image)

section \<open>Index entries and gaps\<close>

definition IndexHasGap :: u32 where "IndexHasGap = 1"
definition IndexHasRecordedOnly :: u32 where "IndexHasRecordedOnly = 2"

record BinaryMarketIndexEntry =
  ix_segmentNumber :: u32
  ix_sourceId :: u32
  ix_sourceGeneration :: u64
  ix_recordCount :: u64
  ix_gapCount :: u64
  ix_firstEventSequence :: u64
  ix_lastEventSequence :: u64
  ix_firstReceiveNs :: i64
  ix_lastReceiveNs :: i64
  ix_flags :: u32
  ix_shardIndex :: u16
  ix_channel :: u8
  ix_compatibility :: u8

definition sizeof_IndexEntry :: nat where "sizeof_IndexEntry = 72"

definition indexEntry_image :: "BinaryMarketIndexEntry \<Rightarrow> bytes" where
  "indexEntry_image e = field_put 4 (ix_segmentNumber e) @ field_put 4 (ix_sourceId e) @
     field_put 8 (ix_sourceGeneration e) @ field_put 8 (ix_recordCount e) @ field_put 8 (ix_gapCount e) @
     field_put 8 (ix_firstEventSequence e) @ field_put 8 (ix_lastEventSequence e) @
     field_put 8 (ix_firstReceiveNs e) @ field_put 8 (ix_lastReceiveNs e) @ field_put 4 (ix_flags e) @
     field_put 2 (ix_shardIndex e) @ [ix_channel e, ix_compatibility e]"

definition indexEntry_of :: "bytes \<Rightarrow> BinaryMarketIndexEntry" where
  "indexEntry_of bs = \<lparr>ix_segmentNumber = field_get 0 4 bs, ix_sourceId = field_get 4 4 bs,
     ix_sourceGeneration = field_get 8 8 bs, ix_recordCount = field_get 16 8 bs,
     ix_gapCount = field_get 24 8 bs, ix_firstEventSequence = field_get 32 8 bs,
     ix_lastEventSequence = field_get 40 8 bs, ix_firstReceiveNs = field_get 48 8 bs,
     ix_lastReceiveNs = field_get 56 8 bs, ix_flags = field_get 64 4 bs, ix_shardIndex = field_get 68 2 bs,
     ix_channel = byte_at 70 bs, ix_compatibility = byte_at 71 bs\<rparr>"

lemma length_indexEntry_image [simp]: "length (indexEntry_image e) = 72"
  by (simp add: indexEntry_image_def)

lemma indexEntry_of_image: "indexEntry_of (indexEntry_image e) = e"
  unfolding indexEntry_of_def indexEntry_image_def by (simp add: layout_simps)

record BinaryMarketGap =
  gp_sourceId :: u32
  gp_reserved32 :: u32
  gp_sourceGeneration :: u64
  gp_gapEpoch :: u64
  gp_droppedRecords :: u64
  gp_firstDroppedEventSequence :: u64
  gp_lastDroppedEventSequence :: u64
  gp_minimumDroppedReceiveNs :: i64
  gp_maximumDroppedReceiveNs :: i64
  gp_observedReceiveNs :: i64
  gp_shardIndex :: u16
  gp_channel :: u8
  gp_reserved8 :: u8

definition sizeof_Gap :: nat where "sizeof_Gap = 80"

definition gap_image :: "BinaryMarketGap \<Rightarrow> bytes" where
  "gap_image g = field_put 4 (gp_sourceId g) @ field_put 4 (gp_reserved32 g) @
     field_put 8 (gp_sourceGeneration g) @ field_put 8 (gp_gapEpoch g) @ field_put 8 (gp_droppedRecords g) @
     field_put 8 (gp_firstDroppedEventSequence g) @ field_put 8 (gp_lastDroppedEventSequence g) @
     field_put 8 (gp_minimumDroppedReceiveNs g) @ field_put 8 (gp_maximumDroppedReceiveNs g) @
     field_put 8 (gp_observedReceiveNs g) @ field_put 2 (gp_shardIndex g) @
     [gp_channel g, gp_reserved8 g] @ [0, 0, 0, 0]"

definition gap_of :: "bytes \<Rightarrow> BinaryMarketGap" where
  "gap_of bs = \<lparr>gp_sourceId = field_get 0 4 bs, gp_reserved32 = field_get 4 4 bs,
     gp_sourceGeneration = field_get 8 8 bs, gp_gapEpoch = field_get 16 8 bs,
     gp_droppedRecords = field_get 24 8 bs, gp_firstDroppedEventSequence = field_get 32 8 bs,
     gp_lastDroppedEventSequence = field_get 40 8 bs, gp_minimumDroppedReceiveNs = field_get 48 8 bs,
     gp_maximumDroppedReceiveNs = field_get 56 8 bs, gp_observedReceiveNs = field_get 64 8 bs,
     gp_shardIndex = field_get 72 2 bs, gp_channel = byte_at 74 bs, gp_reserved8 = byte_at 75 bs\<rparr>"

lemma length_gap_image [simp]: "length (gap_image g) = 80"
  by (simp add: gap_image_def)

lemma gap_of_image: "gap_of (gap_image g) = g"
  unfolding gap_of_def gap_image_def by (simp add: layout_simps)

section \<open>Producer progress\<close>

record CorpusProducerProgress =
  pg_producerEpoch :: u64
  pg_safeMonotonicNs :: u64
  pg_lossEpoch :: u64
  pg_directoryRevision :: u64
  pg_shardSequences :: "u64 list"
  pg_shardCount :: u16

definition progress_wf :: "CorpusProducerProgress \<Rightarrow> bool" where
  "progress_wf p \<longleftrightarrow> length (pg_shardSequences p) = kBinaryMarketMaximumShards"

definition progress_image :: "CorpusProducerProgress \<Rightarrow> bytes" where
  "progress_image p = field_put 8 (pg_producerEpoch p) @ field_put 8 (pg_safeMonotonicNs p) @
     field_put 8 (pg_lossEpoch p) @ field_put 8 (pg_directoryRevision p) @
     concat (map (field_put 8) (pg_shardSequences p)) @ field_put 2 (pg_shardCount p) @ replicate 6 0"

definition progress_of :: "bytes \<Rightarrow> CorpusProducerProgress" where
  "progress_of bs = \<lparr>pg_producerEpoch = field_get 0 8 bs, pg_safeMonotonicNs = field_get 8 8 bs,
     pg_lossEpoch = field_get 16 8 bs, pg_directoryRevision = field_get 24 8 bs,
     pg_shardSequences = map (\<lambda>i. field_get (32 + 8 * i) 8 bs) [0..<kBinaryMarketMaximumShards],
     pg_shardCount = field_get 544 2 bs\<rparr>"

section \<open>Arrays of fixed size elements\<close>

text \<open>A contiguous array is the concatenation of the images of its elements; element \<open>i\<close> is the
  slice at \<open>i * n\<close>.\<close>

definition array_of :: "nat \<Rightarrow> (bytes \<Rightarrow> 'a) \<Rightarrow> nat \<Rightarrow> bytes \<Rightarrow> 'a list" where
  "array_of n f count bs = map (\<lambda>i. f (slice (i * n) n bs)) [0..<count]"

lemma slice_concat:
  assumes "\<forall>x \<in> set xs. length x = n" and "i < length xs"
  shows "slice (i * n) n (concat xs @ post) = xs ! i"
  using assms
proof (induction xs arbitrary: i)
  case (Cons x xs)
  then show ?case
  proof (cases i)
    case (Suc j)
    then have "slice (i * n) n (concat (x # xs) @ post) = slice (j * n) n (concat xs @ post)"
      using Cons.prems by (simp add: slice_skip)
    with Cons Suc show ?thesis by simp
  qed (simp add: slice_here)
qed simp

lemma array_of_concat:
  assumes "\<forall>x \<in> set xs. length (g x) = n \<and> f (g x) = x"
  shows "array_of n f (length xs) (concat (map g xs) @ post) = xs"
  using assms slice_concat [of "map g xs" n] by (intro nth_equalityI) (auto simp: array_of_def)

lemma length_concat_map: "\<forall>x \<in> set xs. length (g x) = n \<Longrightarrow> length (concat (map g xs)) = length xs * n"
  by (induction xs) simp_all

lemma length_progress_image [simp]: "progress_wf p \<Longrightarrow> length (progress_image p) = 552"
  by (simp add: progress_image_def progress_wf_def kBinaryMarketMaximumShards_def length_concat_map [where n = 8])

lemma progress_of_image:
  assumes "progress_wf p"
  shows "progress_of (progress_image p @ post) = p"
proof -
  have len: "length (concat (map (field_put 8) (pg_shardSequences p))) = 512"
    using assms by (simp add: progress_wf_def kBinaryMarketMaximumShards_def length_concat_map [where n = 8])
  have nth: "field_get (8 * i) 8 (concat (map (field_put 8) (pg_shardSequences p)) @ rest) = pg_shardSequences p ! i"
    if "i < 64" for i rest
    using slice_concat [of "map (field_put 8) (pg_shardSequences p)" 8 i rest] that assms
    by (simp add: field_get_def progress_wf_def kBinaryMarketMaximumShards_def mult.commute layout_simps)
  have "map (\<lambda>i. field_get (32 + 8 * i) 8 (progress_image p @ post)) [0..<64] = pg_shardSequences p"
    using nth assms by (intro nth_equalityI)
      (auto simp: progress_image_def progress_wf_def kBinaryMarketMaximumShards_def layout_simps)
  then show ?thesis using len unfolding progress_of_def kBinaryMarketMaximumShards_def
    by (simp add: progress_image_def layout_simps)
qed

end
