(* ===== verification/Metadata.thy ===== *)
theory Metadata
  imports CorpusFiles
begin

text \<open>
  Sealing and checking of the metadata files: what \<^verbatim>\<open>writeManifestAtomic\<close> and
  \<^verbatim>\<open>writeTableAtomic\<close> of the writer store, and the checks of
  \<^verbatim>\<open>Corpus/BinaryMarketMetadataValidation.hpp\<close> that every reader applies. The checks take the
  bytes of the struct as they were read, padding included.
\<close>

section \<open>Manifest\<close>

definition sealManifest :: "BinaryMarketManifest \<Rightarrow> BinaryMarketManifest" where
  "sealManifest m = (let m' = m\<lparr>mf_headerBytes := 192, mf_manifestCrc32c := 0\<rparr> in
     m'\<lparr>mf_manifestCrc32c := crc32c (manifest_image m')\<rparr>)"

definition manifestFieldsInvalid :: "BinaryMarketManifest \<Rightarrow> bool" where
  "manifestFieldsInvalid m \<longleftrightarrow>
     mf_magic m \<noteq> kBinaryMarketManifestMagic \<or> unat (mf_headerBytes m) \<noteq> sizeof_Manifest \<or>
     mf_producerEpoch m = 0 \<or> sint (mf_startedReceiveNs m) \<le> 0 \<or>
     sint (mf_replayAnchorReceiveNs m) \<le> 0 \<or> mf_replayAnchorMonotonicNs m = 0 \<or>
     sint (mf_finalizedReceiveNs m) < sint (mf_startedReceiveNs m) \<or>
     sint (mf_replayAnchorReceiveNs m) < sint (mf_startedReceiveNs m) \<or>
     sint (mf_finalizedReceiveNs m) < sint (mf_replayAnchorReceiveNs m) \<or>
     mf_maximumBytes m = 0 \<or>
     unat (mf_segmentTargetBytes m) < sizeof_SegmentHeader + sizeof_BinaryMarketRecord + sizeof_SegmentFooter \<or>
     mf_projectedBytes m = 0 \<or> mf_maximumBytes m < mf_projectedBytes m \<or>
     mf_sourceCount m = 0 \<or> kBinaryMarketMaximumSources < unat (mf_sourceCount m) \<or>
     mf_shardCount m = 0 \<or> kBinaryMarketMaximumShards < unat (mf_shardCount m) \<or> mf_complete m \<noteq> 1 \<or>
     mf_stopReason m < stopRequested \<or> stopParserDisconnected < mf_stopReason m"

definition manifestCountsInvalid :: "BinaryMarketManifest \<Rightarrow> bool" where
  "manifestCountsInvalid m =
     (let hasRecords = (mf_recordCount m \<noteq> 0);
          maximumGapCount = unat (mf_sourceCount m) * kBinaryMarketStoredChannelCount in
      maximumGapCount < unat (mf_gapCount m) \<or>
      unat (mf_maximumBytes m) div sizeof_IndexEntry < unat (mf_indexCount m) \<or>
      mf_indexCount m < mf_segmentCount m \<or>
      hasRecords \<noteq> (mf_segmentCount m \<noteq> 0) \<or> hasRecords \<noteq> (mf_indexCount m \<noteq> 0) \<or>
      (if hasRecords then sint (mf_firstReceiveNs m) \<le> 0 else mf_firstReceiveNs m \<noteq> 0) \<or>
      (if hasRecords then sint (mf_lastReceiveNs m) \<le> 0 else mf_lastReceiveNs m \<noteq> 0) \<or>
      (hasRecords \<and> sint (mf_lastReceiveNs m) < sint (mf_firstReceiveNs m)) \<or>
      \<not> all_zero (mf_reserved m))"

definition validSealedManifest :: "bytes \<Rightarrow> bool" where
  "validSealedManifest bs =
     (let m = manifest_of bs; calculated = crc32c (zero4 132 bs) in
      if manifestFieldsInvalid m \<or> manifestCountsInvalid m \<or> mf_manifestCrc32c m \<noteq> calculated
      then False else True)"

lemma sealManifest_simps [simp]:
  "manifest_wf (sealManifest m) = manifest_wf m"
  "manifestCountsInvalid (sealManifest m) = manifestCountsInvalid m"
  by (simp_all add: sealManifest_def Let_def manifest_wf_def manifestCountsInvalid_def)

lemma validSealedManifest_seal:
  assumes "manifest_wf m"
  shows "validSealedManifest (manifest_image (sealManifest m)) \<longleftrightarrow>
    \<not> manifestFieldsInvalid (m\<lparr>mf_headerBytes := 192\<rparr>) \<and> \<not> manifestCountsInvalid m"
proof -
  have wf: "manifest_wf (sealManifest m)" using assms by simp
  have crc: "mf_manifestCrc32c (sealManifest m) = crc32c (zero4 132 (manifest_image (sealManifest m)))"
    by (simp add: zero4_manifest) (simp add: sealManifest_def Let_def)
  have "manifestFieldsInvalid (sealManifest m) = manifestFieldsInvalid (m\<lparr>mf_headerBytes := 192\<rparr>)"
    by (simp add: sealManifest_def Let_def manifestFieldsInvalid_def)
  then show ?thesis using crc by (simp add: validSealedManifest_def Let_def manifest_of_image [OF wf])
qed

section \<open>Tables\<close>

lemma unat_lt64: "unat (w :: u64) < 2 ^ 64"
  using unsigned_less [of w, where 'a = nat] by simp

text \<open>The file \<^verbatim>\<open>writeTableAtomic\<close> writes, for rows of \<open>n\<close> bytes with image \<open>g\<close>, and the checksum it
  returns; None when the rows do not fit the 32-bit count.\<close>

definition tableHeader :: "u32 \<Rightarrow> nat \<Rightarrow> bytes \<Rightarrow> nat \<Rightarrow> BinaryMarketTableHeader" where
  "tableHeader magic n rows count =
     (let h = \<lparr>th_magic = magic, th_headerBytes = 64, th_recordBytes = word_of_nat n,
        th_recordCount = word_of_nat count, th_recordsCrc32c = crc32c rows, th_headerCrc32c = 0,
        th_reserved = replicate 40 0\<rparr>
      in h\<lparr>th_headerCrc32c := crc32c (tableHeader_image h)\<rparr>)"

definition tableFile :: "u32 \<Rightarrow> nat \<Rightarrow> ('a \<Rightarrow> bytes) \<Rightarrow> 'a list \<Rightarrow> (bytes \<times> u32) option" where
  "tableFile magic n g records =
     (if 0xffffffff < length records then None
      else let rows = concat (map g records); h = tableHeader magic n rows (length records)
        in Some (tableHeader_image h @ rows, th_recordsCrc32c h))"

text \<open>\<^verbatim>\<open>size_t\<close> is 64 bits, so the comparison with its maximum always holds.\<close>

definition validTableHeader :: "nat \<Rightarrow> bytes \<Rightarrow> u32 \<Rightarrow> u32 \<Rightarrow> u64 \<Rightarrow> u64 \<Rightarrow> bool" where
  "validTableHeader n bs magic expectedCrc maximumBytes expectedRecords =
     (let h = tableHeader_of bs; recordsBytes = ucast (th_recordCount h) * word_of_nat n :: u64 in
      th_magic h = magic \<and> unat (th_headerBytes h) = 64 \<and> unat (th_recordBytes h) = n \<and>
      ucast (th_recordCount h) = expectedRecords \<and> all_zero (th_reserved h) \<and>
      th_headerCrc32c h = crc32c (zero4 20 bs) \<and> th_recordsCrc32c h = expectedCrc \<and>
      recordsBytes \<le> maximumBytes)"

lemma tableHeader_wf [simp]: "length (th_reserved (tableHeader magic n rows count)) = 40"
  by (simp add: tableHeader_def Let_def)

lemma validTableHeader_written:
  assumes "n < 2 ^ 32" and "count < 2 ^ 32" and "count * n \<le> unat maximumBytes"
  shows "validTableHeader n (tableHeader_image (tableHeader magic n rows count)) magic (crc32c rows)
    maximumBytes (word_of_nat count)"
proof -
  let ?h = "tableHeader magic n rows count"
  have "count * n < 2 ^ 64" using assms(3) unat_lt64 [of maximumBytes] by linarith
  then have b: "unat (word_of_nat count * word_of_nat n :: u64) = count * n"
    by (simp add: unat_word_ariths unat_of_nat mod_mult_eq)
  have u: "ucast (word_of_nat count :: u32) = (word_of_nat count :: u64)"
    using assms(2) by (intro word_unat_eq_iff [THEN iffD2]) (simp add: unsigned_ucast_eq unat_of_nat take_bit_eq_mod)
  have "th_headerCrc32c ?h = crc32c (zero4 20 (tableHeader_image ?h))"
    by (simp add: zero4_tableHeader) (simp add: tableHeader_def Let_def)
  moreover have "th_magic ?h = magic" "th_headerBytes ?h = 64" "th_recordBytes ?h = word_of_nat n"
    "th_recordCount ?h = word_of_nat count" "th_recordsCrc32c ?h = crc32c rows" "th_reserved ?h = replicate 40 0"
    by (simp_all add: tableHeader_def Let_def)
  ultimately show ?thesis using assms b u
    by (simp add: validTableHeader_def tableHeader_of_image Let_def unat_of_nat all_zero_def list_all_iff
        word_le_nat_alt)
qed

end
