(* ===== verification/Publication.thy ===== *)
theory Publication
  imports Metadata
begin

text \<open>
  The in-memory retention of compressed blocks, class \<^verbatim>\<open>CorpusPublication\<close> of
  \<^verbatim>\<open>Corpus/CorpusCutStorage.hpp\<close>: a queue of blocks bounded by a byte capacity, evicted oldest
  first, and the latest published cut. The mutex makes each operation atomic.
\<close>

record PublishedBlock =
  pb_segment :: u32
  pb_offset :: u64
  pb_bytes :: bytes

record 'c CorpusPublication =
  pub_blocks :: "PublishedBlock list"
  pub_capacity :: u64
  pub_retained :: u64
  pub_latest :: "'c option"

definition newPublication :: "u64 \<Rightarrow> 'c CorpusPublication" where
  "newPublication capacity = \<lparr>pub_blocks = [], pub_capacity = capacity, pub_retained = 0, pub_latest = None\<rparr>"

fun evict :: "u64 \<Rightarrow> PublishedBlock list \<Rightarrow> u64 \<Rightarrow> PublishedBlock list \<times> u64" where
  "evict limit [] retained = ([], retained)"
| "evict limit (b # bs) retained =
     (if limit < retained then evict limit bs (retained - word_of_nat (length (pb_bytes b)))
      else (b # bs, retained))"

definition retain :: "CorpusBlockRange \<Rightarrow> bytes \<Rightarrow> 'c CorpusPublication \<Rightarrow> 'c CorpusPublication" where
  "retain r bytes p =
     (if unat (pub_capacity p) < length bytes then p
      else case evict (pub_capacity p - word_of_nat (length bytes)) (pub_blocks p) (pub_retained p) of
        (bs, retained) \<Rightarrow> p\<lparr>pub_blocks := bs @ [\<lparr>pb_segment = cr_segmentNumber r, pb_offset = cr_offset r,
             pb_bytes = bytes\<rparr>], pub_retained := retained + word_of_nat (length bytes)\<rparr>)"

definition matchesRange :: "CorpusBlockRange \<Rightarrow> PublishedBlock \<Rightarrow> bool" where
  "matchesRange r b \<longleftrightarrow> pb_segment b = cr_segmentNumber r \<and> pb_offset b = cr_offset r"

text \<open>\<open>n\<close> is the size of the output span.\<close>

definition load :: "CorpusBlockRange \<Rightarrow> nat \<Rightarrow> 'c CorpusPublication \<Rightarrow> bytes option" where
  "load r n p = (case find (matchesRange r) (pub_blocks p) of
     None \<Rightarrow> None
   | Some b \<Rightarrow> if n \<noteq> length (pb_bytes b) then None else Some (pb_bytes b))"

section \<open>Accounting\<close>

definition retainedBytes :: "PublishedBlock list \<Rightarrow> nat" where
  "retainedBytes bs = (\<Sum>b \<leftarrow> bs. length (pb_bytes b))"

lemma retainedBytes_simps [simp]:
  "retainedBytes [] = 0" "retainedBytes (b # bs) = length (pb_bytes b) + retainedBytes bs"
  "retainedBytes (xs @ ys) = retainedBytes xs + retainedBytes ys"
  by (simp_all add: retainedBytes_def)

definition publication_inv :: "'c CorpusPublication \<Rightarrow> bool" where
  "publication_inv p \<longleftrightarrow> unat (pub_retained p) = retainedBytes (pub_blocks p) \<and>
     pub_retained p \<le> pub_capacity p"

text \<open>Eviction drops the shortest prefix whose removal makes room.\<close>

definition evicted :: "nat \<Rightarrow> PublishedBlock list \<Rightarrow> nat" where
  "evicted limit bs = (LEAST k. retainedBytes (drop k bs) \<le> limit)"

lemma evicted_Cons:
  "evicted limit (b # bs) = (if limit < retainedBytes (b # bs) then Suc (evicted limit bs) else 0)"
proof (cases "limit < retainedBytes (b # bs)")
  case True
  have "retainedBytes (drop (Suc (length bs)) (b # bs)) \<le> limit" by simp
  then have "(LEAST k. retainedBytes (drop k (b # bs)) \<le> limit) =
      Suc (LEAST k. retainedBytes (drop (Suc k) (b # bs)) \<le> limit)"
    by (rule Least_Suc) (use True in simp)
  then show ?thesis using True by (simp add: evicted_def)
next
  case False
  then show ?thesis by (auto simp: evicted_def intro!: Least_equality)
qed

lemma evict_eq:
  "unat retained = retainedBytes bs \<Longrightarrow>
     fst (evict limit bs retained) = drop (evicted (unat limit) bs) bs \<and>
     unat (snd (evict limit bs retained)) = retainedBytes (drop (evicted (unat limit) bs) bs)"
proof (induction bs arbitrary: retained)
  case (Cons b bs)
  have "length (pb_bytes b) < 2 ^ 64" using Cons.prems unat_lt64 [of retained] by simp
  then have l: "unat (word_of_nat (length (pb_bytes b)) :: u64) = length (pb_bytes b)"
    by (simp add: unat_of_nat)
  then have "unat (retained - word_of_nat (length (pb_bytes b))) = retainedBytes bs"
    using Cons.prems by (simp add: unat_sub word_le_nat_alt)
  then show ?case using Cons by (simp add: evicted_Cons word_less_nat_alt)
qed simp

lemma evicted_fits: "retainedBytes (drop (evicted limit bs) bs) \<le> limit"
  unfolding evicted_def by (rule LeastI [of _ "length bs"]) simp

lemma retain_eq:
  assumes "publication_inv p" and "length bytes \<le> unat (pub_capacity p)"
  shows "pub_blocks (retain r bytes p) =
      drop (evicted (unat (pub_capacity p) - length bytes) (pub_blocks p)) (pub_blocks p) @
        [\<lparr>pb_segment = cr_segmentNumber r, pb_offset = cr_offset r, pb_bytes = bytes\<rparr>]"
    and "publication_inv (retain r bytes p)"
proof -
  let ?l = "pub_capacity p - word_of_nat (length bytes)"
  have "length bytes < 2 ^ 64" using assms(2) unat_lt64 [of "pub_capacity p"] by linarith
  then have len: "unat (word_of_nat (length bytes) :: u64) = length bytes" by (simp add: unat_of_nat)
  then have lim: "unat ?l = unat (pub_capacity p) - length bytes"
    using assms(2) by (simp add: unat_sub word_le_nat_alt)
  obtain bs ret where e: "evict ?l (pub_blocks p) (pub_retained p) = (bs, ret)" by fastforce
  have ev: "bs = drop (evicted (unat ?l) (pub_blocks p)) (pub_blocks p)" "unat ret = retainedBytes bs"
    using evict_eq [of "pub_retained p" "pub_blocks p" ?l] assms(1) e by (auto simp: publication_inv_def)
  then show "pub_blocks (retain r bytes p) =
      drop (evicted (unat (pub_capacity p) - length bytes) (pub_blocks p)) (pub_blocks p) @
        [\<lparr>pb_segment = cr_segmentNumber r, pb_offset = cr_offset r, pb_bytes = bytes\<rparr>]"
    using assms(2) e lim by (simp add: retain_def)
  have "retainedBytes bs + length bytes \<le> unat (pub_capacity p)"
    using evicted_fits [of "unat ?l" "pub_blocks p"] ev lim assms(2) by simp
  moreover from this have "unat (ret + word_of_nat (length bytes)) = retainedBytes bs + length bytes"
    using ev(2) len unat_lt64 [of "pub_capacity p"] by (simp add: unat_word_ariths)
  ultimately show "publication_inv (retain r bytes p)"
    using assms(2) e ev by (simp add: retain_def publication_inv_def word_le_nat_alt)
qed

lemma retain_inv: "publication_inv p \<Longrightarrow> publication_inv (retain r bytes p)"
  using retain_eq(2) [of p bytes r] by (cases "length bytes \<le> unat (pub_capacity p)") (auto simp: retain_def)

lemma retain_latest [simp]: "pub_latest (retain r bytes p) = pub_latest p"
  "pub_capacity (retain r bytes p) = pub_capacity p"
  by (simp_all add: retain_def split: prod.splits)

lemma newPublication_inv: "publication_inv (newPublication capacity)"
  by (simp add: publication_inv_def newPublication_def)

lemma find_last_match: "\<not> list_ex P xs \<Longrightarrow> P x \<Longrightarrow> find P (xs @ [x]) = Some x"
  by (induction xs) auto

section \<open>Properties\<close>


definition sample_range :: "u64 \<Rightarrow> CorpusBlockRange" where
  "sample_range offset = \<lparr>cr_offset = offset, cr_firstMonotonicNs = 1, cr_lastMonotonicNs = 1,
     cr_segmentNumber = 1, cr_shardIndex = 0, cr_reserved = 0,
     cr_header = \<lparr>bk_magic = 0, bk_headerBytes = 0, bk_blockNumber = 1, bk_recordCount = 1, bk_rawBytes = 0,
       bk_encodedBytes = 0, bk_rawCrc32c = 0, bk_encodedCrc32c = 0, bk_firstShardSequence = 1,
       bk_lastShardSequence = 1, bk_headerCrc32c = 0, bk_channel = 1, bk_reserved = replicate 11 0\<rparr>\<rparr>"


end
