(* ===== verification/CutCodec.thy ===== *)
theory CutCodec
  imports Publication SampleCorpus
begin

text \<open>
  The durable cut file \<^verbatim>\<open>cut.bin\<close>, \<^verbatim>\<open>Corpus/CorpusCut.cpp\<close>: the bytes \<^verbatim>\<open>writeCorpusCut\<close> stores for
  a \<^verbatim>\<open>CorpusCut\<close> and the decoder with all its checks. The compressor's size bound is the
  parameter \<open>bound\<close>, a function of the block layout and the record count.
\<close>

section \<open>Block layouts\<close>

text \<open>The layout of \<^verbatim>\<open>Corpus/BinaryMarketBlockCodec.hpp\<close>; the stream types are those of the compressor
  that the code names.\<close>

datatype StreamType = StreamTrades | StreamBookTicker | StreamUnknown

record ByteBlockLayout =
  bl_recordBytes :: nat
  bl_payloadOffset :: nat
  bl_timestampOffset :: nat
  bl_streamType :: StreamType

definition binaryMarketBlockLayout :: "u8 \<Rightarrow> ByteBlockLayout" where
  "binaryMarketBlockLayout channel = \<lparr>bl_recordBytes = sizeof_BinaryMarketRecord, bl_payloadOffset = 104,
     bl_timestampOffset = 56,
     bl_streamType = (if channel = chTrade then StreamTrades
       else if channel = chBookTicker then StreamBookTicker else StreamUnknown)\<rparr>"

section \<open>Cuts\<close>

record CorpusCut =
  ct_generation :: u64
  ct_committedMonotonicNs :: u64
  ct_progress :: CorpusProducerProgress
  ct_manifest :: BinaryMarketManifest
  ct_sources :: "BinaryMarketSource list"
  ct_gaps :: "BinaryMarketGap list"
  ct_blocks :: "CorpusBlockRange list"
  ct_referencePayload :: bytes
  ct_finalized :: bool

definition cut_wf :: "CorpusCut \<Rightarrow> bool" where
  "cut_wf c \<longleftrightarrow> progress_wf (ct_progress c) \<and> manifest_wf (ct_manifest c) \<and>
     list_all source_wf (ct_sources c) \<and> list_all range_wf (ct_blocks c)"

record CutHeader =
  hd_magic :: u64
  hd_bytes :: u64
  hd_generation :: u64
  hd_committedMonotonicNs :: u64
  hd_progress :: CorpusProducerProgress
  hd_manifest :: BinaryMarketManifest
  hd_sources :: u64
  hd_gaps :: u64
  hd_blocks :: u64
  hd_referenceBytes :: u64
  hd_crc :: u32
  hd_headerCrc :: u32
  hd_sourcesCrc :: u32
  hd_finalized :: u8
  hd_reserved :: u8

definition sizeof_CutHeader :: nat where "sizeof_CutHeader = 896"
definition kCutMagic :: u64 where "kCutMagic = 0x4355544852434f52"
definition kCorpusMaximumReferenceBytes :: nat where "kCorpusMaximumReferenceBytes = 128 * 1024 * 1024"

text \<open>The manifest is aligned to 64 bytes.\<close>

definition cutHeader_prefix :: "CutHeader \<Rightarrow> bytes" where
  "cutHeader_prefix h = field_put 8 (hd_magic h) @ field_put 8 (hd_bytes h) @ field_put 8 (hd_generation h) @
     field_put 8 (hd_committedMonotonicNs h) @ progress_image (hd_progress h) @ replicate 56 0 @
     manifest_image (hd_manifest h) @ field_put 8 (hd_sources h) @ field_put 8 (hd_gaps h) @
     field_put 8 (hd_blocks h) @ field_put 8 (hd_referenceBytes h)"

definition cutHeader_image :: "CutHeader \<Rightarrow> bytes" where
  "cutHeader_image h = cutHeader_prefix h @ field_put 4 (hd_crc h) @ field_put 4 (hd_headerCrc h) @
     field_put 4 (hd_sourcesCrc h) @ [hd_finalized h, hd_reserved h] @ replicate 18 0"

definition cutHeader_of :: "bytes \<Rightarrow> CutHeader" where
  "cutHeader_of bs = \<lparr>hd_magic = field_get 0 8 bs, hd_bytes = field_get 8 8 bs,
     hd_generation = field_get 16 8 bs, hd_committedMonotonicNs = field_get 24 8 bs,
     hd_progress = progress_of (slice 32 552 bs), hd_manifest = manifest_of (slice 640 192 bs),
     hd_sources = field_get 832 8 bs, hd_gaps = field_get 840 8 bs, hd_blocks = field_get 848 8 bs,
     hd_referenceBytes = field_get 856 8 bs, hd_crc = field_get 864 4 bs, hd_headerCrc = field_get 868 4 bs,
     hd_sourcesCrc = field_get 872 4 bs, hd_finalized = byte_at 876 bs, hd_reserved = byte_at 877 bs\<rparr>"

definition cutHeader_wf :: "CutHeader \<Rightarrow> bool" where
  "cutHeader_wf h \<longleftrightarrow> progress_wf (hd_progress h) \<and> manifest_wf (hd_manifest h)"

lemma length_cutHeader_prefix [simp]: "cutHeader_wf h \<Longrightarrow> length (cutHeader_prefix h) = 864"
  by (simp add: cutHeader_prefix_def cutHeader_wf_def)

lemma length_cutHeader_image [simp]: "cutHeader_wf h \<Longrightarrow> length (cutHeader_image h) = 896"
  by (simp add: cutHeader_image_def)

lemma cutHeader_of_image:
  assumes "cutHeader_wf h"
  shows "cutHeader_of (cutHeader_image h @ post) = h"
proof -
  have "progress_of (progress_image (hd_progress h)) = hd_progress h"
    using progress_of_image [of "hd_progress h" "[]"] assms by (simp add: cutHeader_wf_def)
  moreover have "manifest_of (manifest_image (hd_manifest h)) = hd_manifest h"
    using assms by (simp add: manifest_of_image cutHeader_wf_def)
  ultimately show ?thesis using assms
    unfolding cutHeader_of_def cutHeader_image_def cutHeader_prefix_def cutHeader_wf_def
    by (simp add: layout_simps)
qed

definition cutHeaderCrc :: "bytes \<Rightarrow> u32" where
  "cutHeaderCrc bs = crc32c (zero4 868 (zero4 864 (take sizeof_CutHeader bs)))"


definition cutFieldsInvalid :: "CutHeader \<Rightarrow> u64 \<Rightarrow> bool" where
  "cutFieldsInvalid h bytes =
     (let m = hd_manifest h; maximum = mf_maximumBytes m in
      hd_magic h \<noteq> kCutMagic \<or> hd_bytes h \<noteq> bytes \<or> unat bytes < sizeof_CutHeader \<or> maximum = 0 \<or>
      maximum < bytes \<or> hd_generation h = 0 \<or> hd_committedMonotonicNs h = 0 \<or> hd_sources h = 0 \<or>
      kBinaryMarketMaximumSources < unat (hd_sources h) \<or> hd_sources h \<noteq> ucast (mf_sourceCount m) \<or>
      unat (hd_sources h) * kBinaryMarketStoredChannelCount < unat (hd_gaps h) \<or>
      unat maximum div sizeof_BlockRange < unat (hd_blocks h) \<or>
      kCorpusMaximumReferenceBytes < unat (hd_referenceBytes h) \<or> 1 < hd_finalized h \<or>
      (hd_finalized h \<noteq> 0) \<noteq> (0 < sint (mf_finalizedReceiveNs m)) \<or> hd_reserved h \<noteq> 0 \<or>
      mf_magic m \<noteq> kBinaryMarketManifestMagic \<or> unat (mf_headerBytes m) \<noteq> sizeof_Manifest \<or>
      mf_producerEpoch m = 0 \<or> sint (mf_startedReceiveNs m) \<le> 0 \<or> mf_replayAnchorMonotonicNs m = 0 \<or>
      pg_producerEpoch (hd_progress h) \<noteq> mf_producerEpoch m \<or> pg_shardCount (hd_progress h) = 0 \<or>
      pg_shardCount (hd_progress h) \<noteq> mf_shardCount m \<or>
      kBinaryMarketMaximumShards < unat (pg_shardCount (hd_progress h)) \<or> hd_gaps h \<noteq> mf_gapCount m)"

fun sectionsFit :: "nat \<Rightarrow> (nat \<times> nat) list \<Rightarrow> bool" where
  "sectionsFit remaining [] \<longleftrightarrow> remaining = 0"
| "sectionsFit remaining ((count, width) # rest) \<longleftrightarrow>
     (if remaining div width < count then False else sectionsFit (remaining - count * width) rest)"

text \<open>\<open>bs\<close> is the file, whose size fits \<^verbatim>\<open>uint64_t\<close>.\<close>

definition validCutHeader :: "bytes \<Rightarrow> bool" where
  "validCutHeader bs =
     (let h = cutHeader_of bs in
      if cutFieldsInvalid h (word_of_nat (length bs)) \<or> hd_headerCrc h \<noteq> cutHeaderCrc bs then False
      else sectionsFit (length bs - sizeof_CutHeader)
        [(unat (hd_sources h), sizeof_BinaryMarketSource), (unat (hd_gaps h), sizeof_Gap),
         (unat (hd_blocks h), sizeof_BlockRange), (unat (hd_referenceBytes h), 1)])"

section \<open>Encoding\<close>

definition cutPayload :: "CorpusCut \<Rightarrow> bytes" where
  "cutPayload c = concat (map source_image (ct_sources c)) @ concat (map gap_image (ct_gaps c)) @
     concat (map range_image (ct_blocks c)) @ ct_referencePayload c"

definition cutHeader :: "CorpusCut \<Rightarrow> CutHeader" where
  "cutHeader c = \<lparr>hd_magic = kCutMagic,
     hd_bytes = word_of_nat (sizeof_CutHeader + length (cutPayload c)), hd_generation = ct_generation c,
     hd_committedMonotonicNs = ct_committedMonotonicNs c, hd_progress = ct_progress c,
     hd_manifest = ct_manifest c, hd_sources = word_of_nat (length (ct_sources c)),
     hd_gaps = word_of_nat (length (ct_gaps c)), hd_blocks = word_of_nat (length (ct_blocks c)),
     hd_referenceBytes = word_of_nat (length (ct_referencePayload c)), hd_crc = 0, hd_headerCrc = 0,
     hd_sourcesCrc = crc32c (concat (map source_image (ct_sources c))),
     hd_finalized = (if ct_finalized c then 1 else 0), hd_reserved = 0\<rparr>"

definition encodeCorpusCut :: "CorpusCut \<Rightarrow> bytes" where
  "encodeCorpusCut c =
     (let h = cutHeader c; h1 = h\<lparr>hd_headerCrc := cutHeaderCrc (cutHeader_image h)\<rparr>;
          h2 = h1\<lparr>hd_crc := crc32c (cutHeader_image h1 @ cutPayload c)\<rparr>
      in cutHeader_image h2 @ cutPayload c)"

section \<open>Decoding\<close>

definition unpack :: "nat \<Rightarrow> (bytes \<Rightarrow> 'a) \<Rightarrow> nat \<Rightarrow> bytes \<Rightarrow> ('a list \<times> bytes) option" where
  "unpack width f count bs = (if length bs div width < count then None
     else Some (array_of width f count bs, drop (count * width) bs))"

definition gapInvalid :: "nat \<Rightarrow> u16 \<Rightarrow> BinaryMarketGap \<Rightarrow> bool" where
  "gapInvalid sources shardCount g \<longleftrightarrow>
     gp_sourceId g = 0 \<or> sources < unat (gp_sourceId g) \<or> gp_sourceGeneration g = 0 \<or> gp_gapEpoch g = 0 \<or>
     gp_gapEpoch g \<noteq> gp_droppedRecords g \<or> gp_firstDroppedEventSequence g = 0 \<or>
     gp_lastDroppedEventSequence g = 0 \<or> sint (gp_observedReceiveNs g) \<le> 0 \<or> shardCount \<le> gp_shardIndex g \<or>
     \<not> validBinaryMarketRecordChannel (gp_channel g) \<or> gp_reserved32 g \<noteq> 0 \<or> gp_reserved8 g \<noteq> 0 \<or>
     \<not> ((0 < sint (gp_minimumDroppedReceiveNs g) \<and>
          sint (gp_minimumDroppedReceiveNs g) \<le> sint (gp_maximumDroppedReceiveNs g)) \<or>
        (gp_minimumDroppedReceiveNs g = 0 \<and> gp_maximumDroppedReceiveNs g = 0))"

definition gapCell :: "BinaryMarketGap \<Rightarrow> nat" where
  "gapCell g = (unat (gp_sourceId g) - 1) * kBinaryMarketStoredChannelCount +
     unat (binaryMarketChannelIndex (gp_channel g))"

fun checkGaps :: "nat \<Rightarrow> u16 \<Rightarrow> nat list \<Rightarrow> BinaryMarketGap list \<Rightarrow> bool" where
  "checkGaps sources shardCount seen [] = True"
| "checkGaps sources shardCount seen (g # gs) =
     (if gapInvalid sources shardCount g then False
      else if gapCell g \<in> set seen then False
      else checkGaps sources shardCount (gapCell g # seen) gs)"

text \<open>\<open>rb\<close> is the stored image of the range.\<close>

definition rangeInvalid :: "(ByteBlockLayout \<Rightarrow> nat \<Rightarrow> nat) \<Rightarrow> u16 \<Rightarrow> u64 \<Rightarrow> bytes \<Rightarrow> bool" where
  "rangeInvalid bound shardCount maximum rb =
     (let r = range_of rb; b = cr_header r; layout = binaryMarketBlockLayout (bk_channel b) in
      cr_segmentNumber r = 0 \<or> shardCount \<le> cr_shardIndex r \<or> cr_reserved r \<noteq> 0 \<or>
      unat (cr_offset r) < sizeof_SegmentHeader \<or> maximum < cr_offset r \<or> cr_firstMonotonicNs r = 0 \<or>
      cr_lastMonotonicNs r < cr_firstMonotonicNs r \<or> bk_magic b \<noteq> kBinaryMarketBlockMagic \<or>
      unat (bk_headerBytes b) \<noteq> sizeof_BlockHeader \<or> bk_blockNumber b = 0 \<or> bk_recordCount b = 0 \<or>
      kBinaryMarketBlockRecords < unat (bk_recordCount b) \<or>
      \<not> validBinaryMarketRecordChannel (bk_channel b) \<or>
      unat (bk_rawBytes b) \<noteq> unat (bk_recordCount b) * bl_recordBytes layout \<or> bk_encodedBytes b = 0 \<or>
      bound layout (unat (bk_recordCount b)) < unat (bk_encodedBytes b) \<or> \<not> all_zero (bk_reserved b) \<or>
      bk_firstShardSequence b = 0 \<or> bk_lastShardSequence b < bk_firstShardSequence b \<or>
      crc32c (zero4 48 (slice 32 64 rb)) \<noteq> bk_headerCrc32c b)"

fun checkRanges :: "(ByteBlockLayout \<Rightarrow> nat \<Rightarrow> nat) \<Rightarrow> u16 \<Rightarrow> u64 \<Rightarrow> u64 \<Rightarrow> bytes list \<Rightarrow> u64 option" where
  "checkRanges bound shardCount maximum records [] = Some records"
| "checkRanges bound shardCount maximum records (rb # rbs) =
     (let count = ucast (bk_recordCount (cr_header (range_of rb))) in
      if rangeInvalid bound shardCount maximum rb \<or> 0xffffffffffffffff - count < records then None
      else checkRanges bound shardCount maximum (records + count) rbs)"

definition decodeSections :: "CutHeader \<Rightarrow> bytes \<Rightarrow>
    (BinaryMarketSource list \<times> BinaryMarketGap list \<times> bytes list \<times> bytes) option" where
  "decodeSections h body = do {
     (sources, p1) \<leftarrow> unpack sizeof_BinaryMarketSource source_of (unat (hd_sources h)) body;
     (gaps, p2) \<leftarrow> unpack sizeof_Gap gap_of (unat (hd_gaps h)) p1;
     (ranges, p3) \<leftarrow> unpack sizeof_BlockRange id (unat (hd_blocks h)) p2;
     (ref, p4) \<leftarrow> unpack 1 hd (unat (hd_referenceBytes h)) p3;
     if p4 \<noteq> [] then None else Some (sources, gaps, ranges, ref) }"

definition decodeCorpusCut :: "(ByteBlockLayout \<Rightarrow> nat \<Rightarrow> nat) \<Rightarrow> bytes \<Rightarrow> status + CorpusCut" where
  "decodeCorpusCut bound bs =
     (if length bs < sizeof_CutHeader then Inl CorruptData
      else if \<not> validCutHeader bs then Inl CorruptData
      else let h = cutHeader_of bs; maximum = mf_maximumBytes (hd_manifest h);
               shardCount = pg_shardCount (hd_progress h) in
        if crc32c (zero4 864 bs) \<noteq> hd_crc h then Inl CorruptData
        else case decodeSections h (drop sizeof_CutHeader bs) of
          None \<Rightarrow> Inl CorruptData
        | Some (sources, gaps, ranges, ref) \<Rightarrow>
          if crc32c (slice sizeof_CutHeader (length sources * sizeof_BinaryMarketSource) bs) \<noteq> hd_sourcesCrc h
          then Inl CorruptData
          else if \<not> list_all (\<lambda>n. validBinaryMarketSource (sources ! n) n) [0..<length sources] then Inl CorruptData
          else if \<not> checkGaps (length sources) shardCount [] gaps then Inl CorruptData
          else case checkRanges bound shardCount maximum 0 ranges of
            None \<Rightarrow> Inl CorruptData
          | Some records \<Rightarrow>
            if records \<noteq> mf_recordCount (hd_manifest h) \<or>
               word_of_nat (length gaps) \<noteq> mf_gapCount (hd_manifest h) then Inl CorruptData
            else Inr \<lparr>ct_generation = hd_generation h, ct_committedMonotonicNs = hd_committedMonotonicNs h,
              ct_progress = hd_progress h, ct_manifest = hd_manifest h, ct_sources = sources, ct_gaps = gaps,
              ct_blocks = map range_of ranges, ct_referencePayload = ref,
              ct_finalized = (hd_finalized h \<noteq> 0)\<rparr>)"

section \<open>What the decoder accepts\<close>

definition blockRecords :: "CorpusBlockRange list \<Rightarrow> nat" where
  "blockRecords rs = (\<Sum>r \<leftarrow> rs. unat (bk_recordCount (cr_header r)))"

definition cutContract :: "(ByteBlockLayout \<Rightarrow> nat \<Rightarrow> nat) \<Rightarrow> CorpusCut \<Rightarrow> bool" where
  "cutContract bound c =
     (let m = ct_manifest c; shardCount = pg_shardCount (ct_progress c) in
      sizeof_CutHeader + length (cutPayload c) \<le> unat (mf_maximumBytes m) \<and>
      ct_generation c \<noteq> 0 \<and> ct_committedMonotonicNs c \<noteq> 0 \<and>
      ct_sources c \<noteq> [] \<and> length (ct_sources c) \<le> kBinaryMarketMaximumSources \<and>
      length (ct_sources c) = unat (mf_sourceCount m) \<and> length (ct_gaps c) = unat (mf_gapCount m) \<and>
      length (ct_gaps c) \<le> length (ct_sources c) * kBinaryMarketStoredChannelCount \<and>
      length (ct_referencePayload c) \<le> kCorpusMaximumReferenceBytes \<and>
      ct_finalized c = (0 < sint (mf_finalizedReceiveNs m)) \<and>
      mf_magic m = kBinaryMarketManifestMagic \<and> unat (mf_headerBytes m) = sizeof_Manifest \<and>
      mf_producerEpoch m \<noteq> 0 \<and> 0 < sint (mf_startedReceiveNs m) \<and> mf_replayAnchorMonotonicNs m \<noteq> 0 \<and>
      pg_producerEpoch (ct_progress c) = mf_producerEpoch m \<and> shardCount \<noteq> 0 \<and>
      shardCount = mf_shardCount m \<and> unat shardCount \<le> kBinaryMarketMaximumShards \<and>
      list_all (\<lambda>n. validBinaryMarketSource (ct_sources c ! n) n) [0..<length (ct_sources c)] \<and>
      list_all (\<lambda>g. \<not> gapInvalid (length (ct_sources c)) shardCount g) (ct_gaps c) \<and>
      distinct (map gapCell (ct_gaps c)) \<and>
      list_all (\<lambda>r. \<not> rangeInvalid bound shardCount (mf_maximumBytes m) (range_image r)) (ct_blocks c) \<and>
      blockRecords (ct_blocks c) = unat (mf_recordCount m))"

lemma checkGaps_iff:
  "checkGaps sources shardCount seen gs \<longleftrightarrow> list_all (\<lambda>g. \<not> gapInvalid sources shardCount g) gs \<and>
     distinct (map gapCell gs) \<and> set (map gapCell gs) \<inter> set seen = {}"
  by (induction gs arbitrary: seen) auto

lemma checkRanges_iff:
  "checkRanges bound shardCount maximum records rbs =
     (if list_all (\<lambda>rb. \<not> rangeInvalid bound shardCount maximum rb) rbs \<and>
         unat records + blockRecords (map range_of rbs) < 2 ^ 64
      then Some (word_of_nat (unat records + blockRecords (map range_of rbs))) else None)"
proof (induction rbs arbitrary: records)
  case Nil
  then show ?case using unat_lt64 [of records] by (simp add: blockRecords_def)
next
  case (Cons rb rbs)
  let ?n = "bk_recordCount (cr_header (range_of rb))"
  have "unat (ucast ?n :: u64) = unat ?n"
    using unsigned_less [of ?n, where 'a = nat] by (simp add: unsigned_ucast_eq take_bit_nat_eq_self)
  moreover have "(0xffffffffffffffff :: u64) - ucast ?n < records \<longleftrightarrow> 2 ^ 64 \<le> unat records + unat ?n"
    using calculation unsigned_less [of ?n, where 'a = nat]
    by (simp add: word_less_nat_alt unat_sub word_le_nat_alt) linarith
  moreover have "unat records + unat ?n < 2 ^ 64 \<Longrightarrow> unat (records + ucast ?n) = unat records + unat ?n"
    using calculation(1) by (simp add: unat_word_ariths)
  ultimately show ?case using Cons by (auto simp: blockRecords_def Let_def)
qed

section \<open>Round trip\<close>

lemma zero4_append: "off + 4 \<le> length a \<Longrightarrow> zero4 off (a @ post) = zero4 off a @ post"
  by (simp add: zero4_def)

lemma cutHeader_prefix_update [simp]:
  "cutHeader_prefix (h\<lparr>hd_crc := x\<rparr>) = cutHeader_prefix h"
  "cutHeader_prefix (h\<lparr>hd_headerCrc := x\<rparr>) = cutHeader_prefix h"
  by (simp_all add: cutHeader_prefix_def)

lemma zero4_cutHeader:
  assumes "cutHeader_wf h"
  shows "zero4 864 (cutHeader_image h) = cutHeader_image (h\<lparr>hd_crc := 0\<rparr>)"
    and "zero4 868 (cutHeader_image h) = cutHeader_image (h\<lparr>hd_headerCrc := 0\<rparr>)"
proof -
  show "zero4 864 (cutHeader_image h) = cutHeader_image (h\<lparr>hd_crc := 0\<rparr>)"
    unfolding cutHeader_image_def using assms by (subst zero4_join) simp_all
  let ?tail = "field_put 4 (hd_sourcesCrc h) @ [hd_finalized h, hd_reserved h] @ replicate 18 0"
  have "zero4 868 ((cutHeader_prefix h @ field_put 4 (hd_crc h)) @ field_put 4 (hd_headerCrc h) @ ?tail) =
      (cutHeader_prefix h @ field_put 4 (hd_crc h)) @ [0, 0, 0, 0] @ ?tail"
    using assms by (intro zero4_join) simp
  then show "zero4 868 (cutHeader_image h) = cutHeader_image (h\<lparr>hd_headerCrc := 0\<rparr>)"
    by (simp add: cutHeader_image_def)
qed

lemma cutHeader_wf_update [simp]:
  "cutHeader_wf (h\<lparr>hd_crc := x\<rparr>) = cutHeader_wf h" "cutHeader_wf (h\<lparr>hd_headerCrc := x\<rparr>) = cutHeader_wf h"
  by (simp_all add: cutHeader_wf_def)

lemma cutHeaderCrc_image:
  "cutHeader_wf h \<Longrightarrow> cutHeaderCrc (cutHeader_image h @ post) =
     crc32c (cutHeader_image (h\<lparr>hd_crc := 0, hd_headerCrc := 0\<rparr>))"
  by (simp add: cutHeaderCrc_def sizeof_CutHeader_def zero4_cutHeader)


lemma length_cutPayload:
  assumes "cut_wf c"
  shows "length (cutPayload c) = 272 * length (ct_sources c) + 80 * length (ct_gaps c) +
    96 * length (ct_blocks c) + length (ct_referencePayload c)"
  using assms length_concat_map [of "ct_sources c" source_image 272] length_concat_map [of "ct_gaps c" gap_image 80]
    length_concat_map [of "ct_blocks c" range_image 96]
  by (simp add: cutPayload_def cut_wf_def list_all_iff length_source_image)

lemma cutHeader_wf_header: "cut_wf c \<Longrightarrow> cutHeader_wf (cutHeader c)"
  by (simp add: cut_wf_def cutHeader_wf_def cutHeader_def)

lemma encode_shape:
  assumes "cut_wf c"
  obtains h where "encodeCorpusCut c = cutHeader_image h @ cutPayload c" and "cutHeader_wf h"
    and "h\<lparr>hd_crc := 0, hd_headerCrc := 0\<rparr> = cutHeader c"
    and "hd_headerCrc h = cutHeaderCrc (encodeCorpusCut c)"
    and "hd_crc h = crc32c (zero4 864 (encodeCorpusCut c))"
proof -
  define h where "h = (let h = cutHeader c; h1 = h\<lparr>hd_headerCrc := cutHeaderCrc (cutHeader_image h)\<rparr>
    in h1\<lparr>hd_crc := crc32c (cutHeader_image h1 @ cutPayload c)\<rparr>)"
  have enc: "encodeCorpusCut c = cutHeader_image h @ cutPayload c"
    by (simp add: encodeCorpusCut_def h_def Let_def)
  have wf: "cutHeader_wf h" using cutHeader_wf_header [OF assms] by (simp add: h_def Let_def)
  have zero: "h\<lparr>hd_crc := 0, hd_headerCrc := 0\<rparr> = cutHeader c" by (simp add: h_def Let_def cutHeader_def)
  have "hd_headerCrc h = cutHeaderCrc (cutHeader_image (cutHeader c) @ [])" by (simp add: h_def Let_def)
  also have "\<dots> = crc32c (cutHeader_image (cutHeader c))"
    by (subst cutHeaderCrc_image [OF cutHeader_wf_header [OF assms]]) (simp add: cutHeader_def)
  also have "\<dots> = cutHeaderCrc (encodeCorpusCut c)" using wf zero by (simp add: enc cutHeaderCrc_image)
  finally have hcrc: "hd_headerCrc h = cutHeaderCrc (encodeCorpusCut c)" .
  have "zero4 864 (encodeCorpusCut c) = cutHeader_image (h\<lparr>hd_crc := 0\<rparr>) @ cutPayload c"
    using wf by (simp add: enc zero4_append zero4_cutHeader)
  moreover have "h\<lparr>hd_crc := 0\<rparr> = (cutHeader c)\<lparr>hd_headerCrc := cutHeaderCrc (cutHeader_image (cutHeader c))\<rparr>"
    by (simp add: h_def Let_def cutHeader_def)
  ultimately have "hd_crc h = crc32c (zero4 864 (encodeCorpusCut c))" by (simp add: h_def Let_def)
  with that enc wf zero hcrc show ?thesis by blast
qed

lemma length_encode: "cut_wf c \<Longrightarrow> length (encodeCorpusCut c) = sizeof_CutHeader + length (cutPayload c)"
proof -
  assume wf: "cut_wf c"
  obtain h where "encodeCorpusCut c = cutHeader_image h @ cutPayload c" "cutHeader_wf h"
    using encode_shape [OF wf] by blast
  then show ?thesis by (simp add: sizeof_CutHeader_def)
qed

lemma array_id_images:
  assumes "\<forall>x \<in> set xs. length (g x) = n"
  shows "array_of n id (length xs) (concat (map g xs) @ post) = map g xs"
  using assms slice_concat [of "map g xs" n] by (intro nth_equalityI) (auto simp: array_of_def)

lemma array_bytes: "array_of 1 hd (length bs) bs = bs"
  by (intro nth_equalityI) (auto simp: array_of_def slice_def hd_drop_conv_nth take_Suc_conv_app_nth)

lemma decodeSections_payload:
  assumes "cut_wf c" and "unat (hd_sources h) = length (ct_sources c)" and "unat (hd_gaps h) = length (ct_gaps c)"
    and "unat (hd_blocks h) = length (ct_blocks c)" and "unat (hd_referenceBytes h) = length (ct_referencePayload c)"
  shows "decodeSections h (cutPayload c) =
    Some (ct_sources c, ct_gaps c, map range_image (ct_blocks c), ct_referencePayload c)"
proof -
  have s: "length (concat (map source_image (ct_sources c))) = length (ct_sources c) * 272"
    "array_of 272 source_of (length (ct_sources c)) (concat (map source_image (ct_sources c)) @ post) = ct_sources c" for post
    using assms(1) by (auto simp: cut_wf_def list_all_iff length_source_image source_of_image
        intro!: length_concat_map array_of_concat)
  have g: "length (concat (map gap_image (ct_gaps c))) = length (ct_gaps c) * 80"
    "array_of 80 gap_of (length (ct_gaps c)) (concat (map gap_image (ct_gaps c)) @ post) = ct_gaps c" for post
    by (auto simp: gap_of_image intro!: length_concat_map array_of_concat)
  have b: "length (concat (map range_image (ct_blocks c))) = length (ct_blocks c) * 96"
    "array_of 96 id (length (ct_blocks c)) (concat (map range_image (ct_blocks c)) @ post) = map range_image (ct_blocks c)" for post
    using assms(1) by (auto simp: cut_wf_def list_all_iff intro!: length_concat_map array_id_images)
  show ?thesis using assms(2-) s g b array_bytes
    by (simp add: decodeSections_def unpack_def cutPayload_def sizeof_BinaryMarketSource_def sizeof_Gap_def
        sizeof_BlockRange_def)
qed

lemma unat_of_length: "n < 2 ^ 64 \<Longrightarrow> unat (word_of_nat n :: u64) = n"
  by (simp add: unat_of_nat)

lemma word_of_nat_eq64: "n < 2 ^ 64 \<Longrightarrow> word_of_nat n = (w :: u64) \<longleftrightarrow> n = unat w"
  by (simp add: word_unat_eq_iff unat_of_nat)

lemma cutFields_contract:
  fixes c :: CorpusCut
  defines "n \<equiv> sizeof_CutHeader + length (cutPayload c)"
  assumes "cut_wf c" and "n < 2 ^ 64" and "h\<lparr>hd_crc := 0, hd_headerCrc := 0\<rparr> = cutHeader c"
  shows "\<not> cutFieldsInvalid h (word_of_nat n) \<longleftrightarrow>
     (let m = ct_manifest c; shardCount = pg_shardCount (ct_progress c) in
      n \<le> unat (mf_maximumBytes m) \<and> ct_generation c \<noteq> 0 \<and> ct_committedMonotonicNs c \<noteq> 0 \<and>
      ct_sources c \<noteq> [] \<and> length (ct_sources c) \<le> kBinaryMarketMaximumSources \<and>
      length (ct_sources c) = unat (mf_sourceCount m) \<and> length (ct_gaps c) = unat (mf_gapCount m) \<and>
      length (ct_gaps c) \<le> length (ct_sources c) * kBinaryMarketStoredChannelCount \<and>
      length (ct_referencePayload c) \<le> kCorpusMaximumReferenceBytes \<and>
      ct_finalized c = (0 < sint (mf_finalizedReceiveNs m)) \<and>
      mf_magic m = kBinaryMarketManifestMagic \<and> unat (mf_headerBytes m) = sizeof_Manifest \<and>
      mf_producerEpoch m \<noteq> 0 \<and> 0 < sint (mf_startedReceiveNs m) \<and> mf_replayAnchorMonotonicNs m \<noteq> 0 \<and>
      pg_producerEpoch (ct_progress c) = mf_producerEpoch m \<and> shardCount \<noteq> 0 \<and>
      shardCount = mf_shardCount m \<and> unat shardCount \<le> kBinaryMarketMaximumShards)"
proof -
  let ?m = "ct_manifest c"
  have len: "length (ct_sources c) < 2 ^ 64" "length (ct_gaps c) < 2 ^ 64" "length (ct_blocks c) < 2 ^ 64"
    "length (ct_referencePayload c) < 2 ^ 64"
    using assms(2,3) by (simp_all add: n_def length_cutPayload)
  note u = len [THEN unat_of_length] unat_of_length [OF assms(3)]
  have f: "hd_magic h = kCutMagic" "hd_bytes h = word_of_nat n" "hd_generation h = ct_generation c"
    "hd_committedMonotonicNs h = ct_committedMonotonicNs c" "hd_progress h = ct_progress c"
    "hd_manifest h = ?m" "hd_sources h = word_of_nat (length (ct_sources c))"
    "hd_gaps h = word_of_nat (length (ct_gaps c))" "hd_blocks h = word_of_nat (length (ct_blocks c))"
    "hd_referenceBytes h = word_of_nat (length (ct_referencePayload c))"
    "hd_finalized h = (if ct_finalized c then 1 else 0)" "hd_reserved h = 0"
    using arg_cong [OF assms(4), of hd_magic] arg_cong [OF assms(4), of hd_bytes]
      arg_cong [OF assms(4), of hd_generation] arg_cong [OF assms(4), of hd_committedMonotonicNs]
      arg_cong [OF assms(4), of hd_progress] arg_cong [OF assms(4), of hd_manifest]
      arg_cong [OF assms(4), of hd_sources] arg_cong [OF assms(4), of hd_gaps]
      arg_cong [OF assms(4), of hd_blocks] arg_cong [OF assms(4), of hd_referenceBytes]
      arg_cong [OF assms(4), of hd_finalized] arg_cong [OF assms(4), of hd_reserved]
    by (simp_all add: cutHeader_def n_def)
  have src: "(word_of_nat (length (ct_sources c)) :: u64) = ucast (mf_sourceCount ?m) \<longleftrightarrow>
      length (ct_sources c) = unat (mf_sourceCount ?m)"
    using u(1) unsigned_less [of "mf_sourceCount ?m", where 'a = nat]
    by (simp add: word_unat_eq_iff unsigned_ucast_eq take_bit_nat_eq_self)
  have gap: "(word_of_nat (length (ct_gaps c)) :: u64) = mf_gapCount ?m \<longleftrightarrow> length (ct_gaps c) = unat (mf_gapCount ?m)"
    using u(2) by (simp add: word_unat_eq_iff)
  have ne: "(word_of_nat (length (ct_sources c)) :: u64) = 0 \<longleftrightarrow> ct_sources c = []"
    using u(1) by (simp add: word_unat_eq_iff)
  have max: "mf_maximumBytes ?m < word_of_nat n \<longleftrightarrow> unat (mf_maximumBytes ?m) < n"
    using u(5) by (simp add: word_less_nat_alt)
  have blocks: "n \<le> unat (mf_maximumBytes ?m) \<Longrightarrow> length (ct_blocks c) \<le> unat (mf_maximumBytes ?m) div 96"
    using assms(2) by (simp add: n_def length_cutPayload less_eq_div_iff_mult_less_eq)
  show ?thesis unfolding cutFieldsInvalid_def Let_def f src gap ne max u sizeof_BlockRange_def
    using blocks by (auto simp: not_less n_def sizeof_CutHeader_def)
qed

lemma sections_payload:
  assumes "cut_wf c"
  shows "sectionsFit (length (cutPayload c)) [(length (ct_sources c), sizeof_BinaryMarketSource),
    (length (ct_gaps c), sizeof_Gap), (length (ct_blocks c), sizeof_BlockRange),
    (length (ct_referencePayload c), 1)]"
  using length_cutPayload [OF assms]
  by (simp add: sizeof_BinaryMarketSource_def sizeof_Gap_def sizeof_BlockRange_def not_less
      less_eq_div_iff_mult_less_eq)

lemma blocks_decoded: "cut_wf c \<Longrightarrow> map range_of (map range_image (ct_blocks c)) = ct_blocks c"
  by (auto simp: cut_wf_def list_all_iff range_of_image intro!: map_idI)

lemma decode_encode:
  assumes wf: "cut_wf c" and len: "sizeof_CutHeader + length (cutPayload c) < 2 ^ 64"
  shows "decodeCorpusCut bound (encodeCorpusCut c) = (if cutContract bound c then Inr c else Inl CorruptData)"
proof -
  obtain h where enc: "encodeCorpusCut c = cutHeader_image h @ cutPayload c" and hwf: "cutHeader_wf h"
    and zero: "h\<lparr>hd_crc := 0, hd_headerCrc := 0\<rparr> = cutHeader c"
    and hcrc: "hd_headerCrc h = cutHeaderCrc (encodeCorpusCut c)"
    and crc: "hd_crc h = crc32c (zero4 864 (encodeCorpusCut c))"
    using encode_shape [OF wf] by blast
  have n: "length (encodeCorpusCut c) = sizeof_CutHeader + length (cutPayload c)"
    using hwf by (simp add: enc sizeof_CutHeader_def)
  have hd: "cutHeader_of (encodeCorpusCut c) = h" using cutHeader_of_image [OF hwf] by (simp add: enc)
  have body: "drop sizeof_CutHeader (encodeCorpusCut c) = cutPayload c"
    using hwf by (simp add: enc sizeof_CutHeader_def)
  have f: "hd_sources h = word_of_nat (length (ct_sources c))" "hd_gaps h = word_of_nat (length (ct_gaps c))"
    "hd_blocks h = word_of_nat (length (ct_blocks c))"
    "hd_referenceBytes h = word_of_nat (length (ct_referencePayload c))" "hd_progress h = ct_progress c"
    "hd_manifest h = ct_manifest c" "hd_generation h = ct_generation c"
    "hd_committedMonotonicNs h = ct_committedMonotonicNs c" "(hd_finalized h \<noteq> 0) = ct_finalized c"
    "hd_sourcesCrc h = crc32c (concat (map source_image (ct_sources c)))"
    using zero by (cases h, simp_all add: cutHeader_def)+
  have u: "unat (hd_sources h) = length (ct_sources c)" "unat (hd_gaps h) = length (ct_gaps c)"
    "unat (hd_blocks h) = length (ct_blocks c)" "unat (hd_referenceBytes h) = length (ct_referencePayload c)"
    using len by (simp_all add: f unat_of_length length_cutPayload [OF wf])
  have src: "slice sizeof_CutHeader (length (ct_sources c) * sizeof_BinaryMarketSource) (encodeCorpusCut c) =
      concat (map source_image (ct_sources c))"
  proof -
    have "length (concat (map source_image (ct_sources c))) = length (ct_sources c) * sizeof_BinaryMarketSource"
      using wf by (auto simp: cut_wf_def list_all_iff length_source_image sizeof_BinaryMarketSource_def
          intro!: length_concat_map)
    then show ?thesis by (simp add: slice_def body cutPayload_def)
  qed
  have gaps: "(word_of_nat (length (ct_gaps c)) :: u64) = mf_gapCount (ct_manifest c) \<longleftrightarrow>
      length (ct_gaps c) = unat (mf_gapCount (ct_manifest c))"
    using u(2) by (simp add: f word_unat_eq_iff)
  have recs: "checkRanges bound sc mx 0 (map range_image (ct_blocks c)) =
      (if list_all (\<lambda>r. \<not> rangeInvalid bound sc mx (range_image r)) (ct_blocks c) \<and> blockRecords (ct_blocks c) < 2 ^ 64
       then Some (word_of_nat (blockRecords (ct_blocks c))) else None)" for sc mx
    unfolding checkRanges_iff blocks_decoded [OF wf] by (simp add: list.pred_map comp_def)
  have count: "blockRecords (ct_blocks c) < 2 ^ 64 \<and>
      (word_of_nat (blockRecords (ct_blocks c)) :: u64) = mf_recordCount (ct_manifest c) \<longleftrightarrow>
      blockRecords (ct_blocks c) = unat (mf_recordCount (ct_manifest c))"
    using unat_lt64 [of "mf_recordCount (ct_manifest c)"] by (auto simp: word_of_nat_eq64)
  have valid: "validCutHeader (encodeCorpusCut c) \<longleftrightarrow>
      \<not> cutFieldsInvalid h (word_of_nat (sizeof_CutHeader + length (cutPayload c)))"
    using sections_payload [OF wf] hcrc
    unfolding validCutHeader_def Let_def hd n u add_diff_cancel_left' by (simp only: if_False if_True simp_thms if_cancel split: if_split)
  have eq: "\<lparr>ct_generation = ct_generation c, ct_committedMonotonicNs = ct_committedMonotonicNs c,
      ct_progress = ct_progress c, ct_manifest = ct_manifest c, ct_sources = ct_sources c, ct_gaps = ct_gaps c,
      ct_blocks = ct_blocks c, ct_referencePayload = ct_referencePayload c, ct_finalized = ct_finalized c\<rparr> = c"
    by simp
  let ?sc = "pg_shardCount (ct_progress c)" and ?mx = "mf_maximumBytes (ct_manifest c)"
  let ?F = "cutFieldsInvalid h (word_of_nat (sizeof_CutHeader + length (cutPayload c)))"
  let ?S = "list_all (\<lambda>n. validBinaryMarketSource (ct_sources c ! n) n) [0..<length (ct_sources c)]"
  let ?G = "checkGaps (length (ct_sources c)) ?sc [] (ct_gaps c)"
  let ?R = "list_all (\<lambda>r. \<not> rangeInvalid bound ?sc ?mx (range_image r)) (ct_blocks c)"
  let ?N = "blockRecords (ct_blocks c) = unat (mf_recordCount (ct_manifest c))"
  have contract: "cutContract bound c \<longleftrightarrow> \<not> ?F \<and> ?S \<and> ?G \<and> ?R \<and> ?N"
    unfolding cutContract_def Let_def cutFields_contract [OF wf len zero, unfolded Let_def] checkGaps_iff
    by (simp only: conj_assoc list.simps set_simps Int_empty_right simp_thms)
  have eqcount: "length (ct_gaps c) = unat (mf_gapCount (ct_manifest c))" if "\<not> ?F"
    using that cutFields_contract [OF wf len zero, unfolded Let_def] by blast
  have dec: "decodeCorpusCut bound (encodeCorpusCut c) =
      (if ?F then Inl CorruptData else if \<not> ?S then Inl CorruptData else if \<not> ?G then Inl CorruptData
       else if \<not> (?R \<and> ?N) then Inl CorruptData else Inr c)"
  proof (cases ?F)
    case False
    have lt: "\<not> length (encodeCorpusCut c) < sizeof_CutHeader" by (simp add: n)
    show ?thesis using eqcount [OF False] count
      unfolding decodeCorpusCut_def Let_def hd body crc [symmetric] decodeSections_payload [OF wf u] option.case
        prod.case src f recs blocks_decoded [OF wf] eq valid gaps
      using False lt by (auto simp only: if_True if_False simp_thms option.case split: if_split)
  qed (simp add: decodeCorpusCut_def valid)
  show ?thesis unfolding dec contract by simp
qed

section \<open>Corruption\<close>

lemma zero4_before: "length a + length us \<le> off \<Longrightarrow>
    zero4 off (a @ us @ post) = a @ us @ zero4 (off - length a - length us) post"
  by (simp add: zero4_def)

lemma validCut_crc: "decodeCorpusCut bound bs = Inr c \<Longrightarrow>
    sizeof_CutHeader \<le> length bs \<and> hd_headerCrc (cutHeader_of bs) = cutHeaderCrc bs \<and>
    hd_crc (cutHeader_of bs) = crc32c (zero4 864 bs)"
  by (auto simp: decodeCorpusCut_def validCutHeader_def Let_def split: if_splits)

lemma invalidCut_crc:
  "hd_headerCrc (cutHeader_of bs) \<noteq> cutHeaderCrc bs \<or> hd_crc (cutHeader_of bs) \<noteq> crc32c (zero4 864 bs) \<Longrightarrow>
     decodeCorpusCut bound bs = Inl CorruptData"
  by (auto simp: decodeCorpusCut_def validCutHeader_def Let_def)

lemma stored_crcs:
  "hd_crc (cutHeader_of bs) = field_get 864 4 bs" "hd_headerCrc (cutHeader_of bs) = field_get 868 4 bs"
  by (simp_all add: cutHeader_of_def)

lemma corrupt_payload:
  assumes "decodeCorpusCut bound (pre @ us @ post) = Inr c" and "length us = length vs"
    and "length us \<le> 4" and "us \<noteq> vs" and "sizeof_CutHeader \<le> length pre"
  shows "decodeCorpusCut bound (pre @ vs @ post) = Inl CorruptData"
proof -
  have pre: "896 \<le> length pre" using assms(5) by (simp add: sizeof_CutHeader_def)
  have "crc32c (zero4 864 pre @ us @ post) \<noteq> crc32c (zero4 864 pre @ vs @ post)"
    using crc32c_window assms(2-4) by blast
  then show ?thesis using validCut_crc [OF assms(1)] pre
    by (intro invalidCut_crc) (simp add: stored_crcs zero4_append field_get_append_left)
qed

lemma corrupt_header:
  assumes "decodeCorpusCut bound (pre @ us @ post) = Inr c" and "length us = length vs"
    and "length us \<le> 4" and "us \<noteq> vs" and "length pre + length us \<le> 864"
  shows "decodeCorpusCut bound (pre @ vs @ post) = Inl CorruptData"
proof -
  have len: "896 \<le> length (pre @ us @ post)" using validCut_crc [OF assms(1)] by (simp add: sizeof_CutHeader_def)
  define t where "t = zero4 (868 - length pre - length us) (zero4 (864 - length pre - length us)
      (take (896 - length pre - length us) post))"
  have "zero4 868 (zero4 864 (take 896 (pre @ ws @ post))) = pre @ ws @ t" if "length ws = length us" for ws
    using assms(5) that by (simp add: zero4_before t_def)
  then have "cutHeaderCrc (pre @ us @ post) = crc32c (pre @ us @ t)" "cutHeaderCrc (pre @ vs @ post) = crc32c (pre @ vs @ t)"
    using assms(2) by (simp_all add: cutHeaderCrc_def sizeof_CutHeader_def)
  moreover have "crc32c (pre @ us @ t) \<noteq> crc32c (pre @ vs @ t)" using crc32c_window assms(2-4) by blast
  moreover have "hd_headerCrc (cutHeader_of (pre @ vs @ post)) = hd_headerCrc (cutHeader_of (pre @ us @ post))"
    using assms(2,5) by (simp add: stored_crcs field_get_skip)
  ultimately show ?thesis using validCut_crc [OF assms(1)] by (intro invalidCut_crc) simp
qed

section \<open>A sample cut\<close>

definition sample_manifest :: BinaryMarketManifest where
  "sample_manifest = \<lparr>mf_magic = kBinaryMarketManifestMagic, mf_headerBytes = 192, mf_producerEpoch = 7,
     mf_startedReceiveNs = 5, mf_replayAnchorReceiveNs = 5, mf_replayAnchorMonotonicNs = 5,
     mf_finalizedReceiveNs = 0, mf_firstReceiveNs = 0, mf_lastReceiveNs = 0, mf_maximumBytes = 100000,
     mf_segmentTargetBytes = 4096, mf_projectedBytes = 0, mf_recordCount = 0, mf_gapCount = 0,
     mf_sourceCount = 1, mf_segmentCount = 0, mf_indexCount = 0, mf_shardCount = 1,
     mf_stopReason = stopRequested, mf_complete = 0, mf_sourcesCrc32c = 0, mf_indexCrc32c = 0,
     mf_gapsCrc32c = 0, mf_manifestCrc32c = 0, mf_reserved = replicate 40 0\<rparr>"

definition sample_cut :: CorpusCut where
  "sample_cut = \<lparr>ct_generation = 1, ct_committedMonotonicNs = 9,
     ct_progress = \<lparr>pg_producerEpoch = 7, pg_safeMonotonicNs = 0, pg_lossEpoch = 0, pg_directoryRevision = 0,
       pg_shardSequences = replicate 64 0, pg_shardCount = 1\<rparr>,
     ct_manifest = sample_manifest, ct_sources = [sample_source], ct_gaps = [], ct_blocks = [],
     ct_referencePayload = [1, 2, 3], ct_finalized = False\<rparr>"

lemma sample_cut_wf: "cut_wf sample_cut"
  using sample_source_wf by (simp add: cut_wf_def sample_cut_def sample_manifest_def progress_wf_def
      manifest_wf_def kBinaryMarketMaximumShards_def)

lemma sample_cut_payload: "length (cutPayload sample_cut) = 275"
  using length_cutPayload [OF sample_cut_wf] by (simp add: sample_cut_def)

lemma sample_cut_contract: "cutContract bound sample_cut"
  using sample_cut_payload sample_source_valid
  by (simp add: cutContract_def Let_def)
    (simp add: sample_cut_def sample_manifest_def kBinaryMarketMaximumSources_def
      kCorpusMaximumReferenceBytes_def sizeof_Manifest_def kBinaryMarketMaximumShards_def blockRecords_def
      sizeof_CutHeader_def)

lemma sample_cut_bytes: "sizeof_CutHeader + length (cutPayload sample_cut) < 2 ^ 64"
  by (simp add: sample_cut_payload sizeof_CutHeader_def)

section \<open>Properties\<close>

text \<open>C36: A cut written to disk is read back exactly as it was published if and only if it meets the
  decoder's contract; otherwise the decoder reports corrupt data. The contract is stated on the
  cut: sizes, counts and identities of the manifest agree with the tables, every source, gap and
  block reference is well formed, no gap cell occurs twice, and the records add up.\<close>

theorem cut_roundtrip_exact:
  assumes "cut_wf c" and "sizeof_CutHeader + length (cutPayload c) < 2 ^ 64"
  shows "decodeCorpusCut bound (encodeCorpusCut c) = (if cutContract bound c then Inr c else Inl CorruptData)"
  by (rule decode_encode [OF assms])

theorem cut_roundtrip_exact_witness:
  "decodeCorpusCut (\<lambda>layout n. 2000 * n) (encodeCorpusCut sample_cut) = Inr sample_cut"
  using cut_roundtrip_exact [OF sample_cut_wf sample_cut_bytes] sample_cut_contract by simp

text \<open>C37: A cut file that the decoder accepts is rejected as corrupt after any change of up to four
  consecutive bytes, whether in the tables, in the reference payload or in the header before its
  two checksum members.\<close>

theorem cut_detects_corruption:
  assumes "decodeCorpusCut bound (pre @ us @ post) = Inr c" and "length us = length vs"
    and "length us \<le> 4" and "us \<noteq> vs"
    and "sizeof_CutHeader \<le> length pre \<or> length pre + length us \<le> 864"
  shows "decodeCorpusCut bound (pre @ vs @ post) = Inl CorruptData"
  using corrupt_payload [OF assms(1-4)] corrupt_header [OF assms(1-4)] assms(5) by blast

theorem cut_detects_corruption_witness:
  "decodeCorpusCut (\<lambda>layout n. 2000 * n)
     (take 900 (encodeCorpusCut sample_cut) @ [encodeCorpusCut sample_cut ! 900 + 1] @
      drop 901 (encodeCorpusCut sample_cut)) = Inl CorruptData"
proof -
  let ?e = "encodeCorpusCut sample_cut"
  have len: "length ?e = 1171"
    using length_encode [OF sample_cut_wf] sample_cut_payload by (simp add: sizeof_CutHeader_def)
  have "take 900 ?e @ [?e ! 900] @ drop 901 ?e = ?e"
    using len id_take_nth_drop [of 900 ?e] by simp
  then have "decodeCorpusCut (\<lambda>layout n. 2000 * n) (take 900 ?e @ [?e ! 900] @ drop 901 ?e) = Inr sample_cut"
    using decode_encode [OF sample_cut_wf sample_cut_bytes] sample_cut_contract by simp
  from cut_detects_corruption [OF this, of "[?e ! 900 + 1]"] show ?thesis
    using len by (simp add: sizeof_CutHeader_def)
qed

end
