(* ===== verification/WriterBase.thy ===== *)
theory WriterBase
  imports CutCodec SourceState DepthTransaction Json
begin

text \<open>
  The state of the corpus writer, \<^verbatim>\<open>Corpus/BinaryMarketCorpusWriter.cpp\<close>, its byte budgets and
  its file operations.

  An operation that can fail returns its outcome with the state it leaves, also when it fails half
  way. The disk is a map from paths to contents together with the outcomes of the system calls
  still to come: each open, stream write, flush, sync, rename and directory creation takes the next
  outcome, and an exhausted list means success. A write that fails leaves the contents as they were
  and its stream bad, and a bad or closed stream fails every later write. Allocation failures are
  not modelled. The compressor is a parameter: its size bound and its encoder, which is given the
  size of the output buffer.
\<close>

section \<open>Early returns\<close>

definition andThen :: "bool \<times> 's \<Rightarrow> ('s \<Rightarrow> bool \<times> 's) \<Rightarrow> bool \<times> 's" where
  "andThen r f = (case r of (ok, s) \<Rightarrow> if ok then f s else (False, s))"

text \<open>\<open>andThen\<close> is a chain of \<^verbatim>\<open>if(!step) return false\<close>, \<open>orReturn\<close> one of \<^verbatim>\<open>if(!step) return status\<close>.\<close>

definition orReturn :: "bool \<times> 's \<Rightarrow> status \<Rightarrow> ('s \<Rightarrow> status \<times> 's) \<Rightarrow> status \<times> 's" where
  "orReturn r failure f = (case r of (ok, s) \<Rightarrow> if ok then f s else (failure, s))"

section \<open>External parts\<close>

record compressor =
  cz_bound :: "ByteBlockLayout \<Rightarrow> nat \<Rightarrow> nat"
  cz_encode :: "ByteBlockLayout \<Rightarrow> bytes \<Rightarrow> nat \<Rightarrow> bytes option"

record disk =
  d_files :: "string \<Rightarrow> bytes option"
  d_outcomes :: "bool list"

definition io :: "disk \<Rightarrow> bool \<times> disk" where
  "io d = (case d_outcomes d of [] \<Rightarrow> (True, d) | b # bs \<Rightarrow> (b, d\<lparr>d_outcomes := bs\<rparr>))"

definition putFile :: "string \<Rightarrow> bytes \<Rightarrow> disk \<Rightarrow> disk" where
  "putFile path bs d = d\<lparr>d_files := (d_files d)(path := Some bs)\<rparr>"

definition contents :: "string \<Rightarrow> disk \<Rightarrow> bytes" where
  "contents path d = (case d_files d path of None \<Rightarrow> [] | Some bs \<Rightarrow> bs)"

definition renameFile :: "string \<Rightarrow> string \<Rightarrow> disk \<Rightarrow> bool \<times> disk" where
  "renameFile from to d = andThen (io d) (\<lambda>d. (True,
     d\<lparr>d_files := (d_files d)(to := d_files d from, from := None)\<rparr>))"

text \<open>The outcome of a removal is ignored by its caller.\<close>

definition removeFile :: "string \<Rightarrow> disk \<Rightarrow> disk" where
  "removeFile path d = (case io d of (ok, d') \<Rightarrow>
     if ok then d'\<lparr>d_files := (d_files d')(path := None)\<rparr> else d')"

text \<open>Open and truncate the temporary file, write the chunks, flush, close, sync, rename over the
  target and sync the directory.\<close>

fun writeChunks :: "string \<Rightarrow> bytes list \<Rightarrow> disk \<Rightarrow> bool \<times> disk" where
  "writeChunks path [] d = (True, d)"
| "writeChunks path (c # cs) d =
     andThen (io d) (\<lambda>d. writeChunks path cs (putFile path (contents path d @ c) d))"

definition writeFileAtomic :: "string \<Rightarrow> string \<Rightarrow> bytes list \<Rightarrow> disk \<Rightarrow> bool \<times> disk" where
  "writeFileAtomic temporary target chunks d =
     andThen (io d) (\<lambda>d.
     andThen (writeChunks temporary chunks (putFile temporary [] d)) (\<lambda>d.
     andThen (io d) (\<lambda>d.
     andThen (io d) (\<lambda>d.
     andThen (renameFile temporary target d) io))))"

section \<open>Byte budgets\<close>

definition addWithin :: "u64 \<Rightarrow> u64 \<Rightarrow> u64 \<Rightarrow> bool" where
  "addWithin current amount limit \<longleftrightarrow> amount \<le> 0xffffffffffffffff - current \<and> current + amount \<le> limit"

definition addProduct :: "u64 \<Rightarrow> u64 \<Rightarrow> u64 \<Rightarrow> u64 option" where
  "addProduct bytes count unitBytes =
     (if unitBytes \<noteq> 0 \<and> (0xffffffffffffffff - bytes) div unitBytes < count then None
      else Some (bytes + count * unitBytes))"

definition kCutHeaderReserveBytes :: u64 where "kCutHeaderReserveBytes = 4096"
definition kSourceStorageBytes :: u64 where
  "kSourceStorageBytes = word_of_nat (sizeof_BinaryMarketSource + kBinaryMarketStoredChannelCount * sizeof_Gap)"
definition kSourceReservationBytes :: u64 where "kSourceReservationBytes = 3 * kSourceStorageBytes"
definition kRecordCutReservationBytes :: u64 where
  "kRecordCutReservationBytes = 2 * word_of_nat sizeof_BlockRange"
definition fixedSegmentBytes :: u64 where
  "fixedSegmentBytes = word_of_nat (sizeof_SegmentHeader + sizeof_SegmentFooter)"

definition cutReservationBytes :: "u64 \<Rightarrow> u64 \<Rightarrow> u64 \<Rightarrow> u64 \<Rightarrow> u64 option" where
  "cutReservationBytes sources gaps blocks referenceBytes = do {
     b1 \<leftarrow> addProduct kCutHeaderReserveBytes sources (word_of_nat sizeof_BinaryMarketSource);
     b2 \<leftarrow> addProduct b1 gaps (word_of_nat sizeof_Gap);
     b3 \<leftarrow> addProduct b2 blocks (word_of_nat sizeof_BlockRange);
     b4 \<leftarrow> addProduct b3 referenceBytes 1;
     if 0xffffffffffffffff div 2 < b4 then None else Some (b4 * 2) }"

definition binaryMarketPendingRecordBytes :: "compressor \<Rightarrow> u64" where
  "binaryMarketPendingRecordBytes cz =
     word_of_nat sizeof_BlockHeader + word_of_nat (cz_bound cz (binaryMarketBlockLayout chDepth) 1)"

subsection \<open>The sums are exact\<close>

lemma max_minus: "unat (0xffffffffffffffff - (x :: u64)) = 2 ^ 64 - 1 - unat x"
proof -
  have "x \<le> 0xffffffffffffffff" using unat_lt64 [of x] by (simp add: word_le_nat_alt)
  then show ?thesis by (simp add: unat_sub)
qed

lemma addWithin_iff [budget_simps]: "addWithin a b l \<longleftrightarrow> unat a + unat b \<le> unat l"
proof -
  have fit: "b \<le> 0xffffffffffffffff - a \<longleftrightarrow> unat a + unat b < 2 ^ 64"
    using unat_lt64 [of a] by (simp add: word_le_nat_alt max_minus) linarith
  show ?thesis unfolding addWithin_def fit using unat_lt64 [of l]
    by (auto simp: word_le_nat_alt unat_word_ariths)
qed

lemma unat_addWithin: "addWithin a b l \<Longrightarrow> unat (a + b) = unat a + unat b"
  using unat_lt64 [of l] by (simp add: budget_simps unat_word_ariths)

lemma addProduct_eq [budget_simps]:
  "addProduct b n u = (if unat b + unat n * unat u < 2 ^ 64 then Some (b + n * u) else None)"
proof (cases "u = 0")
  case False
  then have pos: "0 < unat u" by (simp add: unat_gt_0)
  have "(0xffffffffffffffff - b) div u < n \<longleftrightarrow> (2 ^ 64 - 1 - unat b) div unat u < unat n"
    by (simp add: word_less_nat_alt unat_div max_minus)
  also have "\<dots> \<longleftrightarrow> 2 ^ 64 - 1 - unat b < unat n * unat u"
    using pos by (simp add: div_less_iff_less_mult)
  also have "\<dots> \<longleftrightarrow> \<not> unat b + unat n * unat u < 2 ^ 64" using unat_lt64 [of b] by linarith
  finally show ?thesis using False by (simp add: addProduct_def)
qed (use unat_lt64 [of b] in \<open>simp add: addProduct_def\<close>)

lemma unat_addProduct:
  "unat (b :: u64) + unat n * unat u < 2 ^ 64 \<Longrightarrow> unat (b + n * u) = unat b + unat n * unat u"
  by (simp add: unat_word_ariths mod_add_right_eq)

lemma addProduct_SomeD:
  "addProduct b n u = Some r \<Longrightarrow> unat r = unat b + unat n * unat u"
  by (auto simp: budget_simps unat_addProduct split: if_splits)

lemma unat_constants [budget_simps]:
  "unat kCutHeaderReserveBytes = 4096" "unat kSourceStorageBytes = 992" "unat kSourceReservationBytes = 2976"
  "unat kRecordCutReservationBytes = 192" "unat fixedSegmentBytes = 192"
  by (simp_all add: kCutHeaderReserveBytes_def kSourceStorageBytes_def kSourceReservationBytes_def
      kRecordCutReservationBytes_def fixedSegmentBytes_def sizeof_BinaryMarketSource_def sizeof_Gap_def
      kBinaryMarketStoredChannelCount_def sizeof_BlockRange_def sizeof_SegmentHeader_def sizeof_SegmentFooter_def)

definition cutBytes :: "nat \<Rightarrow> nat \<Rightarrow> nat \<Rightarrow> nat \<Rightarrow> nat" where
  "cutBytes sources gaps blocks referenceBytes =
     2 * (4096 + 272 * sources + 80 * gaps + 96 * blocks + referenceBytes)"

lemma cutReservationBytes_eq:
  "cutReservationBytes s g b r =
     (let n = cutBytes (unat s) (unat g) (unat b) (unat r) in if n < 2 ^ 64 then Some (word_of_nat n) else None)"
proof -
  have u: "unat (word_of_nat sizeof_BinaryMarketSource :: u64) = 272" "unat (word_of_nat sizeof_Gap :: u64) = 80"
    "unat (word_of_nat sizeof_BlockRange :: u64) = 96"
    by (simp_all add: sizeof_BinaryMarketSource_def sizeof_Gap_def sizeof_BlockRange_def)
  let ?n = "4096 + 272 * unat s + 80 * unat g + 96 * unat b + unat r"
  show ?thesis
  proof (cases "?n < 2 ^ 64")
    case True
    define t where "t = kCutHeaderReserveBytes + s * word_of_nat sizeof_BinaryMarketSource +
      g * word_of_nat sizeof_Gap + b * word_of_nat sizeof_BlockRange + r * 1"
    have t: "unat t = ?n" unfolding t_def using True
      by (simp add: unat_addProduct u unat_constants unat_word_ariths mod_simps del: mult_1_right)
    have h: "(0x7fffffffffffffff < t) = (\<not> 2 * ?n < 2 ^ 64)" by (simp add: word_less_nat_alt t) linarith
    have d: "2 * ?n < 2 ^ 64 \<Longrightarrow> t * 2 = word_of_nat (2 * ?n)"
      by (simp add: word_unat_eq_iff unat_word_ariths t unat_of_nat)
    have "cutReservationBytes s g b r = (if 0xffffffffffffffff div 2 < t then None else Some (t * 2))"
      unfolding cutReservationBytes_def t_def using True
      by (simp add: addProduct_eq u unat_constants unat_word_ariths mod_simps)
    then show ?thesis using h d by (simp add: cutBytes_def Let_def)
  next
    case False
    then show ?thesis
      by (auto simp: cutReservationBytes_def cutBytes_def Let_def budget_simps u unat_word_ariths split: bind_splits if_splits)
  qed
qed

section \<open>State\<close>

type_synonym IndexKey = "u32 \<times> u64 \<times> u8"

record SegmentState =
  sg_partialPath :: string
  sg_finalPath :: string
  sg_header :: BinaryMarketSegmentHeader
  sg_indexPositions :: "IndexKey \<Rightarrow> nat option"
  sg_projectedBytes :: u64
  sg_pending :: "BinaryMarketRecord list"
  sg_encodedCapacity :: nat
  sg_streamGood :: bool
  sg_previousShardSequence :: u64
  sg_previousMonotonicNs :: u64
  sg_open :: bool

record WriterConfigA =
  cf_root :: string
  cf_sources :: "BinaryMarketSource list"
  cf_producerEpoch :: u64
  cf_maximumBytes :: u64
  cf_segmentTargetBytes :: u64
  cf_targetDurationNs :: u64
  cf_startedReceiveNs :: i64
  cf_startedMonotonicNs :: u64

record BinaryMarketWriterConfig = WriterConfigA +
  cf_ringCapacity :: u32
  cf_shardCount :: u16
  cf_referenceVisibilityBinder :: "(bytes \<Rightarrow> bytes \<Rightarrow> u64 \<Rightarrow> u64 \<Rightarrow> status \<times> bytes) option"
  cf_maximumReferenceBytes :: u64
  cf_retainedCompressedBytes :: u64
  cf_pendingRecordCapacity :: u64

record WriterStateA =
  w_config :: BinaryMarketWriterConfig
  w_manifest :: BinaryMarketManifest
  w_sources :: "BinaryMarketSource list"
  w_sourceStates :: "BinaryMarketSourceState list"
  w_index :: "BinaryMarketIndexEntry list"
  w_gaps :: "BinaryMarketGap list"
  w_segments :: "SegmentState list"
  w_depthTransactions :: "BinaryMarketDepthTransactionState list"
  w_projectedBytes :: u64
  w_writeLimitBytes :: u64
  w_maximumGapRecords :: u64

record WriterState = WriterStateA +
  w_nextSegmentNumber :: u32
  w_active :: bool
  w_quotaReached :: bool
  w_progress :: CorpusProducerProgress
  w_blocks :: "CorpusBlockRange list"
  w_referencePayload :: bytes
  w_publication :: "CorpusCut CorpusPublication"
  w_cutGeneration :: u64
  w_cutReservedBytes :: u64
  w_referenceReservedBytes :: u64
  w_replayAnchorFrozen :: bool
  w_disk :: disk

definition setSegment :: "nat \<Rightarrow> SegmentState \<Rightarrow> WriterState \<Rightarrow> WriterState" where
  "setSegment shard g w = w\<lparr>w_segments := (w_segments w)[shard := g]\<rparr>"

definition emptySegmentHeader :: BinaryMarketSegmentHeader where
  "emptySegmentHeader = \<lparr>sh_magic = kBinaryMarketSegmentMagic, sh_headerBytes = 0, sh_recordBytes = 0,
     sh_segmentNumber = 0, sh_producerEpoch = 0, sh_recordCount = 0, sh_firstReceiveNs = 0,
     sh_lastReceiveNs = 0, sh_shardIndex = 0, sh_reserved16 = 0, sh_recordsCrc32c = 0, sh_headerCrc32c = 0,
     sh_storedBlockBytes = 0, sh_blockCount = 0, sh_codecId = 1, sh_reserved = replicate 48 0\<rparr>"

definition emptySegment :: SegmentState where
  "emptySegment = \<lparr>sg_partialPath = [], sg_finalPath = [], sg_header = emptySegmentHeader,
     sg_indexPositions = (\<lambda>k. None), sg_projectedBytes = 0, sg_pending = [], sg_encodedCapacity = 0, sg_streamGood = False,
     sg_previousShardSequence = 0, sg_previousMonotonicNs = 0, sg_open = False\<rparr>"

definition padLeft :: "nat \<Rightarrow> string \<Rightarrow> string" where
  "padLeft n s = replicate (n - length s) (CHR ''0'') @ s"

definition segmentPath :: "string \<Rightarrow> u16 \<Rightarrow> u32 \<Rightarrow> string \<Rightarrow> string" where
  "segmentPath root shard segment suffix = root @ ''/segments/shard-'' @ padLeft 4 (to_chars_u shard) @
     ''-segment-'' @ padLeft 6 (to_chars_u segment) @ ''.'' @ suffix"

section \<open>Files of the writer\<close>

definition onDisk :: "(disk \<Rightarrow> bool \<times> disk) \<Rightarrow> WriterState \<Rightarrow> bool \<times> WriterState" where
  "onDisk f w = (case f (w_disk w) of (ok, d) \<Rightarrow> (ok, w\<lparr>w_disk := d\<rparr>))"

text \<open>A write to the stream of a segment edits the logical contents of its partial file.\<close>

definition streamWrite :: "nat \<Rightarrow> (bytes \<Rightarrow> bytes) \<Rightarrow> WriterState \<Rightarrow> bool \<times> WriterState" where
  "streamWrite shard edit w =
     (let g = w_segments w ! shard; path = sg_partialPath g in
      if \<not> sg_streamGood g then (False, w)
      else case onDisk io w of (ok, w') \<Rightarrow>
        if \<not> ok then (False, setSegment shard (g\<lparr>sg_streamGood := False\<rparr>) w')
        else (True, w'\<lparr>w_disk := putFile path (edit (contents path (w_disk w'))) (w_disk w')\<rparr>))"

definition writeBytes :: "nat \<Rightarrow> bytes \<Rightarrow> WriterState \<Rightarrow> bool \<times> WriterState" where
  "writeBytes shard bs = streamWrite shard (\<lambda>old. old @ bs)"

definition rewriteStart :: "nat \<Rightarrow> bytes \<Rightarrow> WriterState \<Rightarrow> bool \<times> WriterState" where
  "rewriteStart shard bs = streamWrite shard (\<lambda>old. bs @ drop (length bs) old)"

definition flushStream :: "nat \<Rightarrow> WriterState \<Rightarrow> bool \<times> WriterState" where
  "flushStream shard = streamWrite shard id"

definition writeTableAtomic ::
  "string \<Rightarrow> u32 \<Rightarrow> nat \<Rightarrow> ('a \<Rightarrow> bytes) \<Rightarrow> 'a list \<Rightarrow> WriterState \<Rightarrow> u32 option \<times> WriterState" where
  "writeTableAtomic target magic n g records w =
     (if 0xffffffff < length records then (None, w)
      else let rows = concat (map g records); h = tableHeader magic n rows (length records) in
        case onDisk (writeFileAtomic (target @ ''.tmp'') target
            (tableHeader_image h # (if rows = [] then [] else [rows]))) w of
          (ok, w') \<Rightarrow> (if ok then Some (th_recordsCrc32c h) else None, w'))"

definition writeManifestAtomic :: "string \<Rightarrow> BinaryMarketManifest \<Rightarrow> disk \<Rightarrow> bool \<times> disk" where
  "writeManifestAtomic target manifest =
     writeFileAtomic (target @ ''.tmp'') target [manifest_image (sealManifest manifest)]"

definition writeCorpusCut :: "string \<Rightarrow> CorpusCut \<Rightarrow> WriterState \<Rightarrow> bool \<times> WriterState" where
  "writeCorpusCut root c =
     onDisk (writeFileAtomic (root @ ''/cut.pending'') (root @ ''/cut.bin'') [encodeCorpusCut c])"

end
