(* ===== verification/Writer.thy ===== *)
theory Writer
  imports WriterBase
begin

text \<open>
  Every operation of the class \<^verbatim>\<open>BinaryMarketCorpusWriter\<close>. Before \<^verbatim>\<open>start\<close> succeeds the object holds no
  state, which is None here. Segments are named by their shard, the index into the vector of
  segments. The steady clock is an argument of \<^verbatim>\<open>publishCut\<close> and \<^verbatim>\<open>finalize\<close>; what the file system says
  of the corpus root is an argument of \<^verbatim>\<open>start\<close>.
\<close>

section \<open>Segments\<close>

definition reserveBytes :: "u64 \<Rightarrow> WriterState \<Rightarrow> bool \<times> WriterState" where
  "reserveBytes bytes w =
     (if \<not> addWithin (w_projectedBytes w) bytes (w_writeLimitBytes w) then (False, w\<lparr>w_quotaReached := True\<rparr>)
      else (True, w\<lparr>w_projectedBytes := w_projectedBytes w + bytes\<rparr>))"

definition openHeader :: "u16 \<Rightarrow> WriterState \<Rightarrow> BinaryMarketSegmentHeader" where
  "openHeader shardIndex w = emptySegmentHeader\<lparr>sh_headerBytes := word_of_nat sizeof_SegmentHeader,
     sh_recordBytes := word_of_nat sizeof_BinaryMarketRecord, sh_segmentNumber := w_nextSegmentNumber w,
     sh_producerEpoch := cf_producerEpoch (w_config w), sh_shardIndex := shardIndex\<rparr>"

definition freshSegment :: "SegmentState \<Rightarrow> SegmentState" where
  "freshSegment old = emptySegment\<lparr>sg_previousShardSequence := sg_previousShardSequence old,
     sg_previousMonotonicNs := sg_previousMonotonicNs old\<rparr>"

definition numberedSegment :: "compressor \<Rightarrow> u16 \<Rightarrow> WriterState \<Rightarrow> SegmentState \<Rightarrow> SegmentState" where
  "numberedSegment cz shardIndex w old =
     (let h = openHeader shardIndex w; root = cf_root (w_config w) in
      (freshSegment old)\<lparr>
        sg_encodedCapacity := cz_bound cz (binaryMarketBlockLayout chDepth) kBinaryMarketBlockRecords,
        sg_header := h, sg_partialPath := segmentPath root shardIndex (sh_segmentNumber h) ''partial'',
        sg_finalPath := segmentPath root shardIndex (sh_segmentNumber h) ''cxm''\<rparr>)"

definition openSegment :: "compressor \<Rightarrow> u16 \<Rightarrow> WriterState \<Rightarrow> bool \<times> WriterState" where
  "openSegment cz shardIndex w =
     (let shard = unat shardIndex; old = w_segments w ! shard in
      if length (w_segments w) \<le> shard then (False, w)
      else if sg_open old then (True, w)
      else if w_nextSegmentNumber w = 0xffffffff then (False, w)
      else andThen (onDisk io (setSegment shard (freshSegment old) w)) (\<lambda>w.
        let g = numberedSegment cz shardIndex w old in
        andThen (onDisk io (setSegment shard g (w\<lparr>w_nextSegmentNumber := w_nextSegmentNumber w + 1\<rparr>))) (\<lambda>w.
        andThen (writeBytes shard (segmentHeader_image (sg_header g))
          (setSegment shard (g\<lparr>sg_streamGood := True\<rparr>)
            (w\<lparr>w_disk := putFile (sg_partialPath g) [] (w_disk w)\<rparr>))) (\<lambda>w.
        (True, setSegment shard ((w_segments w ! shard)\<lparr>sg_projectedBytes := fixedSegmentBytes,
          sg_open := True\<rparr>) w)))))"

definition blockRaw :: "SegmentState \<Rightarrow> bytes" where
  "blockRaw g = concat (map record_image (sg_pending g))"

definition blockHeaderFor :: "SegmentState \<Rightarrow> bytes \<Rightarrow> BinaryMarketBlockHeader" where
  "blockHeaderFor g encoded =
     (let h = header (hd (sg_pending g)); raw = blockRaw g;
          b = \<lparr>bk_magic = kBinaryMarketBlockMagic, bk_headerBytes = 64,
            bk_blockNumber = sh_blockCount (sg_header g) + 1,
            bk_recordCount = word_of_nat (length (sg_pending g)),
            bk_rawBytes = word_of_nat (length (sg_pending g) * sizeof_BinaryMarketRecord),
            bk_encodedBytes = word_of_nat (length encoded), bk_rawCrc32c = crc32c raw,
            bk_encodedCrc32c = crc32c encoded, bk_firstShardSequence = rh_shardSequence h,
            bk_lastShardSequence = rh_shardSequence (header (last (sg_pending g))), bk_headerCrc32c = 0,
            bk_channel = rh_channel h, bk_reserved = replicate 11 0\<rparr>
      in b\<lparr>bk_headerCrc32c := crc32c (marketBlock_image b)\<rparr>)"

definition blockRange :: "SegmentState \<Rightarrow> bytes \<Rightarrow> CorpusBlockRange" where
  "blockRange g encoded = \<lparr>cr_offset = word_of_nat sizeof_SegmentHeader + sh_storedBlockBytes (sg_header g),
     cr_firstMonotonicNs = rh_receiveMonotonicNs (header (hd (sg_pending g))),
     cr_lastMonotonicNs = rh_receiveMonotonicNs (header (last (sg_pending g))),
     cr_segmentNumber = sh_segmentNumber (sg_header g), cr_shardIndex = sh_shardIndex (sg_header g),
     cr_reserved = 0, cr_header = blockHeaderFor g encoded\<rparr>"

text \<open>What a flush does once the block is on the stream.\<close>

definition storeBlock :: "compressor \<Rightarrow> nat \<Rightarrow> bytes \<Rightarrow> WriterState \<Rightarrow> WriterState" where
  "storeBlock cz shard encoded w =
     (let g = w_segments w ! shard; r = blockRange g encoded;
          physicalBytes = word_of_nat (sizeof_BlockHeader + length encoded);
          released = word_of_nat (length (sg_pending g)) * binaryMarketPendingRecordBytes cz - physicalBytes in
      setSegment shard (g\<lparr>sg_projectedBytes := sg_projectedBytes g - released,
          sg_header := (sg_header g)\<lparr>sh_storedBlockBytes := sh_storedBlockBytes (sg_header g) + physicalBytes,
            sh_blockCount := sh_blockCount (sg_header g) + 1\<rparr>,
          sg_pending := []\<rparr>)
        (w\<lparr>w_blocks := w_blocks w @ [r], w_publication := retain r encoded (w_publication w),
           w_projectedBytes := w_projectedBytes w - released\<rparr>))"

definition flushBlock :: "compressor \<Rightarrow> nat \<Rightarrow> WriterState \<Rightarrow> bool \<times> WriterState" where
  "flushBlock cz shard w =
     (let g = w_segments w ! shard in
      if sg_pending g = [] then (True, w)
      else case cz_encode cz (binaryMarketBlockLayout (rh_channel (header (hd (sg_pending g))))) (blockRaw g)
          (sg_encodedCapacity g) of
        None \<Rightarrow> (False, w)
      | Some encoded \<Rightarrow>
        if encoded = [] \<or> sg_encodedCapacity g < length encoded \<or> sh_blockCount (sg_header g) = 0xffffffff
        then (False, w)
        else if word_of_nat (length (sg_pending g)) * binaryMarketPendingRecordBytes cz
            < word_of_nat (sizeof_BlockHeader + length encoded)
        then (False, w)
        else andThen (writeBytes shard (marketBlock_image (blockHeaderFor g encoded)) w) (\<lambda>w.
          andThen (writeBytes shard encoded w) (\<lambda>w. (True, storeBlock cz shard encoded w))))"

definition footerFor :: "BinaryMarketSegmentHeader \<Rightarrow> BinaryMarketSegmentFooter" where
  "footerFor h =
     (let f = \<lparr>sf_magic = kBinaryMarketSegmentFooterMagic, sf_footerBytes = word_of_nat sizeof_SegmentFooter,
        sf_segmentNumber = sh_segmentNumber h, sf_recordsCrc32c = sh_recordsCrc32c h,
        sf_recordCount = sh_recordCount h, sf_firstReceiveNs = sh_firstReceiveNs h,
        sf_lastReceiveNs = sh_lastReceiveNs h, sf_footerCrc32c = 0, sf_reserved = replicate 20 0\<rparr>
      in f\<lparr>sf_footerCrc32c := crc32c (segmentFooter_image f)\<rparr>)"

definition sealHeader :: "BinaryMarketSegmentHeader \<Rightarrow> BinaryMarketSegmentHeader" where
  "sealHeader h = h\<lparr>sh_headerCrc32c := crc32c (segmentHeader_image (h\<lparr>sh_headerCrc32c := 0\<rparr>))\<rparr>"

definition sealTail :: "nat \<Rightarrow> WriterState \<Rightarrow> bool \<times> WriterState" where
  "sealTail shard w =
     (let g = w_segments w ! shard; h = sealHeader (sg_header g) in
      andThen (rewriteStart shard (segmentHeader_image h) (setSegment shard (g\<lparr>sg_header := h\<rparr>) w)) (\<lambda>w.
      andThen (writeBytes shard (segmentFooter_image (footerFor h)) w) (\<lambda>w.
      andThen (flushStream shard w) (\<lambda>w.
      andThen (onDisk io (setSegment shard ((w_segments w ! shard)\<lparr>sg_streamGood := False\<rparr>) w)) (\<lambda>w.
      andThen (onDisk (renameFile (sg_partialPath g) (sg_finalPath g)) w) (\<lambda>w.
      (True, setSegment shard ((w_segments w ! shard)\<lparr>sg_open := False, sg_indexPositions := (\<lambda>k. None)\<rparr>)
        (w\<lparr>w_manifest := (w_manifest w)\<lparr>mf_segmentCount := mf_segmentCount (w_manifest w) + 1\<rparr>\<rparr>))))))))"

definition sealSegment :: "compressor \<Rightarrow> nat \<Rightarrow> WriterState \<Rightarrow> bool \<times> WriterState" where
  "sealSegment cz shard w =
     (if length (w_segments w) \<le> shard then (False, w)
      else if \<not> sg_open (w_segments w ! shard) then (True, w)
      else andThen (flushBlock cz shard w) (sealTail shard))"

definition ensureIndex ::
  "u16 \<Rightarrow> u32 \<Rightarrow> u64 \<Rightarrow> u8 \<Rightarrow> WriterState \<Rightarrow> nat option \<times> WriterState" where
  "ensureIndex shardIndex source sourceGen channel w =
     (let shard = unat shardIndex; g = w_segments w ! shard; key = (source, sourceGen, channel) in
      case sg_indexPositions g key of
        Some position \<Rightarrow> (Some position, w)
      | None \<Rightarrow>
        let position = length (w_index w) in
        if unat (cf_maximumBytes (w_config w)) div sizeof_IndexEntry \<le> position \<or> 0xffffffff \<le> position
        then (None, w)
        else (Some position, setSegment shard (g\<lparr>sg_indexPositions := (sg_indexPositions g)(key \<mapsto> position)\<rparr>)
          (w\<lparr>w_index := w_index w @ [\<lparr>ix_segmentNumber = sh_segmentNumber (sg_header g), ix_sourceId = source,
              ix_sourceGeneration = sourceGen, ix_recordCount = 0, ix_gapCount = 0, ix_firstEventSequence = 0,
              ix_lastEventSequence = 0, ix_firstReceiveNs = 0, ix_lastReceiveNs = 0, ix_flags = 0,
              ix_shardIndex = shardIndex, ix_channel = channel, ix_compatibility = compatExactTraderReplay\<rparr>]\<rparr>)))"

section \<open>Start\<close>

datatype RootState = RootMissing | RootEmpty | RootOther

definition startConfigInvalid :: "BinaryMarketWriterConfig \<Rightarrow> bool" where
  "startConfigInvalid c \<longleftrightarrow> cf_root c = [] \<or> cf_sources c = [] \<or> cf_producerEpoch c = 0 \<or> cf_maximumBytes c = 0 \<or>
     cf_shardCount c = 0 \<or> kBinaryMarketMaximumShards < unat (cf_shardCount c) \<or> cf_ringCapacity c = 0 \<or>
     sint (cf_startedReceiveNs c) \<le> 0 \<or> cf_startedMonotonicNs c = 0 \<or> cf_targetDurationNs c = 0 \<or>
     unat (cf_segmentTargetBytes c) < sizeof_SegmentHeader + sizeof_BinaryMarketRecord + sizeof_SegmentFooter \<or>
     kBinaryMarketMaximumSources < length (cf_sources c)"

record StartBudget =
  sb_fixedMetadata :: u64
  sb_initialCutReserve :: u64
  sb_maximumGapRecords :: u64
  sb_finalDrainReserve :: u64

definition worstRecordBytes :: "compressor \<Rightarrow> u64" where
  "worstRecordBytes cz = binaryMarketPendingRecordBytes cz + kRecordCutReservationBytes +
     word_of_nat sizeof_IndexEntry + word_of_nat sizeof_SegmentHeader + word_of_nat sizeof_SegmentFooter"

definition startBudget :: "compressor \<Rightarrow> BinaryMarketWriterConfig \<Rightarrow> StartBudget option" where
  "startBudget cz c =
     (let sources = word_of_nat (length (cf_sources c)) :: u64;
          ringRecords = ucast (cf_shardCount c) * ucast (cf_ringCapacity c) :: u64 in do {
      gaps \<leftarrow> addProduct 0 sources (word_of_nat kBinaryMarketStoredChannelCount);
      m1 \<leftarrow> addProduct kCutHeaderReserveBytes 2 (word_of_nat sizeof_Manifest);
      m2 \<leftarrow> addProduct m1 3 64;
      m3 \<leftarrow> addProduct m2 sources kSourceStorageBytes;
      cutReserve \<leftarrow> cutReservationBytes sources gaps 0 0;
      fixedMetadata \<leftarrow> addProduct m3 1 cutReserve;
      if 0xffffffffffffffff - ringRecords < cf_pendingRecordCapacity c then None
      else let maximumPendingRecords = ringRecords + cf_pendingRecordCapacity c;
               pendingNewSources = min maximumPendingRecords (word_of_nat kBinaryMarketMaximumSources - sources) in do {
        d1 \<leftarrow> addProduct 0 maximumPendingRecords (worstRecordBytes cz);
        drain \<leftarrow> addProduct d1 pendingNewSources kSourceReservationBytes;
        b1 \<leftarrow> addProduct fixedMetadata 1 drain;
        minimumBytes \<leftarrow> addProduct b1 1 (worstRecordBytes cz);
        if cf_maximumBytes c < minimumBytes then None
        else Some \<lparr>sb_fixedMetadata = fixedMetadata, sb_initialCutReserve = cutReserve,
          sb_maximumGapRecords = gaps, sb_finalDrainReserve = drain\<rparr> } })"

definition startManifest :: "BinaryMarketWriterConfig \<Rightarrow> BinaryMarketManifest" where
  "startManifest c = \<lparr>mf_magic = kBinaryMarketManifestMagic, mf_headerBytes = word_of_nat sizeof_Manifest,
     mf_producerEpoch = cf_producerEpoch c, mf_startedReceiveNs = cf_startedReceiveNs c,
     mf_replayAnchorReceiveNs = cf_startedReceiveNs c, mf_replayAnchorMonotonicNs = cf_startedMonotonicNs c,
     mf_finalizedReceiveNs = 0, mf_firstReceiveNs = 0, mf_lastReceiveNs = 0,
     mf_maximumBytes = cf_maximumBytes c, mf_segmentTargetBytes = cf_segmentTargetBytes c,
     mf_projectedBytes = 0, mf_recordCount = 0, mf_gapCount = 0,
     mf_sourceCount = word_of_nat (length (cf_sources c)), mf_segmentCount = 0, mf_indexCount = 0,
     mf_shardCount = cf_shardCount c, mf_stopReason = stopRequested, mf_complete = 0,
     mf_sourcesCrc32c = 0, mf_indexCrc32c = 0, mf_gapsCrc32c = 0, mf_manifestCrc32c = 0,
     mf_reserved = replicate 40 0\<rparr>"

definition startState ::
  "cxet \<Rightarrow> BinaryMarketWriterConfig \<Rightarrow> StartBudget \<Rightarrow> disk \<Rightarrow> WriterState" where
  "startState cx c b d = \<lparr>w_config = c\<lparr>cf_sources := []\<rparr>, w_manifest = startManifest c,
     w_sources = cf_sources c, w_sourceStates = map initialBinaryMarketSourceState (cf_sources c),
     w_index = [], w_gaps = [], w_segments = replicate (unat (cf_shardCount c)) emptySegment,
     w_depthTransactions = replicate kBinaryMarketMaximumShards (emptyDepthTransaction cx),
     w_projectedBytes = sb_fixedMetadata b, w_writeLimitBytes = cf_maximumBytes c - sb_finalDrainReserve b,
     w_maximumGapRecords = sb_maximumGapRecords b, w_nextSegmentNumber = 1, w_active = True,
     w_quotaReached = False,
     w_progress = \<lparr>pg_producerEpoch = cf_producerEpoch c, pg_safeMonotonicNs = 0, pg_lossEpoch = 0,
       pg_directoryRevision = 0, pg_shardSequences = replicate kBinaryMarketMaximumShards 0,
       pg_shardCount = cf_shardCount c\<rparr>,
     w_blocks = [], w_referencePayload = [],
     w_publication = newPublication (min (cf_retainedCompressedBytes c) (cf_maximumBytes c)),
     w_cutGeneration = 0, w_cutReservedBytes = sb_initialCutReserve b, w_referenceReservedBytes = 0,
     w_replayAnchorFrozen = False, w_disk = d\<rparr>"

definition createRoot :: "RootState \<Rightarrow> disk \<Rightarrow> status \<times> disk" where
  "createRoot root d = (case root of RootOther \<Rightarrow> (InvalidArgument, d) | RootEmpty \<Rightarrow> (Ok, d)
     | RootMissing \<Rightarrow> (case io d of (ok, d') \<Rightarrow> (if ok then Ok else IoError, d')))"

definition start :: "cxet \<Rightarrow> compressor \<Rightarrow> BinaryMarketWriterConfig \<Rightarrow> RootState \<Rightarrow> disk \<Rightarrow>
    WriterState option \<Rightarrow> status \<times> WriterState option \<times> disk" where
  "start cx cz c root d s =
     (if (case s of None \<Rightarrow> False | Some w \<Rightarrow> w_active w) then (InvalidArgument, s, d)
      else if startConfigInvalid c then (InvalidArgument, s, d)
      else if \<not> list_all (\<lambda>n. validBinaryMarketSource (cf_sources c ! n) n) [0..<length (cf_sources c)]
      then (InvalidArgument, s, d)
      else case startBudget cz c of
        None \<Rightarrow> (OutOfRange, s, d)
      | Some b \<Rightarrow> (case createRoot root d of (st, d1) \<Rightarrow>
          if st \<noteq> Ok then (st, s, d1)
          else case andThen (io d1) (\<lambda>d. andThen (io d) (\<lambda>d. andThen (io d)
              (writeManifestAtomic (cf_root c @ ''/manifest.pending'')
                ((startManifest c)\<lparr>mf_stopReason := stopError\<rparr>)))) of (ok, d2) \<Rightarrow>
            if ok then (Ok, Some (startState cx c b d2), d2) else (IoError, s, d2)))"

definition whenActive ::
  "(WriterState \<Rightarrow> status \<times> WriterState) \<Rightarrow> WriterState option \<Rightarrow> status \<times> WriterState option" where
  "whenActive f s = (case s of None \<Rightarrow> (InvalidArgument, None)
     | Some w \<Rightarrow> if \<not> w_active w then (InvalidArgument, Some w)
       else case f w of (st, w') \<Rightarrow> (st, Some w'))"

section \<open>Sources\<close>

fun countSources :: "BinaryMarketSource list \<Rightarrow> BinaryMarketSource list \<Rightarrow> nat \<Rightarrow> nat option" where
  "countSources known [] projectedCount = Some projectedCount"
| "countSources known (s # ss) projectedCount =
     (if sourceId s = 0 \<or> \<not> validBinaryMarketSource s (unat (sourceId s) - 1) then None
      else if unat (sourceId s) \<le> length known then
        if \<not> sameBinaryMarketSourceIdentity (known ! (unat (sourceId s) - 1)) s then None
        else countSources known ss projectedCount
      else if unat (sourceId s) = projectedCount + 1 \<and> projectedCount < kBinaryMarketMaximumSources
      then countSources known ss (projectedCount + 1)
      else None)"

fun addSources :: "BinaryMarketSource list \<Rightarrow> WriterState \<Rightarrow> WriterState" where
  "addSources [] w = w"
| "addSources (s # ss) w =
     (if unat (sourceId s) \<le> length (w_sources w) then addSources ss w
      else let s' = s\<lparr>initiallyPresent := 0, initialSourceGeneration := 0\<rparr> in
        addSources ss (w\<lparr>w_sources := w_sources w @ [s'],
          w_sourceStates := w_sourceStates w @ [initialBinaryMarketSourceState s']\<rparr>))"

definition registerActive :: "BinaryMarketSource list \<Rightarrow> WriterState \<Rightarrow> status \<times> WriterState" where
  "registerActive sources w =
     (if kBinaryMarketMaximumSources < length sources then (InvalidArgument, w)
      else case countSources (w_sources w) sources (length (w_sources w)) of
        None \<Rightarrow> (InvalidArgument, w)
      | Some projectedCount \<Rightarrow>
        let addedCount = word_of_nat (projectedCount - length (w_sources w)) :: u64 in
        case (addProduct 0 addedCount kSourceReservationBytes, addProduct 0 addedCount (2 * kSourceStorageBytes)) of
          (Some requiredBytes, Some cutGrowth) \<Rightarrow>
            if \<not> addWithin (w_cutReservedBytes w) cutGrowth 0xffffffffffffffff \<or>
               \<not> addWithin (w_projectedBytes w) requiredBytes (w_writeLimitBytes w)
            then (OutOfRange, w\<lparr>w_quotaReached := True\<rparr>)
            else orReturn (reserveBytes requiredBytes w) OutOfRange (\<lambda>w.
              let w' = addSources sources (w\<lparr>w_cutReservedBytes := w_cutReservedBytes w + cutGrowth\<rparr>) in
              (Ok, w'\<lparr>w_manifest := (w_manifest w')\<lparr>mf_sourceCount := word_of_nat (length (w_sources w'))\<rparr>,
                w_maximumGapRecords := word_of_nat (length (w_sources w') * kBinaryMarketStoredChannelCount)\<rparr>))
        | _ \<Rightarrow> (OutOfRange, w\<lparr>w_quotaReached := True\<rparr>))"

definition registerSources ::
  "BinaryMarketSource list \<Rightarrow> WriterState option \<Rightarrow> status \<times> WriterState option" where
  "registerSources sources = whenActive (registerActive sources)"

section \<open>Append\<close>

record Admission =
  ad_newSource :: bool
  ad_addedSource :: BinaryMarketSource
  ad_prospective :: BinaryMarketSourceState
  ad_depth :: BinaryMarketDepthTransactionState

text \<open>The checks of a record against the writer's state, before any of it is changed.\<close>

definition recordOutOfRange :: "cxet \<Rightarrow> BinaryMarketRecord \<Rightarrow> WriterState \<Rightarrow> bool" where
  "recordOutOfRange cx r w =
     (let h = header r; lifecycle = (rh_channel h = chSourceLifecycle) in
      \<not> validBinaryMarketRecord cx r \<or> length (w_segments w) \<le> unat (rh_shardIndex h) \<or>
      length (w_sources w) + (if lifecycle then 1 else 0) < unat (rh_sourceId h) \<or>
      \<not> all_zero (drop (unat (rh_payloadBytes h)) (payload r)))"

definition admit :: "cxet \<Rightarrow> BinaryMarketRecord \<Rightarrow> WriterState \<Rightarrow> status + Admission" where
  "admit cx r w =
     (let h = header r; lifecycle = (rh_channel h = chSourceLifecycle); p = lifecycleOf r in
      if w_replayAnchorFrozen w \<and> rh_receiveMonotonicNs h < mf_replayAnchorMonotonicNs (w_manifest w)
      then Inl CorruptData
      else if recordOutOfRange cx r w then Inl InvalidArgument
      else case advanceBinaryMarketDepthTransaction cx r (w_depthTransactions w ! unat (rh_shardIndex h)) of
        (depthOk, depth) \<Rightarrow>
        if \<not> depthOk then Inl InvalidArgument
        else let newSource = (unat (rh_sourceId h) = length (w_sources w) + 1) in
          if newSource \<and> (\<not> lifecycle \<or> kBinaryMarketMaximumSources \<le> length (w_sources w)) then Inl OutOfRange
          else if newSource \<and> (lp_kind p \<noteq> kindAdded \<or> lp_previousSourceGeneration p \<noteq> 0)
          then Inl InvalidArgument
          else let added = (lp_source p)\<lparr>initiallyPresent := 0\<rparr>;
                   before = (if newSource then initialBinaryMarketSourceState added
                     else w_sourceStates w ! (unat (rh_sourceId h) - 1)) in
            case advanceBinaryMarketSourceState r False before of (ok, prospective) \<Rightarrow>
              if \<not> ok then Inl InvalidArgument
              else Inr \<lparr>ad_newSource = newSource, ad_addedSource = added, ad_prospective = prospective,
                ad_depth = depth\<rparr>)"

definition outOfOrder :: "BinaryMarketRecord \<Rightarrow> SegmentState \<Rightarrow> bool" where
  "outOfOrder r g \<longleftrightarrow>
     (sg_previousShardSequence g \<noteq> 0 \<and> rh_shardSequence (header r) \<le> sg_previousShardSequence g) \<or>
     (sg_previousMonotonicNs g \<noteq> 0 \<and> rh_receiveMonotonicNs (header r) < sg_previousMonotonicNs g)"

definition blockFull :: "BinaryMarketRecord \<Rightarrow> SegmentState \<Rightarrow> bool" where
  "blockFull r g \<longleftrightarrow> sg_open g \<and> sg_pending g \<noteq> [] \<and>
     (length (sg_pending g) = kBinaryMarketBlockRecords \<or>
      rh_channel (header (hd (sg_pending g))) \<noteq> rh_channel (header r))"

definition rotateNeeded :: "compressor \<Rightarrow> u64 \<Rightarrow> SegmentState \<Rightarrow> bool" where
  "rotateNeeded cz segmentTargetBytes g \<longleftrightarrow> sg_open g \<and> sg_pending g = [] \<and> sh_recordCount (sg_header g) \<noteq> 0 \<and>
     (segmentTargetBytes < sg_projectedBytes g \<or>
      segmentTargetBytes - sg_projectedBytes g < binaryMarketPendingRecordBytes cz)"

text \<open>The bytes a record must reserve and the growth of the cut reserve, None when a sum overflows or
  the segment numbers are used up.\<close>

definition appendNeeds ::
  "compressor \<Rightarrow> bool \<Rightarrow> bool \<Rightarrow> bool \<Rightarrow> WriterState \<Rightarrow> (u64 \<times> u64) option" where
  "appendNeeds cz newSource openNeeded indexNeeded w = do {
     r1 \<leftarrow> addProduct (binaryMarketPendingRecordBytes cz) 1 kRecordCutReservationBytes;
     r2 \<leftarrow> if newSource then addProduct r1 1 kSourceReservationBytes else Some r1;
     cutGrowth \<leftarrow> if newSource then addProduct kRecordCutReservationBytes 2 kSourceStorageBytes
       else Some kRecordCutReservationBytes;
     if \<not> addWithin (w_cutReservedBytes w) cutGrowth 0xffffffffffffffff then None
     else if openNeeded \<and> (0xffffffffffffffff - fixedSegmentBytes < r2 \<or> w_nextSegmentNumber w = 0xffffffff)
     then None
     else let r3 = (if openNeeded then r2 + fixedSegmentBytes else r2) in
       if indexNeeded \<and> 0xffffffffffffffff - word_of_nat sizeof_IndexEntry < r3 then None
       else Some (if indexNeeded then r3 + word_of_nat sizeof_IndexEntry else r3, cutGrowth) }"

fun flushOpen :: "compressor \<Rightarrow> nat list \<Rightarrow> WriterState \<Rightarrow> bool \<times> WriterState" where
  "flushOpen cz [] w = (True, w)"
| "flushOpen cz (shard # shards) w =
     (if sg_open (w_segments w ! shard) then andThen (flushBlock cz shard w) (flushOpen cz shards)
      else flushOpen cz shards w)"

definition earliest :: "i64 \<Rightarrow> i64 \<Rightarrow> i64" where
  "earliest first ns = (if first = 0 \<or> sint ns < sint first then ns else first)"

definition latest :: "i64 \<Rightarrow> i64 \<Rightarrow> i64" where
  "latest final ns = (if sint final < sint ns then ns else final)"

definition countEntry :: "BinaryMarketRecordHeader \<Rightarrow> BinaryMarketIndexEntry \<Rightarrow> BinaryMarketIndexEntry" where
  "countEntry h e =
     (let e1 = e\<lparr>ix_recordCount := ix_recordCount e + 1,
            ix_firstEventSequence := (if ix_firstEventSequence e = 0 then rh_eventSequence h
              else ix_firstEventSequence e),
            ix_lastEventSequence := rh_eventSequence h,
            ix_firstReceiveNs := earliest (ix_firstReceiveNs e) (rh_receiveRealtimeNs h),
            ix_lastReceiveNs := latest (ix_lastReceiveNs e) (rh_receiveRealtimeNs h)\<rparr>;
          e2 = (if rh_flags h AND RecordTraderReplayCompatible = 0
            then e1\<lparr>ix_flags := ix_flags e1 OR IndexHasRecordedOnly, ix_compatibility := compatRecordedOnly\<rparr>
            else e1)
      in if rh_flags h AND RecordGapBoundary \<noteq> 0
         then e2\<lparr>ix_flags := ix_flags e2 OR IndexHasGap, ix_gapCount := ix_gapCount e2 + 1\<rparr> else e2)"

definition countManifest :: "BinaryMarketRecordHeader \<Rightarrow> BinaryMarketManifest \<Rightarrow> BinaryMarketManifest" where
  "countManifest h m =
     (let m1 = m\<lparr>mf_recordCount := mf_recordCount m + 1\<rparr>;
          m2 = (if rh_receiveMonotonicNs h < mf_replayAnchorMonotonicNs m1
            then m1\<lparr>mf_replayAnchorMonotonicNs := rh_receiveMonotonicNs h,
              mf_replayAnchorReceiveNs := rh_receiveRealtimeNs h\<rparr> else m1)
      in m2\<lparr>mf_firstReceiveNs := earliest (mf_firstReceiveNs m2) (rh_receiveRealtimeNs h),
           mf_lastReceiveNs := latest (mf_lastReceiveNs m2) (rh_receiveRealtimeNs h)\<rparr>)"

definition countSegment :: "compressor \<Rightarrow> BinaryMarketRecord \<Rightarrow> SegmentState \<Rightarrow> SegmentState" where
  "countSegment cz r g =
     (let h = header r; sh = sg_header g in
      g\<lparr>sg_pending := sg_pending g @ [r], sg_previousShardSequence := rh_shardSequence h,
        sg_previousMonotonicNs := rh_receiveMonotonicNs h,
        sg_header := sh\<lparr>sh_recordsCrc32c := crc32cUpdate (sh_recordsCrc32c sh) (record_image r),
          sh_recordCount := sh_recordCount sh + 1,
          sh_firstReceiveNs := earliest (sh_firstReceiveNs sh) (rh_receiveRealtimeNs h),
          sh_lastReceiveNs := latest (sh_lastReceiveNs sh) (rh_receiveRealtimeNs h)\<rparr>,
        sg_projectedBytes := sg_projectedBytes g + binaryMarketPendingRecordBytes cz\<rparr>)"

definition recordSource :: "Admission \<Rightarrow> WriterState \<Rightarrow> WriterState" where
  "recordSource ad w = (if \<not> ad_newSource ad then w
     else w\<lparr>w_sources := w_sources w @ [ad_addedSource ad],
       w_sourceStates := w_sourceStates w @ [ad_prospective ad],
       w_manifest := (w_manifest w)\<lparr>mf_sourceCount := mf_sourceCount (w_manifest w) + 1\<rparr>,
       w_maximumGapRecords := w_maximumGapRecords w + word_of_nat kBinaryMarketStoredChannelCount\<rparr>)"

definition storeRecord ::
  "compressor \<Rightarrow> BinaryMarketRecord \<Rightarrow> Admission \<Rightarrow> nat \<Rightarrow> WriterState \<Rightarrow> WriterState" where
  "storeRecord cz r ad position w =
     (let h = header r; shard = unat (rh_shardIndex h) in
      setSegment shard (countSegment cz r (w_segments w ! shard))
        (w\<lparr>w_sourceStates := (w_sourceStates w)[unat (rh_sourceId h) - 1 := ad_prospective ad],
           w_depthTransactions := (w_depthTransactions w)[shard := ad_depth ad],
           w_index := (w_index w)[position := countEntry h (w_index w ! position)],
           w_manifest := countManifest h (w_manifest w)\<rparr>))"

definition appendReserved :: "compressor \<Rightarrow> BinaryMarketRecord \<Rightarrow> Admission \<Rightarrow> bool \<Rightarrow> bool \<Rightarrow>
    WriterState \<Rightarrow> status \<times> WriterState" where
  "appendReserved cz r ad rotating openNeeded w =
     (let h = header r; shardIndex = rh_shardIndex h in
      orReturn (if rotating then sealSegment cz (unat shardIndex) w else (True, w)) IoError (\<lambda>w.
      orReturn (if openNeeded then openSegment cz shardIndex w else (True, w)) IoError (\<lambda>w.
      case ensureIndex shardIndex (rh_sourceId h) (rh_sourceGeneration h) (rh_channel h) (recordSource ad w) of
        (None, w) \<Rightarrow> (if w_quotaReached w then OutOfRange else IoError, w)
      | (Some position, w) \<Rightarrow> (Ok, storeRecord cz r ad position w))))"

definition appendAdmitted :: "compressor \<Rightarrow> BinaryMarketRecord \<Rightarrow> Admission \<Rightarrow> WriterState \<Rightarrow> status \<times> WriterState" where
  "appendAdmitted cz r ad w =
     (let h = header r; shard = unat (rh_shardIndex h) in
      if outOfOrder r (w_segments w ! shard) then (InvalidArgument, w)
      else orReturn (if blockFull r (w_segments w ! shard) then flushBlock cz shard w else (True, w)) IoError (\<lambda>w.
        let g = w_segments w ! shard; rotating = rotateNeeded cz (cf_segmentTargetBytes (w_config w)) g;
            openNeeded = (\<not> sg_open g \<or> rotating);
            indexNeeded = (openNeeded \<or>
              sg_indexPositions g (rh_sourceId h, rh_sourceGeneration h, rh_channel h) = None) in
        case appendNeeds cz (ad_newSource ad) openNeeded indexNeeded w of
          None \<Rightarrow> (OutOfRange, w)
        | Some (requiredBytes, cutGrowth) \<Rightarrow>
          orReturn (if \<not> addWithin (w_projectedBytes w) requiredBytes (w_writeLimitBytes w)
            then flushOpen cz [0..<length (w_segments w)] w else (True, w)) IoError (\<lambda>w.
          orReturn (reserveBytes requiredBytes w) OutOfRange (\<lambda>w.
          appendReserved cz r ad rotating openNeeded
            (w\<lparr>w_cutReservedBytes := w_cutReservedBytes w + cutGrowth\<rparr>)))))"

definition appendActive :: "cxet \<Rightarrow> compressor \<Rightarrow> BinaryMarketRecord \<Rightarrow> WriterState \<Rightarrow> status \<times> WriterState" where
  "appendActive cx cz r w = (case admit cx r w of Inl st \<Rightarrow> (st, w) | Inr ad \<Rightarrow> appendAdmitted cz r ad w)"

definition writer_append :: "cxet \<Rightarrow> compressor \<Rightarrow> BinaryMarketRecord \<Rightarrow> WriterState option \<Rightarrow>
    status \<times> WriterState option" where
  "writer_append cx cz r = whenActive (appendActive cx cz r)"

definition beginFinalDrain :: "WriterState option \<Rightarrow> status \<times> WriterState option" where
  "beginFinalDrain = whenActive (\<lambda>w. (Ok, w\<lparr>w_writeLimitBytes := cf_maximumBytes (w_config w)\<rparr>))"

section \<open>Gaps\<close>

definition writerGapInvalid :: "BinaryMarketGap \<Rightarrow> WriterState \<Rightarrow> bool" where
  "writerGapInvalid g w \<longleftrightarrow>
     gp_sourceId g = 0 \<or> length (w_sources w) < unat (gp_sourceId g) \<or> gp_sourceGeneration g = 0 \<or>
     gp_gapEpoch g = 0 \<or> gp_droppedRecords g = 0 \<or> gp_gapEpoch g \<noteq> gp_droppedRecords g \<or>
     gp_firstDroppedEventSequence g = 0 \<or> gp_lastDroppedEventSequence g = 0 \<or>
     sint (gp_observedReceiveNs g) \<le> 0 \<or>
     \<not> ((0 < sint (gp_minimumDroppedReceiveNs g) \<and>
          sint (gp_minimumDroppedReceiveNs g) \<le> sint (gp_maximumDroppedReceiveNs g)) \<or>
        (gp_minimumDroppedReceiveNs g = 0 \<and> gp_maximumDroppedReceiveNs g = 0)) \<or>
     length (w_segments w) \<le> unat (gp_shardIndex g) \<or> \<not> validBinaryMarketRecordChannel (gp_channel g) \<or>
     gp_reserved32 g \<noteq> 0 \<or> gp_reserved8 g \<noteq> 0"

definition sameCell :: "BinaryMarketGap \<Rightarrow> BinaryMarketGap \<Rightarrow> bool" where
  "sameCell g e \<longleftrightarrow> gp_sourceId e = gp_sourceId g \<and> gp_channel e = gp_channel g"

text \<open>The first cell of the same source and channel is replaced; None when there is none, and the
  status with the cells otherwise.\<close>

fun replaceGap :: "BinaryMarketGap \<Rightarrow> BinaryMarketGap list \<Rightarrow> (status \<times> BinaryMarketGap list) option" where
  "replaceGap g [] = None"
| "replaceGap g (e # es) =
     (if sameCell g e then if gp_gapEpoch g < gp_gapEpoch e then Some (CorruptData, e # es)
        else Some (Ok, g # es)
      else case replaceGap g es of None \<Rightarrow> None | Some (st, es') \<Rightarrow> Some (st, e # es'))"

definition appendGapActive :: "BinaryMarketGap \<Rightarrow> WriterState \<Rightarrow> status \<times> WriterState" where
  "appendGapActive g w =
     (if writerGapInvalid g w then (InvalidArgument, w)
      else if gp_sourceGeneration g < initialSourceGeneration (w_sources w ! (unat (gp_sourceId g) - 1))
      then (InvalidArgument, w)
      else case replaceGap g (w_gaps w) of
        Some (st, gaps) \<Rightarrow> (st, w\<lparr>w_gaps := gaps\<rparr>)
      | None \<Rightarrow>
        if unat (w_maximumGapRecords w) \<le> length (w_gaps w) then (OutOfRange, w)
        else (Ok, w\<lparr>w_gaps := w_gaps w @ [g],
          w_manifest := (w_manifest w)\<lparr>mf_gapCount := mf_gapCount (w_manifest w) + 1\<rparr>\<rparr>))"

definition appendGap :: "BinaryMarketGap \<Rightarrow> WriterState option \<Rightarrow> status \<times> WriterState option" where
  "appendGap g = whenActive (appendGapActive g)"

section \<open>Progress and reference payload\<close>

definition progressInvalid :: "CorpusProducerProgress \<Rightarrow> WriterState \<Rightarrow> bool" where
  "progressInvalid p w \<longleftrightarrow>
     pg_producerEpoch p \<noteq> cf_producerEpoch (w_config w) \<or> pg_shardCount p \<noteq> cf_shardCount (w_config w) \<or>
     pg_safeMonotonicNs p < pg_safeMonotonicNs (w_progress w) \<or> pg_lossEpoch p < pg_lossEpoch (w_progress w) \<or>
     pg_directoryRevision p < pg_directoryRevision (w_progress w)"

definition shardInvalid :: "CorpusProducerProgress \<Rightarrow> WriterState \<Rightarrow> nat \<Rightarrow> bool" where
  "shardInvalid p w n =
     (let q = pg_shardSequences p ! n; t = w_depthTransactions w ! n in
      q < pg_shardSequences (w_progress w) ! n \<or> sg_previousShardSequence (w_segments w ! n) < q \<or>
      (active t \<and> (dt_firstShardSequence t \<le> q \<or> dt_receiveMonotonicNs t < pg_safeMonotonicNs p)))"

definition updateProgressActive :: "CorpusProducerProgress \<Rightarrow> WriterState \<Rightarrow> status \<times> WriterState" where
  "updateProgressActive p w =
     (if progressInvalid p w then (InvalidArgument, w)
      else if list_ex (shardInvalid p w) [0..<unat (pg_shardCount p)] then (InvalidArgument, w)
      else (Ok, w\<lparr>w_progress := p\<rparr>))"

definition updateProgress :: "CorpusProducerProgress \<Rightarrow> WriterState option \<Rightarrow> status \<times> WriterState option" where
  "updateProgress p = whenActive (updateProgressActive p)"

definition setReferenceActive :: "bytes \<Rightarrow> WriterState \<Rightarrow> status \<times> WriterState" where
  "setReferenceActive bs w =
     (let n = word_of_nat (length bs) :: u64 in
      if unat (cf_maximumReferenceBytes (w_config w)) < length bs \<or> kCorpusMaximumReferenceBytes < length bs
      then (InvalidArgument, w)
      else let growth = (if w_referenceReservedBytes w < n then n - w_referenceReservedBytes w else 0) in
        case addProduct 0 growth 2 of
          None \<Rightarrow> (OutOfRange, w\<lparr>w_quotaReached := True\<rparr>)
        | Some requiredBytes \<Rightarrow>
          if \<not> addWithin (w_cutReservedBytes w) requiredBytes 0xffffffffffffffff \<or>
             \<not> addWithin (w_projectedBytes w) requiredBytes (w_writeLimitBytes w)
          then (OutOfRange, w\<lparr>w_quotaReached := True\<rparr>)
          else orReturn (reserveBytes requiredBytes w) OutOfRange (\<lambda>w.
            (Ok, w\<lparr>w_cutReservedBytes := w_cutReservedBytes w + requiredBytes,
              w_referenceReservedBytes := max (w_referenceReservedBytes w) n, w_referencePayload := bs\<rparr>)))"

definition setReferencePayload :: "bytes \<Rightarrow> WriterState option \<Rightarrow> status \<times> WriterState option" where
  "setReferencePayload bs = whenActive (setReferenceActive bs)"

section \<open>Publication\<close>

fun commitSegments :: "compressor \<Rightarrow> nat list \<Rightarrow> WriterState \<Rightarrow> bool \<times> WriterState" where
  "commitSegments cz [] w = (True, w)"
| "commitSegments cz (shard # shards) w =
     (if sg_open (w_segments w ! shard)
      then andThen (flushBlock cz shard w) (\<lambda>w. andThen (flushStream shard w) (\<lambda>w.
        andThen (onDisk io w) (commitSegments cz shards)))
      else commitSegments cz shards w)"

definition nextCut :: "u64 \<Rightarrow> WriterState \<Rightarrow> CorpusCut" where
  "nextCut now w = \<lparr>ct_generation = w_cutGeneration w + 1, ct_committedMonotonicNs = now,
     ct_progress = w_progress w,
     ct_manifest = (w_manifest w)\<lparr>mf_projectedBytes := w_projectedBytes w\<rparr>,
     ct_sources = w_sources w, ct_gaps = w_gaps w, ct_blocks = w_blocks w,
     ct_referencePayload = w_referencePayload w,
     ct_finalized = (0 < sint (mf_finalizedReceiveNs (w_manifest w)))\<rparr>"

definition bindReference :: "CorpusCut \<Rightarrow> WriterState \<Rightarrow> status + CorpusCut" where
  "bindReference c w = (case cf_referenceVisibilityBinder (w_config w) of
     None \<Rightarrow> Inr c
   | Some binder \<Rightarrow>
     let previous = (case pub_latest (w_publication w) of None \<Rightarrow> [] | Some p \<Rightarrow> ct_referencePayload p) in
     case binder (ct_referencePayload c) previous (ct_generation c) (ct_committedMonotonicNs c) of (result, bs) \<Rightarrow>
       if \<not> isOk result then Inl result
       else if unat (cf_maximumReferenceBytes (w_config w)) < length bs \<or> kCorpusMaximumReferenceBytes < length bs
       then Inl OutOfRange
       else if length bs \<noteq> length (w_referencePayload w) then Inl InvalidArgument
       else Inr (c\<lparr>ct_referencePayload := bs\<rparr>))"

definition publishCommitted :: "CorpusCut \<Rightarrow> WriterState \<Rightarrow> WriterState" where
  "publishCommitted c w = w\<lparr>w_replayAnchorFrozen := (w_replayAnchorFrozen w \<or>
       (mf_recordCount (ct_manifest c) \<noteq> 0 \<and>
        mf_replayAnchorMonotonicNs (ct_manifest c) < pg_safeMonotonicNs (ct_progress c))),
     w_cutGeneration := w_cutGeneration w + 1,
     w_publication := (w_publication w)\<lparr>pub_latest := Some c\<rparr>\<rparr>"

definition publishActive :: "compressor \<Rightarrow> u64 \<Rightarrow> WriterState \<Rightarrow> status \<times> WriterState" where
  "publishActive cz now w =
     (if w_cutGeneration w = 0xffffffffffffffff then (InvalidArgument, w)
      else orReturn (commitSegments cz [0..<length (w_segments w)] w) IoError (\<lambda>w.
        case cutReservationBytes (word_of_nat (length (w_sources w))) (word_of_nat (length (w_gaps w)))
            (word_of_nat (length (w_blocks w))) (word_of_nat (length (w_referencePayload w))) of
          None \<Rightarrow> (CorruptData, w)
        | Some required \<Rightarrow>
          if w_cutReservedBytes w < required then (CorruptData, w)
          else case bindReference (nextCut now w) w of
            Inl st \<Rightarrow> (st, w)
          | Inr c \<Rightarrow> orReturn (onDisk io w) IoError (\<lambda>w.
              orReturn (writeCorpusCut (cf_root (w_config w)) c w) IoError (\<lambda>w.
              (Ok, publishCommitted c w)))))"

definition publishCut :: "compressor \<Rightarrow> u64 \<Rightarrow> WriterState option \<Rightarrow> status \<times> WriterState option" where
  "publishCut cz now = whenActive (publishActive cz now)"

definition latestCut :: "WriterState option \<Rightarrow> CorpusCut option" where
  "latestCut s = (case s of None \<Rightarrow> None | Some w \<Rightarrow> pub_latest (w_publication w))"

section \<open>Finalization\<close>

fun sealAll :: "compressor \<Rightarrow> nat list \<Rightarrow> WriterState \<Rightarrow> bool \<times> WriterState" where
  "sealAll cz [] w = (True, w)"
| "sealAll cz (shard # shards) w = andThen (sealSegment cz shard w) (sealAll cz shards)"

definition writeTables :: "WriterState \<Rightarrow> (u32 \<times> u32 \<times> u32) option \<times> WriterState" where
  "writeTables w =
     (let root = cf_root (w_config w) in
      case writeTableAtomic (root @ ''/sources.bin'') kBinaryMarketSourcesMagic sizeof_BinaryMarketSource
          source_image (w_sources w) w of
        (None, w) \<Rightarrow> (None, w)
      | (Some sourcesCrc, w) \<Rightarrow>
        (case writeTableAtomic (root @ ''/index.bin'') kBinaryMarketIndexMagic sizeof_IndexEntry
            indexEntry_image (w_index w) w of
          (None, w) \<Rightarrow> (None, w)
        | (Some indexCrc, w) \<Rightarrow>
          (case writeTableAtomic (root @ ''/gaps.bin'') kBinaryMarketGapsMagic sizeof_Gap
              gap_image (w_gaps w) w of
            (None, w) \<Rightarrow> (None, w)
          | (Some gapsCrc, w) \<Rightarrow> (Some (sourcesCrc, indexCrc, gapsCrc), w))))"

definition minNs :: "i64 \<Rightarrow> i64 \<Rightarrow> i64" where "minNs a b = (if sint b < sint a then b else a)"
definition maxNs :: "i64 \<Rightarrow> i64 \<Rightarrow> i64" where "maxNs a b = (if sint a < sint b then b else a)"

definition finalManifest :: "u8 \<Rightarrow> i64 \<Rightarrow> u32 \<times> u32 \<times> u32 \<Rightarrow> WriterState \<Rightarrow> BinaryMarketManifest" where
  "finalManifest reason finalizedNs crcs w =
     (let m = w_manifest w; started = cf_startedReceiveNs (w_config w); (sourcesCrc, indexCrc, gapsCrc) = crcs in
      m\<lparr>mf_startedReceiveNs := (if 0 < sint (mf_firstReceiveNs m) then minNs started (mf_firstReceiveNs m) else started),
        mf_finalizedReceiveNs := maxNs (maxNs finalizedNs started) (mf_lastReceiveNs m),
        mf_stopReason := reason, mf_complete := (if reason = stopError then 0 else 1),
        mf_indexCount := word_of_nat (length (w_index w)), mf_sourcesCrc32c := sourcesCrc,
        mf_indexCrc32c := indexCrc, mf_gapsCrc32c := gapsCrc, mf_projectedBytes := w_projectedBytes w\<rparr>)"

definition finalizeActive :: "compressor \<Rightarrow> u8 \<Rightarrow> i64 \<Rightarrow> u64 \<Rightarrow> WriterState \<Rightarrow> status \<times> WriterState" where
  "finalizeActive cz reason finalizedNs now w =
     (if sint finalizedNs \<le> 0 \<or> reason < stopRequested \<or> stopError < reason then (InvalidArgument, w)
      else if list_ex active (w_depthTransactions w) then (CorruptData, w)
      else orReturn (sealAll cz [0..<length (w_segments w)] w) IoError (\<lambda>w.
        case writeTables w of
          (None, w) \<Rightarrow> (IoError, w)
        | (Some crcs, w) \<Rightarrow>
          (case publishActive cz now (w\<lparr>w_manifest := finalManifest reason finalizedNs crcs w\<rparr>) of (commit, w) \<Rightarrow>
            if \<not> isOk commit then (commit, w)
            else let w1 = w\<lparr>w_manifest := (w_manifest w)\<lparr>mf_projectedBytes := w_projectedBytes w\<rparr>\<rparr>;
                     root = cf_root (w_config w) in
              orReturn (onDisk (writeManifestAtomic (root @ ''/manifest.bin'') (w_manifest w1)) w1) IoError (\<lambda>w.
              (Ok, w\<lparr>w_disk := removeFile (root @ ''/manifest.pending'') (w_disk w), w_active := False\<rparr>)))))"

definition finalize :: "compressor \<Rightarrow> u8 \<Rightarrow> i64 \<Rightarrow> u64 \<Rightarrow> WriterState option \<Rightarrow>
    status \<times> WriterState option" where
  "finalize cz reason finalizedNs now = whenActive (finalizeActive cz reason finalizedNs now)"

section \<open>Snapshot\<close>

record BinaryMarketWriterSnapshot =
  sn_active :: bool
  sn_quotaReached :: bool
  sn_recordCount :: u64
  sn_gapCount :: u64
  sn_projectedBytes :: u64
  sn_segmentCount :: u32
  sn_firstReceiveNs :: i64
  sn_lastReceiveNs :: i64

definition snapshot :: "WriterState option \<Rightarrow> BinaryMarketWriterSnapshot" where
  "snapshot s = (case s of
     None \<Rightarrow> \<lparr>sn_active = False, sn_quotaReached = False, sn_recordCount = 0, sn_gapCount = 0,
       sn_projectedBytes = 0, sn_segmentCount = 0, sn_firstReceiveNs = 0, sn_lastReceiveNs = 0\<rparr>
   | Some w \<Rightarrow> \<lparr>sn_active = w_active w, sn_quotaReached = w_quotaReached w,
       sn_recordCount = mf_recordCount (w_manifest w), sn_gapCount = mf_gapCount (w_manifest w),
       sn_projectedBytes = w_projectedBytes w, sn_segmentCount = mf_segmentCount (w_manifest w),
       sn_firstReceiveNs = mf_firstReceiveNs (w_manifest w), sn_lastReceiveNs = mf_lastReceiveNs (w_manifest w)\<rparr>)"

end
