(* ===== verification/WriterSteps.thy ===== *)
theory WriterSteps
  imports Writer
begin

text \<open>
  The operations of the writer as sequences of elementary steps. A step acts on the writer's state
  and a ledger kept for the proofs only: the bytes an operation has reserved and not yet spent on
  files, the bytes it has reserved and not yet spent on cuts, and whether it has opened a segment that
  has no index entry yet. Every call of an operation is a sequence of steps from an empty ledger to
  an empty ledger, whatever system calls fail on the way; the invariants of the writer are proved
  once per step.
\<close>

type_synonym ledger = "WriterState \<times> nat \<times> nat \<times> bool"

definition prb :: "compressor \<Rightarrow> nat" where
  "prb cz = unat (binaryMarketPendingRecordBytes cz)"

definition openedSegment :: "compressor \<Rightarrow> u16 \<Rightarrow> WriterState \<Rightarrow> SegmentState \<Rightarrow> SegmentState" where
  "openedSegment cz i w old = (numberedSegment cz i w old)\<lparr>sg_streamGood := True,
     sg_projectedBytes := fixedSegmentBytes, sg_open := True\<rparr>"

definition recordKey :: "BinaryMarketRecord \<Rightarrow> IndexKey" where
  "recordKey r = (rh_sourceId (header r), rh_sourceGeneration (header r), rh_channel (header r))"

definition indexFor :: "BinaryMarketRecord \<Rightarrow> WriterState \<Rightarrow> nat option \<times> WriterState" where
  "indexFor r w = ensureIndex (rh_shardIndex (header r)) (rh_sourceId (header r))
     (rh_sourceGeneration (header r)) (rh_channel (header r)) w"

definition indexCost :: "BinaryMarketRecord \<Rightarrow> WriterState \<Rightarrow> nat" where
  "indexCost r w = (if sg_indexPositions (w_segments w ! unat (rh_shardIndex (header r))) (recordKey r) = None
     then 72 else 0)"

text \<open>The segment of the record's shard can take it.\<close>

definition ready :: "cxet \<Rightarrow> BinaryMarketRecord \<Rightarrow> WriterState \<Rightarrow> bool" where
  "ready cx r w = (let g = w_segments w ! unat (rh_shardIndex (header r)) in
     unat (rh_shardIndex (header r)) < length (w_segments w) \<and> validBinaryMarketRecord cx r \<and> record_wf r \<and>
     \<not> outOfOrder r g \<and>
     (w_replayAnchorFrozen w \<longrightarrow> mf_replayAnchorMonotonicNs (w_manifest w) \<le> rh_receiveMonotonicNs (header r)) \<and>
     (sg_open g \<and> sg_pending g \<noteq> [] \<longrightarrow> length (sg_pending g) \<noteq> kBinaryMarketBlockRecords \<and>
       rh_channel (header (hd (sg_pending g))) = rh_channel (header r)))"

definition blockAccepted :: "compressor \<Rightarrow> SegmentState \<Rightarrow> bytes \<Rightarrow> bool" where
  "blockAccepted cz g encoded \<longleftrightarrow> sg_open g \<and> sg_pending g \<noteq> [] \<and>
     cz_encode cz (binaryMarketBlockLayout (rh_channel (header (hd (sg_pending g))))) (blockRaw g)
       (sg_encodedCapacity g) = Some encoded \<and>
     encoded \<noteq> [] \<and> length encoded \<le> sg_encodedCapacity g \<and> sh_blockCount (sg_header g) \<noteq> 0xffffffff \<and>
     word_of_nat (sizeof_BlockHeader + length encoded)
       \<le> word_of_nat (length (sg_pending g)) * binaryMarketPendingRecordBytes cz"

definition sourceAccepted :: "BinaryMarketSource \<Rightarrow> nat \<Rightarrow> bool" where
  "sourceAccepted s n \<longleftrightarrow> validBinaryMarketSource s n \<and> source_wf s \<and> n < kBinaryMarketMaximumSources"

definition withSources :: "BinaryMarketSource list \<Rightarrow> WriterState \<Rightarrow> WriterState" where
  "withSources ss w = w\<lparr>w_sources := w_sources w @ ss,
     w_sourceStates := w_sourceStates w @ map initialBinaryMarketSourceState ss,
     w_manifest := (w_manifest w)\<lparr>mf_sourceCount := word_of_nat (length (w_sources w @ ss))\<rparr>,
     w_maximumGapRecords := word_of_nat (length (w_sources w @ ss) * kBinaryMarketStoredChannelCount)\<rparr>"

definition withReference :: "bytes \<Rightarrow> WriterState \<Rightarrow> WriterState" where
  "withReference bs w = w\<lparr>w_referenceReservedBytes := max (w_referenceReservedBytes w) (word_of_nat (length bs)),
     w_referencePayload := bs\<rparr>"

inductive wstep :: "cxet \<Rightarrow> compressor \<Rightarrow> ledger \<Rightarrow> ledger \<Rightarrow> bool" for cx cz where
  disk: "wstep cx cz (w, k, c, p) (w\<lparr>w_disk := d\<rparr>, k, c, p)"
| stream: "n < length (w_segments w) \<Longrightarrow>
    wstep cx cz (w, k, c, p) (setSegment n ((w_segments w ! n)\<lparr>sg_streamGood := b\<rparr>) w, k, c, p)"
| quota: "wstep cx cz (w, k, c, p) (w\<lparr>w_quotaReached := True\<rparr>, k, c, p)"
| block: "n < length (w_segments w) \<Longrightarrow> blockAccepted cz (w_segments w ! n) encoded \<Longrightarrow>
    wstep cx cz (w, k, c, p) (storeBlock cz n encoded w, k, c, p)"
| reserve: "addWithin (w_projectedBytes w) b (w_writeLimitBytes w) \<Longrightarrow>
    addWithin (w_cutReservedBytes w) g 0xffffffffffffffff \<Longrightarrow> g \<le> b \<Longrightarrow>
    wstep cx cz (w, k, c, p) (w\<lparr>w_projectedBytes := w_projectedBytes w + b,
      w_cutReservedBytes := w_cutReservedBytes w + g\<rparr>, k + (unat b - unat g), c + unat g, p)"
| reset: "n < length (w_segments w) \<Longrightarrow> \<not> sg_open (w_segments w ! n) \<Longrightarrow>
    wstep cx cz (w, k, c, p) (setSegment n (freshSegment (w_segments w ! n)) w, k, c, p)"
| number: "unat i < length (w_segments w) \<Longrightarrow> \<not> sg_open (w_segments w ! unat i) \<Longrightarrow>
    w_nextSegmentNumber w \<noteq> 0xffffffff \<Longrightarrow> 192 \<le> k \<Longrightarrow>
    wstep cx cz (w, k, c, p) (setSegment (unat i) (numberedSegment cz i w (w_segments w ! unat i))
      (w\<lparr>w_nextSegmentNumber := w_nextSegmentNumber w + 1\<rparr>), k - 192, c, p)"
| opened: "unat i < length (w_segments w) \<Longrightarrow> \<not> sg_open (w_segments w ! unat i) \<Longrightarrow>
    w_nextSegmentNumber w \<noteq> 0xffffffff \<Longrightarrow> 192 \<le> k \<Longrightarrow>
    wstep cx cz (w, k, c, False) (setSegment (unat i) (openedSegment cz i w (w_segments w ! unat i))
      (w\<lparr>w_nextSegmentNumber := w_nextSegmentNumber w + 1\<rparr>), k - 192, c, True)"
| sealing: "n < length (w_segments w) \<Longrightarrow> wstep cx cz (w, k, c, p)
    (setSegment n ((w_segments w ! n)\<lparr>sg_header := sealHeader (sg_header (w_segments w ! n))\<rparr>) w, k, c, p)"
| closed: "n < length (w_segments w) \<Longrightarrow> sg_open (w_segments w ! n) \<Longrightarrow> sg_pending (w_segments w ! n) = [] \<Longrightarrow>
    wstep cx cz (w, k, c, p) (setSegment n ((w_segments w ! n)\<lparr>sg_open := False, sg_indexPositions := (\<lambda>k. None)\<rparr>)
      (w\<lparr>w_manifest := (w_manifest w)\<lparr>mf_segmentCount := mf_segmentCount (w_manifest w) + 1\<rparr>\<rparr>), k, c, p)"
| added: "ad_newSource ad \<Longrightarrow> sourceAccepted (ad_addedSource ad) (length (w_sources w)) \<Longrightarrow>
    992 \<le> k \<Longrightarrow> 1984 \<le> c \<Longrightarrow>
    wstep cx cz (w, k, c, p) (recordSource ad w, k - 992, c - 1984, p)"
| registered: "\<forall>n < length ss. sourceAccepted (ss ! n) (length (w_sources w) + n) \<Longrightarrow>
    992 * length ss \<le> k \<Longrightarrow> 1984 * length ss \<le> c \<Longrightarrow>
    wstep cx cz (w, k, c, p) (withSources ss w, k - 992 * length ss, c - 1984 * length ss, p)"
| stored: "ready cx r w \<Longrightarrow> sg_open (w_segments w ! unat (rh_shardIndex (header r))) \<Longrightarrow>
    unat (rh_sourceId (header r)) \<le> length (w_sources w) \<Longrightarrow> indexFor r w = (Some position, w1) \<Longrightarrow>
    prb cz + indexCost r w \<le> k \<Longrightarrow> 192 \<le> c \<Longrightarrow> p \<longrightarrow> indexCost r w = 72 \<Longrightarrow>
    wstep cx cz (w, k, c, p) (storeRecord cz r ad position w1, k - (prb cz + indexCost r w), c - 192, False)"
| unindexed: "indexFor r w = (None, w) \<Longrightarrow> 72 \<le> k \<Longrightarrow> wstep cx cz (w, k, c, p) (w, k, c, False)"
| unspent: "k' \<le> k \<Longrightarrow> c' \<le> c \<Longrightarrow> wstep cx cz (w, k, c, False) (w, k', c', False)"
| drain: "wstep cx cz (w, k, c, p) (w\<lparr>w_writeLimitBytes := cf_maximumBytes (w_config w)\<rparr>, k, c, p)"
| gap: "appendGapActive g w = (st, w') \<Longrightarrow> wstep cx cz (w, k, c, p) (w', k, c, p)"
| progress: "progress_wf q \<Longrightarrow> updateProgressActive q w = (st, w') \<Longrightarrow> wstep cx cz (w, k, c, p) (w', k, c, p)"
| reference: "length bs \<le> kCorpusMaximumReferenceBytes \<Longrightarrow>
    2 * (length bs - unat (w_referenceReservedBytes w)) \<le> c \<Longrightarrow>
    wstep cx cz (w, k, c, p) (withReference bs w, k, c - 2 * (length bs - unat (w_referenceReservedBytes w)), p)"
| final: "0 < sint ns \<Longrightarrow>
    wstep cx cz (w, k, c, p) (w\<lparr>w_manifest := finalManifest reason ns crcs w\<rparr>, k, c, p)"
| published: "w_cutGeneration w \<noteq> 0xffffffffffffffff \<Longrightarrow>
    bindReference (nextCut now w) w = Inr x \<Longrightarrow>
    wstep cx cz (w, k, c, p) (publishCommitted x w, k, c, p)"
| counted: "wstep cx cz (w, k, c, p)
    (w\<lparr>w_manifest := (w_manifest w)\<lparr>mf_projectedBytes := w_projectedBytes w\<rparr>\<rparr>, k, c, p)"
| stopped: "wstep cx cz (w, k, c, p) (w\<lparr>w_active := False\<rparr>, k, c, p)"

definition wsteps :: "cxet \<Rightarrow> compressor \<Rightarrow> ledger \<Rightarrow> ledger \<Rightarrow> bool" where
  "wsteps cx cz = (wstep cx cz)\<^sup>*\<^sup>*"

lemma wsteps_refl [intro!, simp]: "wsteps cx cz x x"
  by (simp add: wsteps_def)

lemma wsteps_step: "wstep cx cz x y \<Longrightarrow> wsteps cx cz x y"
  by (auto simp: wsteps_def)

lemma wsteps_trans [trans]: "wsteps cx cz x y \<Longrightarrow> wsteps cx cz y z \<Longrightarrow> wsteps cx cz x z"
  by (auto simp: wsteps_def)

lemma wsteps_then: "wsteps cx cz x y \<Longrightarrow> wstep cx cz y z \<Longrightarrow> wsteps cx cz x z"
  by (auto simp: wsteps_def)

lemma wsteps_unspent: "wsteps cx cz (w, 0, 0, False) (w', k, c, False) \<Longrightarrow> wsteps cx cz (w, 0, 0, False) (w', 0, 0, False)"
  by (erule wsteps_then) (rule unspent; simp)

section \<open>Disk, streams and flushes\<close>

lemma setSegment_simps [simp]:
  "length (w_segments (setSegment n g w)) = length (w_segments w)"
  "n < length (w_segments w) \<Longrightarrow> w_segments (setSegment n g w) ! n = g"
  "setSegment n g (setSegment n g' w) = setSegment n g w"
  "w_disk (setSegment n g w) = w_disk w"
  "(setSegment n g w)\<lparr>w_disk := d\<rparr> = setSegment n g (w\<lparr>w_disk := d\<rparr>)"
  by (simp_all add: setSegment_def)

lemma setSegment_frame [simp]:
  "w_config (setSegment n g w) = w_config w" "w_manifest (setSegment n g w) = w_manifest w"
  "w_sources (setSegment n g w) = w_sources w" "w_sourceStates (setSegment n g w) = w_sourceStates w"
  "w_index (setSegment n g w) = w_index w" "w_gaps (setSegment n g w) = w_gaps w"
  "w_depthTransactions (setSegment n g w) = w_depthTransactions w"
  "w_projectedBytes (setSegment n g w) = w_projectedBytes w" "w_writeLimitBytes (setSegment n g w) = w_writeLimitBytes w"
  "w_maximumGapRecords (setSegment n g w) = w_maximumGapRecords w"
  "w_nextSegmentNumber (setSegment n g w) = w_nextSegmentNumber w" "w_active (setSegment n g w) = w_active w"
  "w_quotaReached (setSegment n g w) = w_quotaReached w" "w_progress (setSegment n g w) = w_progress w"
  "w_blocks (setSegment n g w) = w_blocks w" "w_referencePayload (setSegment n g w) = w_referencePayload w"
  "w_publication (setSegment n g w) = w_publication w" "w_cutGeneration (setSegment n g w) = w_cutGeneration w"
  "w_cutReservedBytes (setSegment n g w) = w_cutReservedBytes w"
  "w_referenceReservedBytes (setSegment n g w) = w_referenceReservedBytes w"
  "w_replayAnchorFrozen (setSegment n g w) = w_replayAnchorFrozen w"
  by (simp_all add: setSegment_def)

lemma andThen_split: "P (andThen r f) \<longleftrightarrow> (case r of (ok, s) \<Rightarrow> (ok \<longrightarrow> P (f s)) \<and> (\<not> ok \<longrightarrow> P (False, s)))"
  by (auto simp: andThen_def split: prod.split)

lemma orReturn_split:
  "P (orReturn r st f) \<longleftrightarrow> (case r of (ok, s) \<Rightarrow> (ok \<longrightarrow> P (f s)) \<and> (\<not> ok \<longrightarrow> P (st, s)))"
  by (auto simp: orReturn_def split: prod.split)

lemma onDisk_result:
  assumes "onDisk f w = (ok, w')"
  obtains d where "w' = w\<lparr>w_disk := d\<rparr>"
  using assms by (auto simp: onDisk_def split: prod.splits)

lemma streamWrite_result:
  assumes "streamWrite n edit w = (ok, w')"
  obtains (same) "w' = w" "\<not> ok" | (good) d where "w' = w\<lparr>w_disk := d\<rparr>" "ok"
  | (bad) d where "w' = setSegment n ((w_segments w ! n)\<lparr>sg_streamGood := False\<rparr>) (w\<lparr>w_disk := d\<rparr>)" "\<not> ok"
proof (cases "sg_streamGood (w_segments w ! n)")
  case True
  obtain b d where d: "onDisk io w = (b, w\<lparr>w_disk := d\<rparr>)"
    by (cases "io (w_disk w)") (auto simp: onDisk_def)
  show ?thesis
  proof (cases b)
    case True
    show ?thesis by (rule good [of "putFile (sg_partialPath (w_segments w ! n))
      (edit (contents (sg_partialPath (w_segments w ! n)) d)) d"]) (use assms \<open>sg_streamGood _\<close> d True in \<open>simp_all add: streamWrite_def Let_def\<close>)
  next
    case False
    show ?thesis by (rule bad [of d]) (use assms \<open>sg_streamGood _\<close> d False in \<open>simp_all add: streamWrite_def Let_def\<close>)
  qed
next
  case False
  show ?thesis by (rule same) (use assms False in \<open>simp_all add: streamWrite_def Let_def\<close>)
qed

text \<open>What a flush leaves alone: everything but the pending records, the byte counts, the blocks and
  the disk.\<close>

definition shape :: "SegmentState \<Rightarrow> SegmentState" where
  "shape g = g\<lparr>sg_streamGood := False, sg_projectedBytes := 0, sg_pending := [],
     sg_header := (sg_header g)\<lparr>sh_storedBlockBytes := 0, sh_blockCount := 0\<rparr>\<rparr>"

definition sameShape :: "SegmentState \<Rightarrow> SegmentState \<Rightarrow> bool" where
  "sameShape g g' \<longleftrightarrow> shape g' = shape g \<and> (sg_pending g' = sg_pending g \<or> sg_pending g' = [])"

definition unflushed :: "WriterState \<Rightarrow> disk \<Rightarrow> CorpusCut CorpusPublication \<Rightarrow> WriterState" where
  "unflushed w d pub = w\<lparr>w_segments := [], w_blocks := [], w_publication := pub, w_projectedBytes := 0, w_disk := d\<rparr>"

definition flushed :: "WriterState \<Rightarrow> WriterState \<Rightarrow> bool" where
  "flushed w w' \<longleftrightarrow> (\<forall>d pub. unflushed w' d pub = unflushed w d pub) \<and>
     pub_latest (w_publication w') = pub_latest (w_publication w) \<and>
     list_all2 sameShape (w_segments w) (w_segments w')"

definition flushes :: "cxet \<Rightarrow> compressor \<Rightarrow> WriterState \<Rightarrow> WriterState \<Rightarrow> bool" where
  "flushes cx cz w w' \<longleftrightarrow> flushed w w' \<and> (\<forall>k c p. wsteps cx cz (w, k, c, p) (w', k, c, p))"

lemma sameShape_eq [simp]: "sameShape g g"
  by (simp add: sameShape_def)

lemma sameShape_trans: "sameShape a b \<Longrightarrow> sameShape b c \<Longrightarrow> sameShape a c"
  by (auto simp: sameShape_def)

lemma flushed_refl: "flushed w w"
  by (simp add: flushed_def list.rel_refl)

lemma flushed_trans: "flushed a b \<Longrightarrow> flushed b c \<Longrightarrow> flushed a c"
  unfolding flushed_def by (intro conjI) (simp, simp, elim conjE, rule list_all2_trans [OF sameShape_trans])

lemma flushes_refl [simp]: "flushes cx cz w w"
  by (simp add: flushes_def flushed_refl)

lemma flushes_trans: "flushes cx cz a b \<Longrightarrow> flushes cx cz b c \<Longrightarrow> flushes cx cz a c"
  unfolding flushes_def by (blast intro: flushed_trans wsteps_trans)

lemma flushes_disk: "flushes cx cz w (w\<lparr>w_disk := d\<rparr>)"
  by (auto simp: flushes_def flushed_def unflushed_def list.rel_refl intro: disk wsteps_step)

lemma flushed_setSegment:
  assumes "n < length (w_segments w)" and "sameShape (w_segments w ! n) g"
    and "pub_latest pub = pub_latest (w_publication w)"
  shows "flushed w (setSegment n g (w\<lparr>w_blocks := rs, w_publication := pub, w_projectedBytes := m\<rparr>))"
  using assms by (simp add: flushed_def unflushed_def setSegment_def list_all2_conv_all_nth nth_list_update)

lemma flushes_stream:
  assumes "n < length (w_segments w)"
  shows "flushes cx cz w (setSegment n ((w_segments w ! n)\<lparr>sg_streamGood := b\<rparr>) w)"
proof -
  have "sameShape (w_segments w ! n) ((w_segments w ! n)\<lparr>sg_streamGood := b\<rparr>)"
    by (simp add: sameShape_def shape_def)
  from flushed_setSegment [OF assms this, where pub = "w_publication w" and rs = "w_blocks w" and m = "w_projectedBytes w"]
  show ?thesis using assms by (auto simp: flushes_def intro: wsteps_step stream)
qed

lemma flushes_streamWrite:
  assumes "streamWrite n edit w = (ok, w')" and "n < length (w_segments w)"
  shows "flushes cx cz w w'"
  using assms(1)
proof (cases rule: streamWrite_result)
  case (bad d)
  have "flushes cx cz (w\<lparr>w_disk := d\<rparr>) w'"
    using flushes_stream [of n "w\<lparr>w_disk := d\<rparr>" cx cz False] assms(2) by (simp add: bad(1))
  with flushes_disk show ?thesis by (rule flushes_trans)
qed (simp_all add: flushes_disk)

lemma flushes_onDisk: "onDisk f w = (ok, w') \<Longrightarrow> flushes cx cz w w'"
  by (erule onDisk_result) (simp add: flushes_disk)

lemma flushed_segment:
  assumes "flushed w w'"
  shows "length (w_segments w') = length (w_segments w)"
    and "n < length (w_segments w) \<Longrightarrow> sameShape (w_segments w ! n) (w_segments w' ! n)"
  using assms by (auto simp: flushed_def list_all2_conv_all_nth)

lemma flushes_length: "flushes cx cz w w' \<Longrightarrow> length (w_segments w') = length (w_segments w)"
  by (auto simp: flushes_def dest: flushed_segment)

lemma shape_fields:
  "sg_open (shape g) = sg_open g" "sg_indexPositions (shape g) = sg_indexPositions g"
  "sg_previousShardSequence (shape g) = sg_previousShardSequence g"
  "sg_previousMonotonicNs (shape g) = sg_previousMonotonicNs g"
  "sh_recordCount (sg_header (shape g)) = sh_recordCount (sg_header g)"
  "sh_segmentNumber (sg_header (shape g)) = sh_segmentNumber (sg_header g)"
  by (simp_all add: shape_def)

lemma sameShape_fields:
  assumes "sameShape g g'"
  shows "sg_open g' = sg_open g" "sg_indexPositions g' = sg_indexPositions g"
    "sg_previousShardSequence g' = sg_previousShardSequence g" "sg_previousMonotonicNs g' = sg_previousMonotonicNs g"
    "sh_recordCount (sg_header g') = sh_recordCount (sg_header g)"
    "sh_segmentNumber (sg_header g') = sh_segmentNumber (sg_header g)"
proof -
  have "shape g' = shape g" using assms by (simp add: sameShape_def)
  note c = this [THEN arg_cong]
  show "sg_open g' = sg_open g" "sg_indexPositions g' = sg_indexPositions g"
    "sg_previousShardSequence g' = sg_previousShardSequence g" "sg_previousMonotonicNs g' = sg_previousMonotonicNs g"
    "sh_recordCount (sg_header g') = sh_recordCount (sg_header g)"
    "sh_segmentNumber (sg_header g') = sh_segmentNumber (sg_header g)"
    using c [of sg_open] c [of sg_indexPositions] c [of sg_previousShardSequence] c [of sg_previousMonotonicNs]
      c [of "\<lambda>g. sh_recordCount (sg_header g)"] c [of "\<lambda>g. sh_segmentNumber (sg_header g)"]
    unfolding shape_fields by simp_all
qed

lemma unflushed_fields:
  "w_config (unflushed w d pub) = w_config w" "w_manifest (unflushed w d pub) = w_manifest w"
  "w_sources (unflushed w d pub) = w_sources w" "w_writeLimitBytes (unflushed w d pub) = w_writeLimitBytes w"
  "w_cutReservedBytes (unflushed w d pub) = w_cutReservedBytes w"
  "w_nextSegmentNumber (unflushed w d pub) = w_nextSegmentNumber w"
  "w_replayAnchorFrozen (unflushed w d pub) = w_replayAnchorFrozen w" "w_index (unflushed w d pub) = w_index w"
  "w_gaps (unflushed w d pub) = w_gaps w" "w_progress (unflushed w d pub) = w_progress w"
  "w_referencePayload (unflushed w d pub) = w_referencePayload w"
  "w_cutGeneration (unflushed w d pub) = w_cutGeneration w" "w_active (unflushed w d pub) = w_active w"
  "w_depthTransactions (unflushed w d pub) = w_depthTransactions w"
  by (simp_all add: unflushed_def)

lemma flushed_same:
  assumes "flushed w w'"
  shows "w_config w' = w_config w" "w_manifest w' = w_manifest w" "w_sources w' = w_sources w"
    "w_writeLimitBytes w' = w_writeLimitBytes w" "w_cutReservedBytes w' = w_cutReservedBytes w"
    "w_nextSegmentNumber w' = w_nextSegmentNumber w" "w_replayAnchorFrozen w' = w_replayAnchorFrozen w"
    "w_index w' = w_index w" "w_gaps w' = w_gaps w" "w_progress w' = w_progress w"
    "w_referencePayload w' = w_referencePayload w" "w_cutGeneration w' = w_cutGeneration w"
    "w_active w' = w_active w" "w_depthTransactions w' = w_depthTransactions w"
proof -
  have "unflushed w' (w_disk w) (w_publication w) = unflushed w (w_disk w) (w_publication w)"
    using assms by (simp add: flushed_def)
  note c = this [THEN arg_cong]
  show "w_config w' = w_config w" "w_manifest w' = w_manifest w" "w_sources w' = w_sources w"
    "w_writeLimitBytes w' = w_writeLimitBytes w" "w_cutReservedBytes w' = w_cutReservedBytes w"
    "w_nextSegmentNumber w' = w_nextSegmentNumber w" "w_replayAnchorFrozen w' = w_replayAnchorFrozen w"
    "w_index w' = w_index w" "w_gaps w' = w_gaps w" "w_progress w' = w_progress w"
    "w_referencePayload w' = w_referencePayload w" "w_cutGeneration w' = w_cutGeneration w"
    "w_active w' = w_active w" "w_depthTransactions w' = w_depthTransactions w"
    using c [of w_config] c [of w_manifest] c [of w_sources] c [of w_writeLimitBytes] c [of w_cutReservedBytes]
      c [of w_nextSegmentNumber] c [of w_replayAnchorFrozen] c [of w_index] c [of w_gaps] c [of w_progress]
      c [of w_referencePayload] c [of w_cutGeneration] c [of w_active] c [of w_depthTransactions]
    unfolding unflushed_fields by simp_all
qed

lemma streamWrite_keeps: "streamWrite n edit w = (True, w') \<Longrightarrow> w_segments w' = w_segments w"
  by (erule streamWrite_result) simp_all

lemma flushes_block:
  assumes "n < length (w_segments w)" and "blockAccepted cz (w_segments w ! n) encoded"
  shows "flushes cx cz w (storeBlock cz n encoded w)"
proof -
  have "sameShape (w_segments w ! n) (w_segments (storeBlock cz n encoded w) ! n)"
    using assms(1) by (simp add: storeBlock_def Let_def sameShape_def shape_def)
  then have "flushed w (storeBlock cz n encoded w)" unfolding storeBlock_def Let_def
    using assms(1) by (intro flushed_setSegment) (simp_all add: retain_latest)
  then show ?thesis using block [OF assms] by (auto simp: flushes_def intro: wsteps_step)
qed

lemma streamWrite_ok: "streamWrite n edit w = (True, w') \<Longrightarrow> \<exists>d. w' = w\<lparr>w_disk := d\<rparr>"
  by (erule streamWrite_result) blast+

lemma flushBlock_result:
  assumes "flushBlock cz n w = (ok, w')" and "n < length (w_segments w)" and "sg_open (w_segments w ! n)"
  shows "flushes cx cz w w'" and "ok \<Longrightarrow> sg_pending (w_segments w' ! n) = []"
proof -
  let ?g = "w_segments w ! n"
  let ?enc = "cz_encode cz (binaryMarketBlockLayout (rh_channel (header (hd (sg_pending ?g))))) (blockRaw ?g)
    (sg_encodedCapacity ?g)"
  consider (none) "sg_pending ?g = []" "w' = w" | (refused) "w' = w" "\<not> ok"
    | (put) e where "blockAccepted cz ?g e"
      "andThen (writeBytes n (marketBlock_image (blockHeaderFor ?g e)) w)
        (\<lambda>w. andThen (writeBytes n e w) (\<lambda>w. (True, storeBlock cz n e w))) = (ok, w')"
    using assms by (cases ?enc) (auto simp: flushBlock_def Let_def blockAccepted_def not_less split: if_splits)
  then have "flushes cx cz w w' \<and> (ok \<longrightarrow> sg_pending (w_segments w' ! n) = [])"
  proof cases
    case (put e)
    obtain ok1 w1 where 1: "writeBytes n (marketBlock_image (blockHeaderFor ?g e)) w = (ok1, w1)" by fastforce
    obtain ok2 w2 where 2: "writeBytes n e w1 = (ok2, w2)" by fastforce
    have f1: "flushes cx cz w w1" using flushes_streamWrite 1 assms(2) by (simp add: writeBytes_def)
    have "length (w_segments w1) = length (w_segments w)" by (rule flushes_length [OF f1])
    then have f2: "flushes cx cz w1 w2" using flushes_streamWrite 2 assms(2) by (simp add: writeBytes_def)
    show ?thesis
    proof (cases "ok1 \<and> ok2")
      case True
      then have "writeBytes n (marketBlock_image (blockHeaderFor ?g e)) w = (True, w1)"
        and "writeBytes n e w1 = (True, w2)" using 1 2 by simp_all
      then obtain d1 d where "w1 = w\<lparr>w_disk := d1\<rparr>" "w2 = w1\<lparr>w_disk := d\<rparr>"
        unfolding writeBytes_def by (blast dest: streamWrite_ok)
      then have w2: "w2 = w\<lparr>w_disk := d\<rparr>" by simp
      have "w' = storeBlock cz n e w2" using put(2) 1 2 True by (simp add: andThen_def)
      moreover have "flushes cx cz w2 (storeBlock cz n e w2)"
        using put(1) assms(2) by (intro flushes_block) (simp_all add: w2)
      moreover have "sg_pending (w_segments (storeBlock cz n e w2) ! n) = []"
        using assms(2) by (simp add: storeBlock_def Let_def w2)
      ultimately show ?thesis using flushes_trans f1 f2 by metis
    next
      case False
      then have "\<not> ok \<and> (w' = w1 \<or> w' = w2)" using put(2) 1 2 by (auto simp: andThen_def split: if_splits)
      then show ?thesis using f1 flushes_trans [OF f1 f2] by auto
    qed
  qed simp_all
  then show "flushes cx cz w w'" and "ok \<Longrightarrow> sg_pending (w_segments w' ! n) = []" by simp_all
qed

lemma flushOpen_result:
  assumes "flushOpen cz ns w = (ok, w')" and "\<forall>n \<in> set ns. n < length (w_segments w)"
  shows "flushes cx cz w w'"
  using assms
proof (induction ns arbitrary: w)
  case (Cons n ns)
  show ?case
  proof (cases "sg_open (w_segments w ! n)")
    case True
    obtain ok1 w1 where 1: "flushBlock cz n w = (ok1, w1)" by fastforce
    have f: "flushes cx cz w w1" using flushBlock_result(1) [OF 1] True Cons.prems(2) by simp
    have "length (w_segments w1) = length (w_segments w)" by (rule flushes_length [OF f])
    then show ?thesis using Cons.prems Cons.IH [of w1] True 1 f flushes_trans
      by (cases ok1) (auto simp: andThen_def)
  qed (use Cons in simp)
qed simp

lemma commitSegments_result:
  assumes "commitSegments cz ns w = (ok, w')" and "\<forall>n \<in> set ns. n < length (w_segments w)"
  shows "flushes cx cz w w'"
    and "ok \<Longrightarrow> \<forall>n \<in> set ns. sg_open (w_segments w' ! n) \<longrightarrow> sg_pending (w_segments w' ! n) = []"
proof -
  have "flushes cx cz w w' \<and> (ok \<longrightarrow> (\<forall>n \<in> set ns. sg_open (w_segments w' ! n) \<longrightarrow> sg_pending (w_segments w' ! n) = []))"
    using assms
  proof (induction ns arbitrary: w)
    case (Cons n ns)
    have n: "n < length (w_segments w)" using Cons.prems(2) by simp
    obtain ok1 w1 where 1: "flushBlock cz n w = (ok1, w1)" by fastforce
    obtain ok2 w2 where 2: "flushStream n w1 = (ok2, w2)" by fastforce
    obtain ok3 w3 where 3: "onDisk io w2 = (ok3, w3)" by fastforce
    show ?case
    proof (cases "sg_open (w_segments w ! n)")
      case True
      have f1: "flushes cx cz w w1" "ok1 \<Longrightarrow> sg_pending (w_segments w1 ! n) = []"
        using flushBlock_result [OF 1 n True] by blast+
      have n1: "n < length (w_segments w1)" using flushes_length [OF f1(1)] n by simp
      have f2: "flushes cx cz w1 w2" using flushes_streamWrite [OF _ n1] 2 by (simp add: flushStream_def)
      have f3: "flushes cx cz w2 w3" by (rule flushes_onDisk [OF 3])
      note f13 = flushes_trans [OF flushes_trans [OF f1(1) f2] f3]
      have len: "length (w_segments w3) = length (w_segments w)" by (rule flushes_length [OF f13])
      show ?thesis
      proof (cases "ok1 \<and> ok2 \<and> ok3")
        case True
        have eq: "commitSegments cz ns w3 = (ok, w')"
          using Cons.prems(1) \<open>sg_open _\<close> 1 2 3 True by (simp add: andThen_def)
        have ih: "flushes cx cz w3 w'"
          "ok \<longrightarrow> (\<forall>n \<in> set ns. sg_open (w_segments w' ! n) \<longrightarrow> sg_pending (w_segments w' ! n) = [])"
          using Cons.IH [OF eq] Cons.prems(2) len by auto
        have "sg_pending (w_segments w1 ! n) = []" using f1(2) True by simp
        moreover have "flushes cx cz w1 w'" using flushes_trans [OF flushes_trans [OF f2 f3] ih(1)] .
        ultimately have "sg_pending (w_segments w' ! n) = []"
          using flushed_segment(2) [of w1 w' n] n1 by (auto simp: flushes_def sameShape_def)
        then show ?thesis using ih flushes_trans [OF f13 ih(1)] by auto
      next
        case False
        then have "\<not> ok \<and> (w' = w1 \<or> w' = w2 \<or> w' = w3)"
          using Cons.prems(1) \<open>sg_open _\<close> 1 2 3 by (auto simp: andThen_def split: if_splits)
        then show ?thesis using f1(1) flushes_trans [OF f1(1) f2] f13 by auto
      qed
    next
      case False
      have eq: "commitSegments cz ns w = (ok, w')" using Cons.prems(1) False by simp
      have ih: "flushes cx cz w w'"
        "ok \<longrightarrow> (\<forall>n \<in> set ns. sg_open (w_segments w' ! n) \<longrightarrow> sg_pending (w_segments w' ! n) = [])"
        using Cons.IH [OF eq] Cons.prems(2) by auto
      have "\<not> sg_open (w_segments w' ! n)"
        using False sameShape_fields(1) [OF flushed_segment(2) [OF _ n], of w'] ih(1) by (simp add: flushes_def)
      then show ?thesis using ih by auto
    qed
  qed simp
  then show "flushes cx cz w w'"
    and "ok \<Longrightarrow> \<forall>n \<in> set ns. sg_open (w_segments w' ! n) \<longrightarrow> sg_pending (w_segments w' ! n) = []" by simp_all
qed

section \<open>Sealing and opening\<close>

text \<open>What a step of an append leaves alone in front of the record it will store.\<close>

definition carried :: "nat \<Rightarrow> WriterState \<Rightarrow> WriterState \<Rightarrow> bool" where
  "carried n w w' \<longleftrightarrow> length (w_segments w') = length (w_segments w) \<and> w_sources w' = w_sources w \<and>
     w_config w' = w_config w \<and> w_replayAnchorFrozen w' = w_replayAnchorFrozen w \<and>
     mf_replayAnchorMonotonicNs (w_manifest w') = mf_replayAnchorMonotonicNs (w_manifest w) \<and>
     w_nextSegmentNumber w' = w_nextSegmentNumber w \<and>
     sg_previousShardSequence (w_segments w' ! n) = sg_previousShardSequence (w_segments w ! n) \<and>
     sg_previousMonotonicNs (w_segments w' ! n) = sg_previousMonotonicNs (w_segments w ! n)"

definition moves :: "cxet \<Rightarrow> compressor \<Rightarrow> nat \<Rightarrow> WriterState \<Rightarrow> WriterState \<Rightarrow> bool" where
  "moves cx cz n w w' \<longleftrightarrow> carried n w w' \<and> (\<forall>k c p. wsteps cx cz (w, k, c, p) (w', k, c, p))"

lemma moves_refl [simp]: "moves cx cz n w w"
  by (simp add: moves_def carried_def)

lemma carried_trans: "carried n a b \<Longrightarrow> carried n b c \<Longrightarrow> carried n a c"
  by (simp add: carried_def)

lemma moves_trans: "moves cx cz n a b \<Longrightarrow> moves cx cz n b c \<Longrightarrow> moves cx cz n a c"
  unfolding moves_def by (blast intro: carried_trans wsteps_trans)

lemma flushes_moves: "flushes cx cz w w' \<Longrightarrow> n < length (w_segments w) \<Longrightarrow> moves cx cz n w w'"
  unfolding flushes_def moves_def carried_def
  using flushed_same [of w w'] flushed_segment [of w w'] sameShape_fields by auto

lemma flushes_keeps:
  assumes "flushes cx cz w w'" and "n < length (w_segments w)" and "sg_open (w_segments w ! n)"
    and "sg_pending (w_segments w ! n) = []"
  shows "n < length (w_segments w')" "sg_open (w_segments w' ! n)" "sg_pending (w_segments w' ! n) = []"
proof -
  have same: "sameShape (w_segments w ! n) (w_segments w' ! n)"
    using assms(1,2) flushed_segment(2) by (simp add: flushes_def)
  show "n < length (w_segments w')" using flushes_length [OF assms(1)] assms(2) by simp
  show "sg_open (w_segments w' ! n)" using sameShape_fields(1) [OF same] assms(3) by simp
  show "sg_pending (w_segments w' ! n) = []" using same assms(4) by (simp add: sameShape_def)
qed

lemma setSegment_steps:
  assumes "wstep cx cz (w, k, c, p) (w', k', c', p')" and "w'' = w'\<lparr>w_disk := d\<rparr>"
  shows "wsteps cx cz (w, k, c, p) (w'', k', c', p')"
  using wsteps_then [OF wsteps_step [OF assms(1)] disk] assms(2) by simp

lemma moves_sealing:
  assumes "n < length (w_segments w)"
  shows "moves cx cz n w (setSegment n ((w_segments w ! n)\<lparr>sg_header := sealHeader (sg_header (w_segments w ! n))\<rparr>) w)"
  using assms by (auto simp: moves_def carried_def intro: wsteps_step sealing)

lemma moves_closed:
  assumes "n < length (w_segments w)" and "sg_open (w_segments w ! n)" and "sg_pending (w_segments w ! n) = []"
  shows "moves cx cz n w (setSegment n ((w_segments w ! n)\<lparr>sg_open := False, sg_indexPositions := (\<lambda>k. None)\<rparr>)
    (w\<lparr>w_manifest := (w_manifest w)\<lparr>mf_segmentCount := mf_segmentCount (w_manifest w) + 1\<rparr>\<rparr>))"
  using wsteps_step [OF closed [OF assms]] assms by (auto simp: moves_def carried_def)

lemma sealTail_result:
  assumes "sealTail n w = (ok, w')" and n: "n < length (w_segments w)" and o: "sg_open (w_segments w ! n)"
    and e: "sg_pending (w_segments w ! n) = []"
  shows "moves cx cz n w w'" and "ok \<Longrightarrow> \<not> sg_open (w_segments w' ! n)"
proof -
  let ?g = "w_segments w ! n"
  let ?h = "sealHeader (sg_header ?g)"
  define w0 where "w0 = setSegment n (?g\<lparr>sg_header := ?h\<rparr>) w"
  have w0: "n < length (w_segments w0)" "sg_open (w_segments w0 ! n)" "sg_pending (w_segments w0 ! n) = []"
    using n o e by (simp_all add: w0_def)
  have m0: "moves cx cz n w w0" using moves_sealing [OF n] by (simp add: w0_def)
  obtain ok1 w1 where 1: "rewriteStart n (segmentHeader_image ?h) w0 = (ok1, w1)" by fastforce
  have f1: "flushes cx cz w0 w1" using flushes_streamWrite 1 w0(1) by (simp add: rewriteStart_def)
  note k1 = flushes_keeps [OF f1 w0]
  obtain ok2 w2 where 2: "writeBytes n (segmentFooter_image (footerFor ?h)) w1 = (ok2, w2)" by fastforce
  have f2: "flushes cx cz w1 w2" using flushes_streamWrite 2 k1(1) by (simp add: writeBytes_def)
  note k2 = flushes_keeps [OF f2 k1]
  obtain ok3 w3 where 3: "flushStream n w2 = (ok3, w3)" by fastforce
  have f3: "flushes cx cz w2 w3" using flushes_streamWrite 3 k2(1) by (simp add: flushStream_def)
  note k3 = flushes_keeps [OF f3 k2]
  define w4 where "w4 = setSegment n ((w_segments w3 ! n)\<lparr>sg_streamGood := False\<rparr>) w3"
  have f4: "flushes cx cz w3 w4" unfolding w4_def by (rule flushes_stream [OF k3(1)])
  note k4 = flushes_keeps [OF f4 k3]
  obtain ok5 w5 where 5: "onDisk io w4 = (ok5, w5)" by fastforce
  have f5: "flushes cx cz w4 w5" by (rule flushes_onDisk [OF 5])
  note k5 = flushes_keeps [OF f5 k4]
  obtain ok6 w6 where 6: "onDisk (renameFile (sg_partialPath ?g) (sg_finalPath ?g)) w5 = (ok6, w6)" by fastforce
  have f6: "flushes cx cz w5 w6" by (rule flushes_onDisk [OF 6])
  note k6 = flushes_keeps [OF f6 k5]
  define w7 where "w7 = setSegment n ((w_segments w6 ! n)\<lparr>sg_open := False, sg_indexPositions := (\<lambda>k. None)\<rparr>)
    (w6\<lparr>w_manifest := (w_manifest w6)\<lparr>mf_segmentCount := mf_segmentCount (w_manifest w6) + 1\<rparr>\<rparr>)"
  have eq: "(ok, w') = (if ok1 then if ok2 then if ok3 then if ok5 then if ok6 then (True, w7) else (False, w6)
      else (False, w5) else (False, w3) else (False, w2) else (False, w1))"
    using assms(1) [symmetric]
    by (simp only: sealTail_def Let_def w0_def [symmetric] 1 2 3 w4_def [symmetric] 5 6 w7_def [symmetric]
        andThen_def prod.case)
  note m1 = moves_trans [OF m0 flushes_moves [OF f1 w0(1)]]
  note m2 = moves_trans [OF m1 flushes_moves [OF f2 k1(1)]]
  note m3 = moves_trans [OF m2 flushes_moves [OF f3 k2(1)]]
  note m5 = moves_trans [OF m3 flushes_moves [OF flushes_trans [OF f4 f5] k3(1)]]
  note m6 = moves_trans [OF m5 flushes_moves [OF f6 k5(1)]]
  have m7: "moves cx cz n w w7" unfolding w7_def by (rule moves_trans [OF m6 moves_closed [OF k6]])
  show "moves cx cz n w w'" using eq m1 m2 m3 m5 m6 m7 by (auto split: if_splits)
  show "\<not> sg_open (w_segments w' ! n)" if ok using eq that k6(1) by (auto simp: w7_def split: if_splits)
qed

lemma sealSegment_result:
  assumes "sealSegment cz n w = (ok, w')" and n: "n < length (w_segments w)"
  shows "moves cx cz n w w'" and "ok \<Longrightarrow> \<not> sg_open (w_segments w' ! n)"
proof -
  obtain ok1 w1 where 1: "flushBlock cz n w = (ok1, w1)" by fastforce
  have "moves cx cz n w w' \<and> (ok \<longrightarrow> \<not> sg_open (w_segments w' ! n))"
  proof (cases "sg_open (w_segments w ! n)")
    case True
    have f: "flushes cx cz w w1" by (rule flushBlock_result(1) [OF 1 n True])
    have m: "moves cx cz n w w1" by (rule flushes_moves [OF f n])
    show ?thesis
    proof (cases ok1)
      case ok1: True
      have n1: "n < length (w_segments w1)" using flushes_length [OF f] n by simp
      have o1: "sg_open (w_segments w1 ! n)"
        using f True sameShape_fields(1) [OF flushed_segment(2) [OF _ n], of w1] by (simp add: flushes_def)
      have e1: "sg_pending (w_segments w1 ! n) = []" using flushBlock_result(2) [OF 1 n True] ok1 by simp
      have t: "sealTail n w1 = (ok, w')" using assms True 1 ok1 by (simp add: sealSegment_def andThen_def)
      show ?thesis using moves_trans [OF m sealTail_result(1) [OF t n1 o1 e1]] sealTail_result(2) [OF t n1 o1 e1] by simp
    qed (use assms True 1 m in \<open>simp add: sealSegment_def andThen_def\<close>)
  qed (use assms in \<open>simp add: sealSegment_def\<close>)
  then show "moves cx cz n w w'" and "ok \<Longrightarrow> \<not> sg_open (w_segments w' ! n)" by simp_all
qed

end
