(* ===== verification/WriterCalls.thy ===== *)
theory WriterCalls
  imports WriterSteps
begin

text \<open>
  Every call of a writer operation is a sequence of elementary steps, and so is every history of
  calls.
\<close>

section \<open>Opening a segment\<close>

lemma numberedSegment_cong:
  "w_config w' = w_config w \<Longrightarrow> w_nextSegmentNumber w' = w_nextSegmentNumber w \<Longrightarrow>
     numberedSegment cz i w' old = numberedSegment cz i w old"
  by (simp add: numberedSegment_def openHeader_def)

lemma numberedSegment_fresh: "numberedSegment cz i w (freshSegment g) = numberedSegment cz i w g"
  by (simp add: numberedSegment_def freshSegment_def)

lemma freshSegment_simps [simp]:
  "sg_open (freshSegment g) = False" "sg_pending (freshSegment g) = []"
  "sg_previousShardSequence (freshSegment g) = sg_previousShardSequence g"
  "sg_previousMonotonicNs (freshSegment g) = sg_previousMonotonicNs g"
  "sg_indexPositions (freshSegment g) = (\<lambda>k. None)" "sg_header (freshSegment g) = emptySegmentHeader"
  "sg_streamGood (freshSegment g) = False"
  by (simp_all add: freshSegment_def emptySegment_def)

lemma numberedSegment_simps [simp]:
  "sg_open (numberedSegment cz i w g) = False" "sg_pending (numberedSegment cz i w g) = []"
  "sg_previousShardSequence (numberedSegment cz i w g) = sg_previousShardSequence g"
  "sg_previousMonotonicNs (numberedSegment cz i w g) = sg_previousMonotonicNs g"
  "sg_indexPositions (numberedSegment cz i w g) = (\<lambda>k. None)"
  "sg_header (numberedSegment cz i w g) = openHeader i w"
  "sg_encodedCapacity (numberedSegment cz i w g) =
     cz_bound cz (binaryMarketBlockLayout chDepth) kBinaryMarketBlockRecords"
  by (simp_all add: numberedSegment_def Let_def)

lemma openedSegment_simps [simp]:
  "sg_open (openedSegment cz i w g) = True" "sg_pending (openedSegment cz i w g) = []"
  "sg_previousShardSequence (openedSegment cz i w g) = sg_previousShardSequence g"
  "sg_previousMonotonicNs (openedSegment cz i w g) = sg_previousMonotonicNs g"
  "sg_indexPositions (openedSegment cz i w g) = (\<lambda>k. None)"
  "sg_header (openedSegment cz i w g) = openHeader i w"
  "sg_encodedCapacity (openedSegment cz i w g) =
     cz_bound cz (binaryMarketBlockLayout chDepth) kBinaryMarketBlockRecords"
  by (simp_all add: openedSegment_def)

text \<open>The four outcomes of opening a closed segment.\<close>

definition numbered :: "WriterState \<Rightarrow> WriterState" where
  "numbered w = w\<lparr>w_nextSegmentNumber := w_nextSegmentNumber w + 1\<rparr>"

lemma openSegment_outcome:
  assumes res: "openSegment cz i w = (ok, w')" and n: "unat i < length (w_segments w)"
    and shut: "\<not> sg_open (w_segments w ! unat i)"
  obtains (exhausted) "\<not> ok" "w' = w"
  | (unprepared) d where "\<not> ok" "w' = setSegment (unat i) (freshSegment (w_segments w ! unat i)) (w\<lparr>w_disk := d\<rparr>)"
  | (unwritten) d b where "\<not> ok" "w_nextSegmentNumber w \<noteq> 0xffffffff"
      "w' = setSegment (unat i) ((numberedSegment cz i w (w_segments w ! unat i))\<lparr>sg_streamGood := b\<rparr>) (numbered w\<lparr>w_disk := d\<rparr>)"
  | (opened) d where "ok" "w_nextSegmentNumber w \<noteq> 0xffffffff"
      "w' = setSegment (unat i) (openedSegment cz i w (w_segments w ! unat i)) (numbered w\<lparr>w_disk := d\<rparr>)"
proof -
  have onDisk_ex: "\<exists>ok d. onDisk f v = (ok, v\<lparr>w_disk := d\<rparr>)" for f v
    by (cases "f (w_disk v)") (force simp: onDisk_def)
  let ?n = "unat i"
  let ?old = "w_segments w ! ?n"
  let ?g = "numberedSegment cz i w ?old"
  have cong: "numberedSegment cz i (setSegment ?n (freshSegment ?old) (w\<lparr>w_disk := d\<rparr>)) ?old = ?g" for d
    by (rule numberedSegment_cong) simp_all
  show ?thesis
  proof (cases "w_nextSegmentNumber w = 0xffffffff")
    case True
    show ?thesis by (rule exhausted) (use res n shut True in \<open>simp_all add: openSegment_def Let_def\<close>)
  next
    case next_ok: False
    obtain ok1 d1 where 1: "onDisk io (setSegment ?n (freshSegment ?old) w) =
        (ok1, setSegment ?n (freshSegment ?old) (w\<lparr>w_disk := d1\<rparr>))"
      using onDisk_ex [of io "setSegment ?n (freshSegment ?old) w"] by auto
    define w2 where "w2 = setSegment ?n ?g (numbered w\<lparr>w_disk := d1\<rparr>)"
    obtain ok3 d3 where 3: "onDisk io w2 = (ok3, w2\<lparr>w_disk := d3\<rparr>)" using onDisk_ex by blast
    define w3 where "w3 = setSegment ?n (?g\<lparr>sg_streamGood := True\<rparr>)
      (numbered w\<lparr>w_disk := putFile (sg_partialPath ?g) [] d3\<rparr>)"
    obtain ok4 w4 where 4: "writeBytes ?n (segmentHeader_image (openHeader i w)) w3 = (ok4, w4)" by fastforce
    have eq: "(ok, w') = (if ok1 then if ok3 then if ok4 then (True, setSegment ?n ((w_segments w4 ! ?n)
          \<lparr>sg_projectedBytes := fixedSegmentBytes, sg_open := True\<rparr>) w4) else (False, w4)
        else (False, w2\<lparr>w_disk := d3\<rparr>) else (False, setSegment ?n (freshSegment ?old) (w\<lparr>w_disk := d1\<rparr>)))"
    proof -
      have a: "setSegment ?n ?g (setSegment ?n (freshSegment ?old) (w\<lparr>w_disk := d1\<rparr>)
          \<lparr>w_nextSegmentNumber := w_nextSegmentNumber (setSegment ?n (freshSegment ?old) (w\<lparr>w_disk := d1\<rparr>)) + 1\<rparr>) = w2"
        by (simp add: w2_def numbered_def setSegment_def)
      have b: "setSegment ?n (?g\<lparr>sg_streamGood := True\<rparr>) (w2\<lparr>w_disk := d3\<rparr>
          \<lparr>w_disk := putFile (sg_partialPath ?g) [] (w_disk (w2\<lparr>w_disk := d3\<rparr>))\<rparr>) = w3"
        by (simp add: w2_def w3_def numbered_def setSegment_def)
      have h: "sg_header ?g = openHeader i w" by simp
      have l: "(length (w_segments w) \<le> ?n) = False" "sg_open ?old = False" using n shut by simp_all
      from res [symmetric] show ?thesis
        by (simp only: openSegment_def Let_def l next_ok if_False 1 andThen_def prod.case cong a 3 b h 4)
    qed
    show ?thesis
    proof (cases "ok1 \<and> ok3")
      case False
      then consider "\<not> ok1" | "ok1" "\<not> ok3" by blast
      then show ?thesis
      proof cases
        case 1
        show ?thesis by (rule unprepared [of d1]) (use eq 1 in simp_all)
      next
        case 2
        show ?thesis by (rule unwritten [of "sg_streamGood ?g" d3])
          (use eq 2 next_ok in \<open>simp_all add: w2_def\<close>)
      qed
    next
      case True
      have "writeBytes ?n (segmentHeader_image (openHeader i w)) w3 = (ok4, w4)" by (rule 4)
      then show ?thesis unfolding writeBytes_def
      proof (cases rule: streamWrite_result)
        case same
        show ?thesis by (rule unwritten [of True "putFile (sg_partialPath ?g) [] d3"])
          (use eq True same next_ok in \<open>simp_all add: w3_def\<close>)
      next
        case (bad d)
        show ?thesis by (rule unwritten [of False d])
          (use eq True bad n next_ok in \<open>simp_all add: w3_def numbered_def\<close>)
      next
        case (good d)
        show ?thesis by (rule opened [of d])
          (use eq True good n next_ok in \<open>simp_all add: w3_def openedSegment_def numbered_def\<close>)
      qed
    qed
  qed
qed

lemma numbered_simps [simp]:
  "w_segments (numbered w) = w_segments w" "w_sources (numbered w) = w_sources w"
  "w_manifest (numbered w) = w_manifest w" "w_replayAnchorFrozen (numbered w) = w_replayAnchorFrozen w"
  by (simp_all add: numbered_def)

lemma disk_then: "wsteps cx cz x (v, k, c, p) \<Longrightarrow> w' = v\<lparr>w_disk := d\<rparr> \<Longrightarrow> wsteps cx cz x (w', k, c, p)"
  using wsteps_then disk by blast

lemma openSegment_fails:
  assumes "openSegment cz i w = (False, w')" and n: "unat i < length (w_segments w)"
    and shut: "\<not> sg_open (w_segments w ! unat i)" and k: "192 \<le> k"
  shows "wsteps cx cz (w, k, c, False) (w', 0, 0, False)"
proof -
  have drop: "wsteps cx cz (w, k, c, False) (v, k', c', False) \<Longrightarrow> wsteps cx cz (w, k, c, False) (v, 0, 0, False)" for v k' c'
    by (erule wsteps_then) (rule unspent; simp)
  from assms(1) n shut show ?thesis
  proof (cases rule: openSegment_outcome)
    case exhausted
    then show ?thesis using drop [OF wsteps_refl] by simp
  next
    case (unprepared d)
    have "wsteps cx cz (w, k, c, False) (w', k, c, False)"
      using disk_then [OF wsteps_step [OF reset [OF n shut]]] unprepared(2) by simp
    then show ?thesis by (rule drop)
  next
    case (unwritten d b)
    let ?m = "setSegment (unat i) (numberedSegment cz i w (w_segments w ! unat i)) (numbered w)"
    have "wsteps cx cz (w, k, c, False) (?m, k - 192, c, False)"
      using wsteps_step [OF number [OF n shut unwritten(2) k]] by (simp add: numbered_def)
    moreover have "wstep cx cz (?m, k - 192, c, False)
        (setSegment (unat i) ((w_segments ?m ! unat i)\<lparr>sg_streamGood := b\<rparr>) ?m, k - 192, c, False)"
      by (rule stream) (use n in simp)
    ultimately have "wsteps cx cz (w, k, c, False) (w', k - 192, c, False)"
      by (rule disk_then [OF wsteps_then, where d = d]) (use n unwritten(3) in simp)
    then show ?thesis by (rule drop)
  qed simp
qed

lemma openSegment_opens:
  assumes "openSegment cz i w = (True, w')" and n: "unat i < length (w_segments w)"
    and shut: "\<not> sg_open (w_segments w ! unat i)" and k: "192 \<le> k"
  shows "wsteps cx cz (w, k, c, False) (w', k - 192, c, True)"
    and "sg_open (w_segments w' ! unat i)" and "sg_indexPositions (w_segments w' ! unat i) = (\<lambda>k. None)"
    and "w_sources w' = w_sources w" and "ready cx r w \<Longrightarrow> unat (rh_shardIndex (header r)) = unat i \<Longrightarrow> ready cx r w'"
proof -
  from assms(1) n shut have "wsteps cx cz (w, k, c, False) (w', k - 192, c, True) \<and> sg_open (w_segments w' ! unat i) \<and>
    sg_indexPositions (w_segments w' ! unat i) = (\<lambda>k. None) \<and> w_sources w' = w_sources w \<and>
    (ready cx r w \<longrightarrow> unat (rh_shardIndex (header r)) = unat i \<longrightarrow> ready cx r w')"
  proof (cases rule: openSegment_outcome)
    case (opened d)
    let ?m = "setSegment (unat i) (openedSegment cz i w (w_segments w ! unat i)) (numbered w)"
    have "wsteps cx cz (w, k, c, False) (?m, k - 192, c, True)"
      using wsteps_step [OF wstep.opened [OF n shut opened(2) k]] by (simp add: numbered_def)
    then have "wsteps cx cz (w, k, c, False) (w', k - 192, c, True)"
      by (rule disk_then [where d = d]) (use opened(3) in simp)
    then show ?thesis using opened(3) n by (auto simp: ready_def Let_def outOfOrder_def)
  qed simp_all
  then show "wsteps cx cz (w, k, c, False) (w', k - 192, c, True)"
    and "sg_open (w_segments w' ! unat i)" and "sg_indexPositions (w_segments w' ! unat i) = (\<lambda>k. None)"
    and "w_sources w' = w_sources w" and "ready cx r w \<Longrightarrow> unat (rh_shardIndex (header r)) = unat i \<Longrightarrow> ready cx r w'"
    by simp_all
qed

section \<open>Append\<close>

lemma ready_moves:
  assumes "moves cx' cz n w w'" and "n = unat (rh_shardIndex (header r))" and "ready cx r w"
    and "sg_pending (w_segments w' ! n) = sg_pending (w_segments w ! n) \<or> sg_pending (w_segments w' ! n) = []"
    and "sg_open (w_segments w' ! n) = sg_open (w_segments w ! n)"
  shows "ready cx r w'"
  using assms by (auto simp: moves_def carried_def ready_def Let_def outOfOrder_def)

lemma wsteps_drop: "wsteps cx cz x (w, k, c, False) \<Longrightarrow> wsteps cx cz x (w, 0, 0, False)"
  by (erule wsteps_then) (rule unspent; simp)

lemma lifecycle_source_wf: "record_wf r \<Longrightarrow> source_wf (lp_source (lifecycleOf r))"
  by (simp add: record_wf_def kBinaryMarketPayloadBytes_def lifecycleOf_def lifecyclePayload_of_def source_of_def
      quantityConversion_of_def source_wf_def slice_def)

text \<open>A descriptor stays valid when its source is marked absent and its generation forgotten.\<close>

lemma absent_invalid:
  "sourceScalarsInvalid (s\<lparr>initiallyPresent := 0\<rparr>) n \<Longrightarrow> sourceScalarsInvalid s n"
  "sourceScalarsInvalid (s\<lparr>initialSourceGeneration := 0, initiallyPresent := 0\<rparr>) n \<Longrightarrow> sourceScalarsInvalid s n"
  "sourceFlagsInvalid (s\<lparr>initiallyPresent := 0\<rparr>) \<Longrightarrow> sourceFlagsInvalid s"
  "sourceFlagsInvalid (s\<lparr>initialSourceGeneration := g, initiallyPresent := 0\<rparr>) \<Longrightarrow> sourceFlagsInvalid s"
  unfolding sourceScalarsInvalid_def sourceFlagsInvalid_def by (simp; blast)+

lemma absent_channels:
  "directoryChannels (s\<lparr>initiallyPresent := b\<rparr>) = directoryChannels s"
  "directoryChannels (s\<lparr>initialSourceGeneration := g\<rparr>) = directoryChannels s"
  "channelCompatibilityOk (s\<lparr>initiallyPresent := b\<rparr>) = channelCompatibilityOk s"
  "channelCompatibilityOk (s\<lparr>initialSourceGeneration := g\<rparr>) = channelCompatibilityOk s"
  by (simp_all add: directoryChannels_def channelCompatibilityOk_def fun_eq_iff)

lemma valid_absent: "validBinaryMarketSource s n \<Longrightarrow> validBinaryMarketSource (s\<lparr>initiallyPresent := 0\<rparr>) n"
  using absent_invalid(1,3) [of s] unfolding validBinaryMarketSource_def absent_channels
  by (simp split: if_split_asm) blast

lemma valid_unknown:
  "validBinaryMarketSource s n \<Longrightarrow> validBinaryMarketSource (s\<lparr>initialSourceGeneration := 0, initiallyPresent := 0\<rparr>) n"
  using absent_invalid(2) [of s] absent_invalid(4) [where s = s and g = 0] unfolding validBinaryMarketSource_def absent_channels
  by (simp split: if_split_asm) blast

lemma source_wf_absent [simp]:
  "source_wf (s\<lparr>initiallyPresent := b\<rparr>) = source_wf s" "source_wf (s\<lparr>initialSourceGeneration := g\<rparr>) = source_wf s"
  by (simp_all add: source_wf_def)

lemma admit_accepts:
  assumes "admit cx r w = Inr ad" and wf: "record_wf r"
  shows "validBinaryMarketRecord cx r" and "unat (rh_shardIndex (header r)) < length (w_segments w)"
    and "unat (rh_sourceId (header r)) \<le> length (w_sources w) + (if ad_newSource ad then 1 else 0)"
    and "w_replayAnchorFrozen w \<Longrightarrow> mf_replayAnchorMonotonicNs (w_manifest w) \<le> rh_receiveMonotonicNs (header r)"
    and "ad_newSource ad \<Longrightarrow> sourceAccepted (ad_addedSource ad) (length (w_sources w))"
proof -
  let ?src = "lp_source (lifecycleOf r)"
  let ?new = "unat (rh_sourceId (header r)) = length (w_sources w) + 1"
  have in_range: "\<not> recordOutOfRange cx r w"
    and anchor: "\<not> (w_replayAnchorFrozen w \<and> rh_receiveMonotonicNs (header r) < mf_replayAnchorMonotonicNs (w_manifest w))"
    and new: "ad_newSource ad = ?new" "?new \<Longrightarrow> ad_addedSource ad = ?src\<lparr>initiallyPresent := 0\<rparr>"
    and life: "?new \<Longrightarrow> rh_channel (header r) = chSourceLifecycle \<and> length (w_sources w) < kBinaryMarketMaximumSources"
    using assms(1) by (auto simp: admit_def Let_def split: if_splits prod.splits)
  show v: "validBinaryMarketRecord cx r" using in_range by (simp add: recordOutOfRange_def Let_def)
  show "unat (rh_shardIndex (header r)) < length (w_segments w)" using in_range by (simp add: recordOutOfRange_def Let_def)
  show "unat (rh_sourceId (header r)) \<le> length (w_sources w) + (if ad_newSource ad then 1 else 0)"
    using in_range new(1) by (auto simp: recordOutOfRange_def Let_def split: if_splits)
  show "mf_replayAnchorMonotonicNs (w_manifest w) \<le> rh_receiveMonotonicNs (header r)" if "w_replayAnchorFrozen w"
    using anchor that by (simp add: not_less)
  show "sourceAccepted (ad_addedSource ad) (length (w_sources w))" if "ad_newSource ad"
  proof -
    have n: ?new using that new(1) by simp
    have "\<not> lifecycleRejected r" using v life [OF n] by (auto simp: validBinaryMarketRecord_def Let_def split: if_splits)
    then have "validBinaryMarketSource ?src (unat (sourceId ?src) - 1)" "sourceId ?src = rh_sourceId (header r)"
      unfolding lifecycleRejected_def Let_def by blast+
    then have "validBinaryMarketSource (?src\<lparr>initiallyPresent := 0\<rparr>) (length (w_sources w))"
      using n by (intro valid_absent) simp
    then show ?thesis using n new(2) life [OF n] lifecycle_source_wf [OF wf] by (simp add: sourceAccepted_def)
  qed
qed

lemma ready_recordSource: "ready cx r (recordSource ad w) = ready cx r w"
  by (simp add: ready_def Let_def recordSource_def)

lemma indexFor_None: "indexFor r w = (None, w') \<Longrightarrow> w' = w"
  by (auto simp: indexFor_def ensureIndex_def Let_def split: option.splits if_splits)

lemma appendStored:
  assumes ready: "ready cx r w" and opn: "sg_open (w_segments w ! unat (rh_shardIndex (header r)))"
    and src: "unat (rh_sourceId (header r)) \<le> length (w_sources w)"
    and k: "prb cz + indexCost r w \<le> k" and index: "sg_indexPositions (w_segments w ! unat (rh_shardIndex (header r))) (recordKey r) = None \<Longrightarrow> 72 \<le> k"
    and c: "192 \<le> c" and p: "p \<Longrightarrow> sg_indexPositions (w_segments w ! unat (rh_shardIndex (header r))) (recordKey r) = None"
  shows "wsteps cx cz (w, k, c, p) (snd (case indexFor r w of
      (None, w) \<Rightarrow> (if w_quotaReached w then OutOfRange else IoError, w)
    | (Some position, w) \<Rightarrow> (Ok, storeRecord cz r ad position w)), 0, 0, False)"
proof (cases "indexFor r w")
  case (Pair position w1)
  show ?thesis
  proof (cases position)
    case None
    then have w1: "w1 = w" using Pair indexFor_None by simp
    have "sg_indexPositions (w_segments w ! unat (rh_shardIndex (header r))) (recordKey r) = None"
      using Pair None by (auto simp: indexFor_def ensureIndex_def recordKey_def Let_def split: option.splits)
    then have "wsteps cx cz (w, k, c, p) (w, k, c, False)"
      using Pair None w1 index by (intro wsteps_step unindexed) simp_all
    then show ?thesis using Pair None w1 wsteps_drop by simp
  next
    case (Some n)
    have "wsteps cx cz (w, k, c, p) (storeRecord cz r ad n w1, k - (prb cz + indexCost r w), c - 192, False)"
      using ready opn src Pair Some k c p by (intro wsteps_step stored) (simp_all add: indexCost_def)
    then show ?thesis using Pair Some wsteps_drop by simp
  qed
qed

text \<open>The tail of an append, from the bytes reserved for it.\<close>

lemma appendReserved_steps:
  assumes ready: "ready cx r w" and new: "ad_newSource ad \<Longrightarrow> sourceAccepted (ad_addedSource ad) (length (w_sources w))"
    and src: "unat (rh_sourceId (header r)) \<le> length (w_sources w) + (if ad_newSource ad then 1 else 0)"
    and rot: "rotating \<Longrightarrow> openNeeded" and opn: "openNeeded \<longleftrightarrow> \<not> sg_open g \<or> rotating"
    and g: "g = w_segments w ! unat (rh_shardIndex (header r))"
    and k: "k = prb cz + (if ad_newSource ad then 992 else 0) + (if openNeeded then 192 else 0) +
      (if openNeeded \<or> sg_indexPositions g (recordKey r) = None then 72 else 0)"
    and c: "c = 192 + (if ad_newSource ad then 1984 else 0)"
  shows "wsteps cx cz (w, k, c, False) (snd (appendReserved cz r ad rotating openNeeded w), 0, 0, False)"
proof -
  let ?i = "rh_shardIndex (header r)"
  let ?n = "unat ?i"
  have n: "?n < length (w_segments w)" using ready by (simp add: ready_def Let_def)
  have tail: "wsteps cx cz (v, k', c, p) (snd (case indexFor r (recordSource ad v) of
        (None, w) \<Rightarrow> (if w_quotaReached w then OutOfRange else IoError, w)
      | (Some position, w) \<Rightarrow> (Ok, storeRecord cz r ad position w)), 0, 0, False)"
    if v: "ready cx r v" "sg_open (w_segments v ! ?n)" "w_sources v = w_sources w"
      "k' = prb cz + (if ad_newSource ad then 992 else 0) + (if sg_indexPositions (w_segments v ! ?n) (recordKey r) = None then 72 else 0)"
      "p \<Longrightarrow> sg_indexPositions (w_segments v ! ?n) (recordKey r) = None" for v k' p
  proof -
    let ?s = "recordSource ad v"
    have seg: "w_segments ?s = w_segments v" by (simp add: recordSource_def)
    have "wsteps cx cz (v, k', c, p) (?s, prb cz + indexCost r v, 192, p)"
    proof (cases "ad_newSource ad")
      case True
      have "wstep cx cz (v, k', c, p) (?s, k' - 992, c - 1984, p)"
        by (rule added) (use True new v c in simp_all)
      then show ?thesis using True v(4) c by (simp add: wsteps_step indexCost_def)
    qed (simp add: recordSource_def v(4) c indexCost_def)
    moreover have "wsteps cx cz (?s, prb cz + indexCost r v, 192, p) (snd (case indexFor r ?s of
        (None, w) \<Rightarrow> (if w_quotaReached w then OutOfRange else IoError, w)
      | (Some position, w) \<Rightarrow> (Ok, storeRecord cz r ad position w)), 0, 0, False)"
    proof (rule appendStored)
      show "unat (rh_sourceId (header r)) \<le> length (w_sources ?s)" using src v(3) by (auto simp: recordSource_def)
    qed (use v seg in \<open>simp_all add: ready_recordSource indexCost_def\<close>)
    ultimately show ?thesis by (rule wsteps_trans)
  qed
  obtain ok1 w1 where 1: "(if rotating then sealSegment cz ?n w else (True, w)) = (ok1, w1)" by fastforce
  obtain ok2 w2 where 2: "(if openNeeded then openSegment cz ?i w1 else (True, w1)) = (ok2, w2)" by fastforce
  have m1: "moves cx cz ?n w w1" using 1 n sealSegment_result(1) by (auto split: if_splits)
  have n1: "?n < length (w_segments w1)" and src1: "w_sources w1 = w_sources w"
    using m1 n by (simp_all add: moves_def carried_def)
  have s1: "wsteps cx cz (w, k, c, False) (w1, k, c, False)" using m1 by (simp add: moves_def)
  have res: "snd (appendReserved cz r ad rotating openNeeded w) = (if ok1 then if ok2
      then snd (case indexFor r (recordSource ad w2) of
          (None, w) \<Rightarrow> (if w_quotaReached w then OutOfRange else IoError, w)
        | (Some position, w) \<Rightarrow> (Ok, storeRecord cz r ad position w)) else w2 else w1)"
    using 1 2 by (simp add: appendReserved_def Let_def orReturn_def indexFor_def)
  show ?thesis
  proof (cases "ok1")
    case ok1: True
    show ?thesis
    proof (cases openNeeded)
      case False
      have "wsteps cx cz (w1, k, c, False) (snd (case indexFor r (recordSource ad w1) of
          (None, w) \<Rightarrow> (if w_quotaReached w then OutOfRange else IoError, w)
        | (Some position, w) \<Rightarrow> (Ok, storeRecord cz r ad position w)), 0, 0, False)"
        using False rot opn 1 ready g k by (intro tail) (simp_all split: if_splits)
      then show ?thesis using wsteps_trans [OF s1] res ok1 2 False by simp
    next
      case True
      have shut: "\<not> sg_open (w_segments w1 ! ?n)"
        using True opn g 1 ok1 n sealSegment_result(2) by (cases rotating) auto
      have k192: "192 \<le> k" using k True by simp
      show ?thesis
      proof (cases ok2)
        case ok2: True
        have o: "openSegment cz ?i w1 = (True, w2)" using 2 True ok2 by simp
        note op = openSegment_opens [OF o n1 shut k192]
        have prev: "carried ?n w w1" using m1 by (simp add: moves_def)
        have "ready cx r (w1\<lparr>w_segments := (w_segments w1)[?n := freshSegment (w_segments w1 ! ?n)]\<rparr>)"
          using ready prev n1 by (auto simp: ready_def Let_def outOfOrder_def carried_def)
        moreover from o n1 shut have "ready cx r (w1\<lparr>w_segments := (w_segments w1)[?n := freshSegment (w_segments w1 ! ?n)]\<rparr>) \<longrightarrow> ready cx r w2"
        proof (cases rule: openSegment_outcome)
          case (opened d)
          then show ?thesis using n1 by (auto simp: ready_def Let_def outOfOrder_def)
        qed simp_all
        ultimately have "wsteps cx cz (w2, k - 192, c, True) (snd (case indexFor r (recordSource ad w2) of
            (None, w) \<Rightarrow> (if w_quotaReached w then OutOfRange else IoError, w)
          | (Some position, w) \<Rightarrow> (Ok, storeRecord cz r ad position w)), 0, 0, False)"
          using op(2-4) src1 k True by (intro tail) simp_all
        then show ?thesis using wsteps_trans [OF wsteps_trans [OF s1 op(1)]] res ok1 ok2 by simp
      next
        case False
        have "wsteps cx cz (w1, k, c, False) (w2, 0, 0, False)"
          using openSegment_fails [OF _ n1 shut k192] 2 True False by simp
        then show ?thesis using wsteps_trans [OF s1] res ok1 False by simp
      qed
    qed
  next
    case False
    then show ?thesis using wsteps_drop [OF s1] res by simp
  qed
qed

lemma appendNeeds_exact:
  assumes "appendNeeds cz new opn idx w = Some (b, g)"
  shows "unat b = prb cz + 192 + (if new then 2976 else 0) + (if opn then 192 else 0) + (if idx then 72 else 0)"
    and "unat g = 192 + (if new then 1984 else 0)" and "addWithin (w_cutReservedBytes w) g 0xffffffffffffffff"
proof -
  let ?s = "0xffffffffffffffff :: u64"
  have max72: "unat (?s - word_of_nat sizeof_IndexEntry) = 2 ^ 64 - 73" by (simp add: sizeof_IndexEntry_def)
  have max192: "unat (?s - fixedSegmentBytes) = 2 ^ 64 - 193" by (simp add: max_minus unat_constants)
  have add: "\<not> ?s - x < y \<Longrightarrow> unat (y + x) = unat y + unat x" for x y :: u64
    using unat_lt64 [of x] by (simp add: word_less_nat_alt max_minus unat_word_ariths)
  from assms obtain r1 r2 r3 where r1: "addProduct (binaryMarketPendingRecordBytes cz) 1 kRecordCutReservationBytes = Some r1"
    and r2: "(if new then addProduct r1 1 kSourceReservationBytes else Some r1) = Some r2"
    and g: "(if new then addProduct kRecordCutReservationBytes 2 kSourceStorageBytes else Some kRecordCutReservationBytes) = Some g"
    and cut: "addWithin (w_cutReservedBytes w) g ?s" and o: "opn \<Longrightarrow> \<not> ?s - fixedSegmentBytes < r2"
    and r3: "r3 = (if opn then r2 + fixedSegmentBytes else r2)"
    and i: "idx \<Longrightarrow> \<not> ?s - word_of_nat sizeof_IndexEntry < r3"
    and b: "b = (if idx then r3 + word_of_nat sizeof_IndexEntry else r3)"
    by (auto simp: appendNeeds_def Let_def split: bind_splits if_splits)
  have u1: "unat r1 = prb cz + 192" using addProduct_SomeD [OF r1] by (simp add: prb_def unat_constants)
  have u2: "unat r2 = unat r1 + (if new then 2976 else 0)"
    using r2 addProduct_SomeD [of r1 1 kSourceReservationBytes r2] by (auto simp: unat_constants)
  have u3: "unat r3 = unat r2 + (if opn then 192 else 0)" using r3 o add by (simp add: unat_constants)
  have "unat b = unat r3 + (if idx then 72 else 0)" using b i add by (simp add: sizeof_IndexEntry_def)
  then show "unat b = prb cz + 192 + (if new then 2976 else 0) + (if opn then 192 else 0) + (if idx then 72 else 0)"
    using u1 u2 u3 by simp
  show "unat g = 192 + (if new then 1984 else 0)"
    using g addProduct_SomeD [of kRecordCutReservationBytes 2 kSourceStorageBytes g] by (auto simp: unat_constants)
  show "addWithin (w_cutReservedBytes w) g ?s" by (rule cut)
qed

lemma flushes_ready:
  assumes "flushes cx cz w w'" and "ready cx r w"
  shows "ready cx r w'"
proof -
  let ?n = "unat (rh_shardIndex (header r))"
  have n: "?n < length (w_segments w)" using assms(2) by (simp add: ready_def Let_def)
  have "sameShape (w_segments w ! ?n) (w_segments w' ! ?n)" using assms(1) n flushed_segment(2) by (simp add: flushes_def)
  then show ?thesis
    by (intro ready_moves [OF flushes_moves [OF assms(1) n] refl assms(2)] sameShape_fields(1)) (simp_all add: sameShape_def)
qed

lemma reserve_steps:
  assumes "reserveBytes b w = (ok, w')" and "addWithin (w_cutReservedBytes w) g 0xffffffffffffffff" and "g \<le> b"
  shows "ok \<Longrightarrow> wsteps cx cz (w, 0, 0, False)
      (w'\<lparr>w_cutReservedBytes := w_cutReservedBytes w' + g\<rparr>, unat b - unat g, unat g, False)"
    and "\<not> ok \<Longrightarrow> wsteps cx cz (w, 0, 0, False) (w', 0, 0, False)"
  using assms wsteps_step [OF reserve, of w b g cx cz 0 0 False] wsteps_step [OF quota]
  by (auto simp: reserveBytes_def split: if_splits)

lemma appendAdmitted_steps:
  assumes ad: "admit cx r w = Inr ad" and wf: "record_wf r"
  shows "wsteps cx cz (w, 0, 0, False) (snd (appendAdmitted cz r ad w), 0, 0, False)"
proof (cases "outOfOrder r (w_segments w ! unat (rh_shardIndex (header r)))")
  case ordered: False
  let ?n = "unat (rh_shardIndex (header r))"
  note acc = admit_accepts [OF ad wf]
  obtain ok1 w1 where 1: "(if blockFull r (w_segments w ! ?n) then flushBlock cz ?n w else (True, w)) = (ok1, w1)" by fastforce
  have f1: "flushes cx cz w w1" using 1 acc(2) flushBlock_result(1) by (auto simp: blockFull_def split: if_splits)
  have s1: "wsteps cx cz (w, 0, 0, False) (w1, 0, 0, False)" using f1 by (simp add: flushes_def)
  show ?thesis
  proof (cases ok1)
    case ok1: True
    define g where "g = w_segments w1 ! ?n"
    define rotating where "rotating = rotateNeeded cz (cf_segmentTargetBytes (w_config w1)) g"
    define openNeeded where "openNeeded = (\<not> sg_open g \<or> rotating)"
    define indexNeeded where "indexNeeded = (openNeeded \<or> sg_indexPositions g (recordKey r) = None)"
    have same1: "w_sources w1 = w_sources w" using f1 flushed_same(3) by (simp add: flushes_def)
    have len1: "length (w_segments w1) = length (w_segments w)" by (rule flushes_length [OF f1])
    have ready1: "ready cx r w1"
    proof -
      have sh: "sameShape (w_segments w ! ?n) g" using f1 flushed_segment(2) acc(2) by (simp add: flushes_def g_def)
      have "sg_pending g \<noteq> [] \<Longrightarrow> \<not> blockFull r (w_segments w ! ?n)"
        using 1 ok1 flushBlock_result(2) acc(2) by (auto simp: blockFull_def g_def split: if_splits)
      then have "sg_open g \<longrightarrow> sg_pending g \<noteq> [] \<longrightarrow> length (sg_pending g) \<noteq> kBinaryMarketBlockRecords \<and>
          rh_channel (header (hd (sg_pending g))) = rh_channel (header r)"
        using sh sameShape_fields(1) [OF sh] by (auto simp: blockFull_def sameShape_def)
      then show ?thesis
        using acc wf ordered f1 len1 flushed_same(2,7) [of w w1] sameShape_fields(3,4) [OF sh]
        by (auto simp: ready_def Let_def outOfOrder_def flushes_def g_def)
    qed
    show ?thesis
    proof (cases "appendNeeds cz (ad_newSource ad) openNeeded indexNeeded w1")
      case None
      then have "snd (appendAdmitted cz r ad w) = w1"
        using 1 ok1 unfolding indexNeeded_def openNeeded_def rotating_def g_def recordKey_def
        by (simp add: appendAdmitted_def Let_def ordered orReturn_def)
      then show ?thesis using s1 by simp
    next
      case (Some needs)
      obtain b gr where needs: "needs = (b, gr)" by fastforce
      note ex = appendNeeds_exact [OF Some [unfolded needs]]
      obtain ok2 w2 where 2: "(if \<not> addWithin (w_projectedBytes w1) b (w_writeLimitBytes w1)
          then flushOpen cz [0..<length (w_segments w1)] w1 else (True, w1)) = (ok2, w2)" by fastforce
      have f2: "flushes cx cz w1 w2" using 2 flushOpen_result by (auto split: if_splits)
      obtain ok3 w3 where 3: "reserveBytes b w2 = (ok3, w3)" by fastforce
      define w4 where "w4 = w3\<lparr>w_cutReservedBytes := w_cutReservedBytes w3 + gr\<rparr>"
      have res: "snd (appendAdmitted cz r ad w) = (if ok2 then if ok3
          then snd (appendReserved cz r ad rotating openNeeded w4) else w3 else w2)"
        using 1 ok1 2 3 Some needs unfolding indexNeeded_def openNeeded_def rotating_def g_def recordKey_def w4_def
        by (simp add: appendAdmitted_def Let_def ordered orReturn_def)
      have s2: "wsteps cx cz (w, 0, 0, False) (w2, 0, 0, False)"
        using wsteps_trans [OF s1] f2 by (simp add: flushes_def)
      have sh: "sameShape g (w_segments w2 ! ?n)"
        using f2 flushed_segment(2) acc(2) len1 by (simp add: flushes_def g_def)
      have same2: "w_sources w2 = w_sources w" "addWithin (w_cutReservedBytes w2) gr 0xffffffffffffffff"
        using f2 flushed_same(3,5) [of w1 w2] same1 ex(3) by (simp_all add: flushes_def)
      have le: "gr \<le> b" using ex(1,2) by (simp add: word_le_nat_alt)
      note rs = reserve_steps [OF 3 same2(2) le]
      show ?thesis
      proof (cases "ok2 \<and> ok3")
        case True
        have w4: "w_segments w4 = w_segments w2" "w_sources w4 = w_sources w" "w_manifest w4 = w_manifest w2"
          "w_replayAnchorFrozen w4 = w_replayAnchorFrozen w2"
          using 3 True same2(1) by (auto simp: w4_def reserveBytes_def split: if_splits)
        have ready4: "ready cx r w4" using flushes_ready [OF f2 ready1] w4 by (simp add: ready_def Let_def)
        have "wsteps cx cz (w4, unat b - unat gr, unat gr, False)
            (snd (appendReserved cz r ad rotating openNeeded w4), 0, 0, False)"
        proof (rule appendReserved_steps [OF ready4])
          show "unat b - unat gr = prb cz + (if ad_newSource ad then 992 else 0) + (if openNeeded then 192 else 0) +
              (if openNeeded \<or> sg_indexPositions (w_segments w4 ! ?n) (recordKey r) = None then 72 else 0)"
            using ex(1,2) sameShape_fields(2) [OF sh] w4(1) by (simp add: indexNeeded_def)
          show "openNeeded \<longleftrightarrow> \<not> sg_open (w_segments w4 ! ?n) \<or> rotating"
            using sameShape_fields(1) [OF sh] w4(1) by (simp add: openNeeded_def)
        qed (use acc w4 ex(2) in \<open>simp_all add: openNeeded_def\<close>)
        moreover have "wsteps cx cz (w2, 0, 0, False) (w4, unat b - unat gr, unat gr, False)"
          using rs(1) True by (simp add: w4_def)
        ultimately show ?thesis using res True wsteps_trans [OF s2] wsteps_trans by (metis (no_types))
      next
        case False
        then show ?thesis using res s2 wsteps_trans [OF s2 rs(2)] by auto
      qed
    qed
  next
    case False
    then show ?thesis using s1 1 by (simp add: appendAdmitted_def Let_def ordered orReturn_def)
  qed
qed (simp add: appendAdmitted_def Let_def)

lemma appendActive_steps:
  "record_wf r \<Longrightarrow> wsteps cx cz (w, 0, 0, False) (snd (appendActive cx cz r w), 0, 0, False)"
  using appendAdmitted_steps [of cx r w] by (cases "admit cx r w") (simp_all add: appendActive_def)

section \<open>Sources and reference payload\<close>

lemma countSources_bound: "countSources known ss n = Some m \<Longrightarrow> n \<le> m \<and> m \<le> n + length ss"
  by (induction ss arbitrary: n) (fastforce split: if_splits)+

text \<open>The sources a registration adds.\<close>

fun newSources :: "nat \<Rightarrow> BinaryMarketSource list \<Rightarrow> BinaryMarketSource list" where
  "newSources n [] = []"
| "newSources n (s # ss) = (if unat (sourceId s) \<le> n then newSources n ss
     else s\<lparr>initiallyPresent := 0, initialSourceGeneration := 0\<rparr> # newSources (n + 1) ss)"

lemma addSources_eq: "addSources ss w = w\<lparr>w_sources := w_sources w @ newSources (length (w_sources w)) ss,
    w_sourceStates := w_sourceStates w @ map initialBinaryMarketSourceState (newSources (length (w_sources w)) ss)\<rparr>"
  by (induction ss w rule: addSources.induct) (simp_all add: Let_def)

lemma unknown_commute: "s\<lparr>initiallyPresent := a, initialSourceGeneration := b\<rparr> =
    s\<lparr>initialSourceGeneration := b, initiallyPresent := a\<rparr>"
  by simp

lemma newSources_counted:
  assumes "countSources known ss n = Some m" and "length known \<le> n" and "list_all source_wf ss"
  shows "length (newSources n ss) = m - n"
    and "j < m - n \<Longrightarrow> sourceAccepted (newSources n ss ! j) (n + j)"
proof -
  have "length (newSources n ss) = m - n \<and> (\<forall>j < m - n. sourceAccepted (newSources n ss ! j) (n + j))"
    using assms
  proof (induction ss arbitrary: n)
    case (Cons s ss)
    show ?case
    proof (cases "unat (sourceId s) \<le> length known")
      case True
      then show ?thesis using Cons by (auto split: if_splits)
    next
      case False
      then have s: "unat (sourceId s) = n + 1" "n < kBinaryMarketMaximumSources" "countSources known ss (n + 1) = Some m"
        "validBinaryMarketSource s n" using Cons.prems(1) by (auto split: if_splits)
      have ih: "length (newSources (n + 1) ss) = m - (n + 1)"
        "\<forall>j < m - (n + 1). sourceAccepted (newSources (n + 1) ss ! j) (n + 1 + j)"
        using Cons.IH [OF s(3)] Cons.prems by auto
      have "n + 1 \<le> m" using countSources_bound [OF s(3)] by simp
      moreover have "sourceAccepted (s\<lparr>initiallyPresent := 0, initialSourceGeneration := 0\<rparr>) n"
        using valid_unknown [OF s(4)] s(2) Cons.prems(3) unfolding unknown_commute
        by (simp add: sourceAccepted_def)
      ultimately show ?thesis using s(1) ih by (auto simp: nth_Cons split: nat.splits)
    qed
  qed simp
  then show "length (newSources n ss) = m - n"
    and "j < m - n \<Longrightarrow> sourceAccepted (newSources n ss ! j) (n + j)" by auto
qed

lemma registerActive_steps:
  assumes "list_all source_wf ss"
  shows "wsteps cx cz (w, 0, 0, False) (snd (registerActive ss w), 0, 0, False)"
proof (cases "countSources (w_sources w) ss (length (w_sources w))")
  case None
  then show ?thesis by (simp add: registerActive_def)
next
  case (Some m)
  let ?n = "length (w_sources w)"
  let ?added = "word_of_nat (m - ?n) :: u64"
  let ?new = "newSources ?n ss"
  show ?thesis
  proof (cases "kBinaryMarketMaximumSources < length ss")
    case False
    have len: "length ?new = m - ?n" and acc: "\<forall>j < length ?new. sourceAccepted (?new ! j) (?n + j)"
      using newSources_counted [OF Some order_refl assms] by auto
    have small: "m - ?n \<le> kBinaryMarketMaximumSources" using countSources_bound [OF Some] False by linarith
    then have u: "unat ?added = m - ?n" by (intro unat_of_length) (simp add: kBinaryMarketMaximumSources_def)
    have u2: "unat (2 * kSourceStorageBytes) = 1984" by (simp add: unat_word_ariths unat_constants)
    define b where "b = ?added * kSourceReservationBytes"
    define g where "g = ?added * (2 * kSourceStorageBytes)"
    have ub: "unat b = (m - ?n) * 2976" "unat g = (m - ?n) * 1984"
      using u u2 small by (simp_all add: b_def g_def unat_word_ariths unat_constants kBinaryMarketMaximumSources_def)
    have p: "addProduct 0 ?added kSourceReservationBytes = Some b" "addProduct 0 ?added (2 * kSourceStorageBytes) = Some g"
      using u u2 small by (simp_all add: addProduct_eq b_def g_def unat_constants kBinaryMarketMaximumSources_def)
    have q: "wsteps cx cz (w, 0, 0, False) (w\<lparr>w_quotaReached := True\<rparr>, 0, 0, False)" by (rule wsteps_step [OF quota])
    show ?thesis
    proof (cases "addWithin (w_cutReservedBytes w) g 0xffffffffffffffff \<and> addWithin (w_projectedBytes w) b (w_writeLimitBytes w)")
      case True
      have "g \<le> b" using ub by (simp add: word_le_nat_alt)
      let ?v = "w\<lparr>w_projectedBytes := w_projectedBytes w + b, w_cutReservedBytes := w_cutReservedBytes w + g\<rparr>"
      have 1: "wsteps cx cz (w, 0, 0, False) (?v, (m - ?n) * 992, (m - ?n) * 1984, False)"
        using wsteps_step [OF reserve [where k = 0 and c = 0 and p = False, OF _ _ \<open>g \<le> b\<close>]] True ub
        by (simp flip: diff_mult_distrib2)
      have 2: "wsteps cx cz (?v, (m - ?n) * 992, (m - ?n) * 1984, False) (withSources ?new ?v, 0, 0, False)"
        using wsteps_step [OF registered [where ss = ?new and w = ?v and k = "(m - ?n) * 992" and c = "(m - ?n) * 1984"]] acc len
        by simp
      have "snd (registerActive ss w) = withSources ?new ?v"
        using Some False True p
        by (simp add: registerActive_def orReturn_def reserveBytes_def addSources_eq withSources_def Let_def)
      then show ?thesis using wsteps_trans [OF 1 2] by simp
    next
      case noquota: False
      then show ?thesis using q Some False p by (auto simp: registerActive_def Let_def)
    qed
  qed (simp add: registerActive_def)
qed

lemma setReferenceActive_steps: "wsteps cx cz (w, 0, 0, False) (snd (setReferenceActive bs w), 0, 0, False)"
proof -
  let ?n = "word_of_nat (length bs) :: u64"
  let ?growth = "if w_referenceReservedBytes w < ?n then ?n - w_referenceReservedBytes w else 0"
  have q: "wsteps cx cz (w, 0, 0, False) (w\<lparr>w_quotaReached := True\<rparr>, 0, 0, False)" by (rule wsteps_step [OF quota])
  show ?thesis
  proof (cases "unat (cf_maximumReferenceBytes (w_config w)) < length bs \<or> kCorpusMaximumReferenceBytes < length bs")
    case False
    then have un: "unat ?n = length bs" by (intro unat_of_length) (simp add: kCorpusMaximumReferenceBytes_def)
    have ug: "unat ?growth = length bs - unat (w_referenceReservedBytes w)"
      using un by (simp add: word_less_nat_alt unat_sub word_le_nat_alt)
    define b where "b = ?growth * 2"
    have small: "length bs - unat (w_referenceReservedBytes w) \<le> 134217728"
      using False unfolding kCorpusMaximumReferenceBytes_def by linarith
    have ub: "unat b = 2 * (length bs - unat (w_referenceReservedBytes w))" and p: "addProduct 0 ?growth 2 = Some b"
      using ug small unfolding b_def
      by (simp_all add: addProduct_eq unat_word_ariths kCorpusMaximumReferenceBytes_def del: if_distrib)
    show ?thesis
    proof (cases "addWithin (w_cutReservedBytes w) b 0xffffffffffffffff \<and> addWithin (w_projectedBytes w) b (w_writeLimitBytes w)")
      case True
      let ?v = "w\<lparr>w_projectedBytes := w_projectedBytes w + b, w_cutReservedBytes := w_cutReservedBytes w + b\<rparr>"
      have 1: "wsteps cx cz (w, 0, 0, False) (?v, 0, unat b, False)"
        using wsteps_step [OF reserve [where k = 0 and c = 0 and p = False, OF _ _ order_refl]] True by simp
      have 2: "wsteps cx cz (?v, 0, unat b, False) (withReference bs ?v, 0, 0, False)"
        using wsteps_step [OF reference [where bs = bs and w = ?v and k = 0 and c = "unat b"]] False ub by simp
      have "snd (setReferenceActive bs w) = withReference bs ?v"
        using False True p by (simp add: setReferenceActive_def Let_def orReturn_def reserveBytes_def withReference_def)
      then show ?thesis using wsteps_trans [OF 1 2] by simp
    next
      case noquota: False
      then show ?thesis using q False p by (auto simp: setReferenceActive_def Let_def)
    qed
  qed (simp add: setReferenceActive_def)
qed

section \<open>Publication and finalization\<close>

lemma bindReference_disk [simp]:
  "bindReference (nextCut now (w\<lparr>w_disk := d\<rparr>)) (w\<lparr>w_disk := d\<rparr>) = bindReference (nextCut now w) w"
proof -
  have "nextCut now (w\<lparr>w_disk := d\<rparr>) = nextCut now w" by (simp add: nextCut_def)
  then show ?thesis by (cases "cf_referenceVisibilityBinder (w_config w)") (simp_all add: bindReference_def split: prod.split)
qed

lemma publishActive_steps: "wsteps cx cz (w, 0, 0, False) (snd (publishActive cz now w), 0, 0, False)"
proof (cases "w_cutGeneration w = 0xffffffffffffffff")
  case True
  then show ?thesis by (simp add: publishActive_def)
next
  case more: False
  obtain ok1 w1 where 1: "commitSegments cz [0..<length (w_segments w)] w = (ok1, w1)" by fastforce
  have f1: "flushes cx cz w w1" by (rule commitSegments_result(1) [OF 1]) simp
  have s1: "wsteps cx cz (w, 0, 0, False) (w1, 0, 0, False)" using f1 by (simp add: flushes_def)
  have gen: "w_cutGeneration w1 \<noteq> 0xffffffffffffffff" using f1 flushed_same(12) [of w w1] more by (simp add: flushes_def)
  obtain ok2 w2 where 2: "onDisk io w1 = (ok2, w2)" by fastforce
  obtain d2 where w2: "w2 = w1\<lparr>w_disk := d2\<rparr>" by (rule onDisk_result [OF 2])
  have s2: "wsteps cx cz (w, 0, 0, False) (w1\<lparr>w_disk := d\<rparr>, 0, 0, False)" for d by (rule wsteps_then [OF s1 disk])
  show ?thesis
  proof (cases "bindReference (nextCut now w1) w1")
    case (Inl st)
    then show ?thesis using more 1 s1 by (auto simp: publishActive_def orReturn_def split: option.split)
  next
    case (Inr x)
    obtain ok3 w3 where 3: "writeCorpusCut (cf_root (w_config w2)) x w2 = (ok3, w3)" by fastforce
    obtain d3 where w3: "w3 = w1\<lparr>w_disk := d3\<rparr>" using w2 onDisk_result [OF 3 [unfolded writeCorpusCut_def]] by auto
    have "wstep cx cz (w3, 0, 0, False) (publishCommitted x w3, 0, 0, False)"
      by (rule published) (use gen Inr w3 in simp_all)
    then have s4: "wsteps cx cz (w, 0, 0, False) (publishCommitted x w3, 0, 0, False)"
      using s2 [of d3] wsteps_then w3 by blast
    have "snd (publishActive cz now w) \<in> {w1, w2, w3, publishCommitted x w3}"
      using more 1 2 3 Inr by (auto simp: publishActive_def orReturn_def split: option.split)
    then show ?thesis using s1 s2 s4 w2 w3 by auto
  qed
qed

lemma sealAll_steps:
  assumes "sealAll cz ns w = (ok, w')" and "\<forall>n \<in> set ns. n < length (w_segments w)"
  shows "wsteps cx cz (w, k, c, p) (w', k, c, p)"
  using assms
proof (induction ns arbitrary: w)
  case (Cons n ns)
  obtain ok1 w1 where 1: "sealSegment cz n w = (ok1, w1)" by fastforce
  have m: "moves cx cz n w w1" using sealSegment_result(1) [OF 1] Cons.prems(2) by simp
  then have "length (w_segments w1) = length (w_segments w)" by (simp add: moves_def carried_def)
  then have "wsteps cx cz (w1, k, c, p) (w', k, c, p)"
    using Cons.IH [of w1] Cons.prems 1 by (cases ok1) (simp_all add: andThen_def)
  then show ?case using m wsteps_trans unfolding moves_def by blast
qed simp

lemma writeTableAtomic_result:
  assumes "writeTableAtomic target magic n g rows w = (result, w')"
  obtains d where "w' = w\<lparr>w_disk := d\<rparr>"
proof (cases "0xffffffff < length rows")
  case True
  then show ?thesis using assms that [of "w_disk w"] by (simp add: writeTableAtomic_def)
next
  case False
  then show ?thesis using assms that by (auto simp: writeTableAtomic_def onDisk_def Let_def split: prod.splits)
qed

lemma writeTables_result:
  assumes "writeTables w = (result, w')"
  obtains d where "w' = w\<lparr>w_disk := d\<rparr>"
proof -
  let ?root = "cf_root (w_config w)"
  obtain a w1 where 1: "writeTableAtomic (?root @ ''/sources.bin'') kBinaryMarketSourcesMagic sizeof_BinaryMarketSource
      source_image (w_sources w) w = (a, w1)" by fastforce
  obtain d1 where w1: "w1 = w\<lparr>w_disk := d1\<rparr>" by (rule writeTableAtomic_result [OF 1])
  obtain b w2 where 2: "writeTableAtomic (?root @ ''/index.bin'') kBinaryMarketIndexMagic sizeof_IndexEntry
      indexEntry_image (w_index w1) w1 = (b, w2)" by fastforce
  obtain d2 where w2: "w2 = w1\<lparr>w_disk := d2\<rparr>" by (rule writeTableAtomic_result [OF 2])
  obtain e w3 where 3: "writeTableAtomic (?root @ ''/gaps.bin'') kBinaryMarketGapsMagic sizeof_Gap
      gap_image (w_gaps w2) w2 = (e, w3)" by fastforce
  obtain d3 where w3: "w3 = w2\<lparr>w_disk := d3\<rparr>" by (rule writeTableAtomic_result [OF 3])
  have "w' \<in> {w1, w2, w3}" using assms 1 2 3 by (auto simp: writeTables_def Let_def split: option.splits)
  then show ?thesis using that w1 w2 w3 by auto
qed

lemma finalizeActive_steps: "wsteps cx cz (w, 0, 0, False) (snd (finalizeActive cz reason ns now w), 0, 0, False)"
proof (cases "sint ns \<le> 0 \<or> reason < stopRequested \<or> stopError < reason \<or> list_ex active (w_depthTransactions w)")
  case True
  then show ?thesis by (auto simp: finalizeActive_def)
next
  case args: False
  obtain ok1 w1 where 1: "sealAll cz [0..<length (w_segments w)] w = (ok1, w1)" by fastforce
  have s1: "wsteps cx cz (w, 0, 0, False) (w1, 0, 0, False)" by (rule sealAll_steps [OF 1]) simp
  obtain crcs w2 where 2: "writeTables w1 = (crcs, w2)" by fastforce
  obtain d2 where w2: "w2 = w1\<lparr>w_disk := d2\<rparr>" by (rule writeTables_result [OF 2])
  have s2: "wsteps cx cz (w, 0, 0, False) (w2, 0, 0, False)" using wsteps_then [OF s1 disk] w2 by simp
  show ?thesis
  proof (cases "ok1 \<and> crcs \<noteq> None")
    case False
    then consider "\<not> ok1" | "ok1" "crcs = None" by blast
    then show ?thesis using args 1 2 s1 s2 by cases (simp_all add: finalizeActive_def orReturn_def)
  next
    case True
    then obtain sums where crcs: "crcs = Some sums" by auto
    let ?v = "w2\<lparr>w_manifest := finalManifest reason ns sums w2\<rparr>"
    obtain st w3 where 3: "publishActive cz now ?v = (st, w3)" by fastforce
    have s3: "wsteps cx cz (w, 0, 0, False) (w3, 0, 0, False)"
      using wsteps_trans [OF wsteps_then [OF s2 final [where reason = reason and ns = ns and crcs = sums]]
        publishActive_steps [where now = now]] 3 args by auto
    let ?w4 = "w3\<lparr>w_manifest := (w_manifest w3)\<lparr>mf_projectedBytes := w_projectedBytes w3\<rparr>\<rparr>"
    have s4: "wsteps cx cz (w, 0, 0, False) (?w4, 0, 0, False)" by (rule wsteps_then [OF s3 counted])
    obtain ok5 w5 where 5: "onDisk (writeManifestAtomic (cf_root (w_config w3) @ ''/manifest.bin'') (w_manifest ?w4)) ?w4 =
        (ok5, w5)" by fastforce
    obtain d5 where w5: "w5 = ?w4\<lparr>w_disk := d5\<rparr>" by (rule onDisk_result [OF 5])
    have s5: "wsteps cx cz (w, 0, 0, False) (?w4\<lparr>w_disk := d\<rparr>, 0, 0, False)" for d by (rule wsteps_then [OF s4 disk])
    have s6: "wsteps cx cz (w, 0, 0, False) (?w4\<lparr>w_disk := d, w_active := False\<rparr>, 0, 0, False)" for d
      by (rule wsteps_then [OF s5 stopped])
    have "snd (finalizeActive cz reason ns now w) = (if \<not> isOk st then w3 else if ok5
        then w5\<lparr>w_disk := removeFile (cf_root (w_config w3) @ ''/manifest.pending'') (w_disk w5), w_active := False\<rparr> else w5)"
      using args 1 2 3 5 True crcs by (simp add: finalizeActive_def orReturn_def Let_def)
    then show ?thesis using s3 s5 [of d5] s6 w5 by simp
  qed
qed

section \<open>Runs of the writer\<close>

text \<open>A session is a start followed by calls; every call, accepted or not, is a sequence of
  elementary steps that begins and ends with no reserved bytes left to spend.\<close>

datatype WriterCall = RegisterSources "BinaryMarketSource list" | AppendRecord BinaryMarketRecord | BeginFinalDrain
  | AppendGap BinaryMarketGap | UpdateProgress CorpusProducerProgress | SetReferencePayload bytes
  | PublishCut u64 | Finalize u8 i64 u64

fun call_wf :: "WriterCall \<Rightarrow> bool" where
  "call_wf (RegisterSources ss) = list_all source_wf ss"
| "call_wf (AppendRecord r) = record_wf r"
| "call_wf (UpdateProgress p) = progress_wf p"
| "call_wf _ = True"

fun writerCall :: "cxet \<Rightarrow> compressor \<Rightarrow> WriterCall \<Rightarrow> WriterState option \<Rightarrow> status \<times> WriterState option" where
  "writerCall cx cz (RegisterSources ss) s = registerSources ss s"
| "writerCall cx cz (AppendRecord r) s = writer_append cx cz r s"
| "writerCall cx cz BeginFinalDrain s = beginFinalDrain s"
| "writerCall cx cz (AppendGap g) s = appendGap g s"
| "writerCall cx cz (UpdateProgress p) s = updateProgress p s"
| "writerCall cx cz (SetReferencePayload bs) s = setReferencePayload bs s"
| "writerCall cx cz (PublishCut now) s = publishCut cz now s"
| "writerCall cx cz (Finalize reason ns now) s = finalize cz reason ns now s"

fun writerRun :: "cxet \<Rightarrow> compressor \<Rightarrow> WriterCall list \<Rightarrow> WriterState option \<Rightarrow> WriterState option" where
  "writerRun cx cz [] s = s"
| "writerRun cx cz (a # as) s = writerRun cx cz as (snd (writerCall cx cz a s))"

lemma whenActive_steps:
  assumes "\<And>w. wsteps cx cz (w, 0, 0, False) (snd (f w), 0, 0, False)" and "whenActive f (Some w) = (st, s')"
  shows "\<exists>w'. s' = Some w' \<and> wsteps cx cz (w, 0, 0, False) (w', 0, 0, False)"
  using assms(2) assms(1) [of w] by (auto simp: whenActive_def split: if_splits prod.splits)

lemma drain_steps: "wsteps cx cz (w, 0, 0, False) (w\<lparr>w_writeLimitBytes := cf_maximumBytes (w_config w)\<rparr>, 0, 0, False)"
  by (rule wsteps_step [OF drain])

lemma appendGapActive_steps: "wsteps cx cz (w, 0, 0, False) (snd (appendGapActive g w), 0, 0, False)"
  by (cases "appendGapActive g w") (auto intro: wsteps_step gap)

lemma updateProgressActive_steps:
  "progress_wf p \<Longrightarrow> wsteps cx cz (w, 0, 0, False) (snd (updateProgressActive p w), 0, 0, False)"
  by (cases "updateProgressActive p w") (auto intro: wsteps_step progress)

lemma writerCall_steps:
  assumes "call_wf a"
  shows "\<exists>w'. snd (writerCall cx cz a (Some w)) = Some w' \<and> wsteps cx cz (w, 0, 0, False) (w', 0, 0, False)"
proof -
  obtain st s' where r: "writerCall cx cz a (Some w) = (st, s')" by fastforce
  have "\<exists>w'. s' = Some w' \<and> wsteps cx cz (w, 0, 0, False) (w', 0, 0, False)"
  proof (cases a)
    case (RegisterSources ss)
    then show ?thesis using whenActive_steps [OF registerActive_steps] assms r by (simp add: registerSources_def)
  next
    case (AppendRecord q)
    then show ?thesis using whenActive_steps [OF appendActive_steps] assms r by (simp add: writer_append_def)
  next
    case BeginFinalDrain
    then show ?thesis using whenActive_steps [where f = "\<lambda>w. (Ok, w\<lparr>w_writeLimitBytes := cf_maximumBytes (w_config w)\<rparr>)"]
      drain_steps r by (simp add: beginFinalDrain_def)
  next
    case (AppendGap g)
    then show ?thesis using whenActive_steps [OF appendGapActive_steps] r by (simp add: appendGap_def)
  next
    case (UpdateProgress p)
    then show ?thesis using whenActive_steps [OF updateProgressActive_steps] assms r by (simp add: updateProgress_def)
  next
    case (SetReferencePayload bs)
    then show ?thesis using whenActive_steps [OF setReferenceActive_steps] r by (simp add: setReferencePayload_def)
  next
    case (PublishCut now)
    then show ?thesis using whenActive_steps [OF publishActive_steps] r by (simp add: publishCut_def)
  next
    case (Finalize reason ns now)
    then show ?thesis using whenActive_steps [OF finalizeActive_steps] r by (simp add: finalize_def)
  qed
  then show ?thesis using r by simp
qed

theorem writerRun_steps:
  assumes "list_all call_wf as"
  shows "\<exists>w'. writerRun cx cz as (Some w) = Some w' \<and> wsteps cx cz (w, 0, 0, False) (w', 0, 0, False)"
  using assms
proof (induction as arbitrary: w)
  case (Cons a as)
  obtain w1 where "snd (writerCall cx cz a (Some w)) = Some w1" "wsteps cx cz (w, 0, 0, False) (w1, 0, 0, False)"
    using writerCall_steps Cons.prems by fastforce
  then show ?case using Cons.IH [of w1] Cons.prems wsteps_trans by fastforce
qed simp

end
