(* ===== verification/WriterInv.thy ===== *)
theory WriterInv
  imports WriterCalls
begin

text \<open>
  What holds in every state of the writer, whatever calls were made and whatever system calls failed.
  Each group of facts is an invariant of the elementary steps. Of the compressor it is assumed that its
  bounds fit 32 bits, the width of the size members of a block header, and that it respects them.
\<close>

definition compressor_contract :: "compressor \<Rightarrow> bool" where
  "compressor_contract cz \<longleftrightarrow>
     (\<forall>layout n. n \<le> kBinaryMarketBlockRecords \<longrightarrow> cz_bound cz layout n < 2 ^ 32) \<and>
     (\<forall>layout raw capacity encoded. cz_encode cz layout raw capacity = Some encoded \<longrightarrow>
        length encoded \<le> cz_bound cz layout (length raw div bl_recordBytes layout))"

section \<open>Segments\<close>

definition shard_ok :: "cxet \<Rightarrow> nat \<Rightarrow> SegmentState \<Rightarrow> bool" where
  "shard_ok cx n g \<longleftrightarrow> length (sg_pending g) \<le> kBinaryMarketBlockRecords \<and> (\<not> sg_open g \<longrightarrow> sg_pending g = []) \<and>
     (\<forall>r \<in> set (sg_pending g). validBinaryMarketRecord cx r \<and> record_wf r \<and> unat (rh_shardIndex (header r)) = n \<and>
        rh_channel (header r) = rh_channel (header (hd (sg_pending g))) \<and>
        rh_shardSequence (header r) \<le> sg_previousShardSequence g \<and>
        rh_receiveMonotonicNs (header r) \<le> sg_previousMonotonicNs g) \<and>
     sorted_wrt (\<lambda>a b. rh_shardSequence (header a) < rh_shardSequence (header b) \<and>
        rh_receiveMonotonicNs (header a) \<le> rh_receiveMonotonicNs (header b)) (sg_pending g)"

definition open_ok :: "compressor \<Rightarrow> nat \<Rightarrow> SegmentState \<Rightarrow> bool" where
  "open_ok cz n g \<longleftrightarrow> (sg_open g \<longrightarrow>
     sg_encodedCapacity g = cz_bound cz (binaryMarketBlockLayout chDepth) kBinaryMarketBlockRecords \<and>
     sh_segmentNumber (sg_header g) \<noteq> 0 \<and> unat (sh_shardIndex (sg_header g)) = n)"

definition segments_inv :: "cxet \<Rightarrow> compressor \<Rightarrow> WriterState \<Rightarrow> bool" where
  "segments_inv cx cz w \<longleftrightarrow> length (w_segments w) = unat (cf_shardCount (w_config w)) \<and>
     w_nextSegmentNumber w \<noteq> 0 \<and>
     (\<forall>n < length (w_segments w). shard_ok cx n (w_segments w ! n) \<and> open_ok cz n (w_segments w ! n))"

lemma segments_inv_nth:
  "segments_inv cx cz w \<Longrightarrow> n < length (w_segments w) \<Longrightarrow> shard_ok cx n (w_segments w ! n) \<and> open_ok cz n (w_segments w ! n)"
  by (simp add: segments_inv_def)

lemma segments_inv_set:
  "segments_inv cx cz w \<Longrightarrow> shard_ok cx n g \<Longrightarrow> open_ok cz n g \<Longrightarrow> segments_inv cx cz (setSegment n g w)"
  unfolding segments_inv_def setSegment_def by (simp add: nth_list_update split: if_split) (metis nth_list_update_eq nth_list_update_neq)

lemma segments_inv_frame:
  "segments_inv cx cz w \<Longrightarrow> w_segments w' = w_segments w \<Longrightarrow> w_config w' = w_config w \<Longrightarrow>
     w_nextSegmentNumber w' \<noteq> 0 \<Longrightarrow> segments_inv cx cz w'"
  by (simp add: segments_inv_def)

lemma shard_ok_closed: "sg_pending g = [] \<Longrightarrow> shard_ok cx n g"
  by (simp add: shard_ok_def)

lemma unat_next32: "n \<noteq> 0xffffffff \<Longrightarrow> unat ((n :: u32) + 1) = unat n + 1"
proof -
  assume "n \<noteq> 0xffffffff"
  then have "unat n \<noteq> 0xffffffff" by (simp add: word_unat_eq_iff)
  then have "unat n + 1 < 2 ^ 32" using unsigned_less [of n, where 'a = nat] by simp
  then show ?thesis by (simp add: unat_word_ariths)
qed

lemma plus_one_nonzero: "n \<noteq> 0xffffffff \<Longrightarrow> (n :: u32) + 1 \<noteq> 0"
  using unat_next32 [of n] by auto

lemma indexFor_SomeD:
  assumes "indexFor r w = (Some position, w1)"
  obtains f ix where "w1 = setSegment (unat (rh_shardIndex (header r)))
      ((w_segments w ! unat (rh_shardIndex (header r)))\<lparr>sg_indexPositions := f\<rparr>) (w\<lparr>w_index := ix\<rparr>)"
    and "ix = w_index w \<and> indexCost r w = 0 \<or> length ix = Suc (length (w_index w)) \<and> indexCost r w = 72"
proof (cases "sg_indexPositions (w_segments w ! unat (rh_shardIndex (header r))) (recordKey r)")
  case None
  then show ?thesis using assms
    by (intro that) (auto simp: indexFor_def ensureIndex_def recordKey_def indexCost_def Let_def split: if_splits)
next
  case (Some q)
  have "w1 = w" using assms Some by (simp add: indexFor_def ensureIndex_def recordKey_def Let_def)
  then show ?thesis using Some
    by (intro that [of "sg_indexPositions (w_segments w ! unat (rh_shardIndex (header r)))" "w_index w"])
      (simp_all add: setSegment_def indexCost_def)
qed

lemma if_not_False: "(if b then False else x) \<Longrightarrow> x"
  by (simp split: if_split_asm)

lemma valid_recordD:
  assumes "validBinaryMarketRecord cx r"
  shows "rh_shardSequence (header r) \<noteq> 0" and "rh_receiveMonotonicNs (header r) \<noteq> 0"
    and "0 < sint (rh_receiveRealtimeNs (header r))" and "validBinaryMarketRecordChannel (rh_channel (header r))"
    and "rh_sourceId (header r) \<noteq> 0"
  using assms unfolding validBinaryMarketRecord_def Let_def by (blast dest: if_not_False)+

lemma ready_valid:
  assumes "ready cx r w"
  shows "validBinaryMarketRecord cx r" and "record_wf r" and "unat (rh_shardIndex (header r)) < length (w_segments w)"
  using assms by (simp_all add: ready_def Let_def)

lemma shard_ok_stored:
  assumes ok: "shard_ok cx n g" and r: "ready cx r w" and g: "g = w_segments w ! n" and o: "sg_open g"
    and n: "n = unat (rh_shardIndex (header r))"
  shows "shard_ok cx n (countSegment cz r (g\<lparr>sg_indexPositions := f\<rparr>))"
proof -
  have ord: "a \<in> set (sg_pending g) \<Longrightarrow> rh_shardSequence (header a) < rh_shardSequence (header r) \<and>
      rh_receiveMonotonicNs (header a) \<le> rh_receiveMonotonicNs (header r)" for a
  proof -
    assume a: "a \<in> set (sg_pending g)"
    have le: "rh_shardSequence (header a) \<le> sg_previousShardSequence g"
        "rh_receiveMonotonicNs (header a) \<le> sg_previousMonotonicNs g" and v: "validBinaryMarketRecord cx a"
      using ok a by (auto simp: shard_ok_def)
    have nz: "rh_shardSequence (header a) \<noteq> 0" "rh_receiveMonotonicNs (header a) \<noteq> 0"
      using valid_recordD [OF v] by simp_all
    have "sg_previousShardSequence g \<noteq> 0" "sg_previousMonotonicNs g \<noteq> 0" using le nz by auto
    moreover have "\<not> outOfOrder r g" using r g n by (simp add: ready_def Let_def)
    ultimately have "sg_previousShardSequence g < rh_shardSequence (header r)"
      "sg_previousMonotonicNs g \<le> rh_receiveMonotonicNs (header r)" by (simp_all add: outOfOrder_def not_le not_less)
    then show ?thesis using le by (blast intro: le_less_trans order_trans)
  qed
  have hd: "sg_pending g \<noteq> [] \<Longrightarrow> rh_channel (header (hd (sg_pending g))) = rh_channel (header r) \<and>
      length (sg_pending g) \<noteq> kBinaryMarketBlockRecords"
    using r o g n by (simp add: ready_def Let_def)
  have len: "length (sg_pending g) < kBinaryMarketBlockRecords"
    using ok hd by (cases "sg_pending g = []") (simp_all add: shard_ok_def kBinaryMarketBlockRecords_def)
  let ?new = "sg_pending g @ [r]"
  have "\<forall>a \<in> set ?new. validBinaryMarketRecord cx a \<and> record_wf a \<and> unat (rh_shardIndex (header a)) = n \<and>
      rh_channel (header a) = rh_channel (header (hd ?new)) \<and> rh_shardSequence (header a) \<le> rh_shardSequence (header r) \<and>
      rh_receiveMonotonicNs (header a) \<le> rh_receiveMonotonicNs (header r)"
  proof (cases "sg_pending g = []")
    case True
    then show ?thesis using ready_valid [OF r] n by simp
  next
    case False
    then have h: "hd ?new = hd (sg_pending g)" by simp
    show ?thesis unfolding h
    proof
      fix a assume "a \<in> set ?new"
      then consider "a = r" | "a \<in> set (sg_pending g)" by auto
      then show "validBinaryMarketRecord cx a \<and> record_wf a \<and> unat (rh_shardIndex (header a)) = n \<and>
          rh_channel (header a) = rh_channel (header (hd (sg_pending g))) \<and>
          rh_shardSequence (header a) \<le> rh_shardSequence (header r) \<and>
          rh_receiveMonotonicNs (header a) \<le> rh_receiveMonotonicNs (header r)"
      proof cases
        case 1
        then show ?thesis using hd [OF False] ready_valid [OF r] n by simp
      next
        case 2
        then show ?thesis using ok ord [of a] order.strict_implies_order unfolding shard_ok_def by blast
      qed
    qed
  qed
  then show ?thesis using ok o ord len unfolding shard_ok_def countSegment_def Let_def by (simp add: sorted_wrt_append)
qed

theorem segments_inv_step:
  assumes "wstep cx cz x y" and "segments_inv cx cz (fst x)"
  shows "segments_inv cx cz (fst y)"
  using assms
proof (induction rule: wstep.induct)
  case (stream n w)
  then show ?case using segments_inv_nth [of cx cz w n]
    by (auto intro!: segments_inv_set simp: shard_ok_def open_ok_def)
next
  case (block n w encoded)
  then show ?case using segments_inv_nth [of cx cz w n]
    by (auto simp: storeBlock_def Let_def intro!: segments_inv_set shard_ok_closed segments_inv_frame [of cx cz w]) (auto simp: open_ok_def segments_inv_def)
next
  case (reset n w)
  then show ?case by (auto intro!: segments_inv_set shard_ok_closed simp: open_ok_def)
next
  case (number i w k c p)
  then show ?case
    by (auto intro!: segments_inv_set shard_ok_closed segments_inv_frame [of cx cz w] simp: open_ok_def plus_one_nonzero)
next
  case (opened i w k c)
  then show ?case
    by (auto intro!: segments_inv_set shard_ok_closed segments_inv_frame [of cx cz w] simp: open_ok_def plus_one_nonzero)
      (auto simp: segments_inv_def openHeader_def)
next
  case (sealing n w)
  then show ?case using segments_inv_nth [of cx cz w n]
    by (auto intro!: segments_inv_set simp: shard_ok_def open_ok_def sealHeader_def)
next
  case (closed n w)
  then show ?case
    by (auto intro!: segments_inv_set shard_ok_closed segments_inv_frame [of cx cz w] simp: open_ok_def) (simp add: segments_inv_def)
next
  case (stored r w position w1 k c p ad)
  let ?n = "unat (rh_shardIndex (header r))" and ?g = "w_segments w ! unat (rh_shardIndex (header r))"
  have n: "?n < length (w_segments w)" by (rule ready_valid(3) [OF stored.hyps(1)])
  obtain f ix where w1: "w1 = setSegment ?n (?g\<lparr>sg_indexPositions := f\<rparr>) (w\<lparr>w_index := ix\<rparr>)"
    by (rule indexFor_SomeD [OF stored.hyps(4)])
  have ok: "shard_ok cx ?n ?g" "open_ok cz ?n ?g" using segments_inv_nth n stored.prems by auto
  have "shard_ok cx ?n (countSegment cz r (?g\<lparr>sg_indexPositions := f\<rparr>))"
    by (rule shard_ok_stored [OF ok(1) stored.hyps(1) refl stored.hyps(2) refl])
  moreover have "open_ok cz ?n (countSegment cz r (?g\<lparr>sg_indexPositions := f\<rparr>))"
    using ok(2) by (simp add: open_ok_def countSegment_def Let_def)
  ultimately show ?case using stored.prems n w1 segments_inv_set
    by (simp add: storeRecord_def Let_def) (simp add: segments_inv_def setSegment_def)
next
  case (gap g w st w')
  then show ?case by (auto simp: appendGapActive_def segments_inv_def split: if_splits option.splits)
next
  case (progress q w st w')
  then show ?case by (auto simp: updateProgressActive_def segments_inv_def split: if_splits)
qed (auto simp: segments_inv_def recordSource_def withSources_def withReference_def publishCommitted_def)

section \<open>Bytes\<close>

text \<open>The bytes the files of the corpus take: fixed metadata, sources with a gap cell per channel, index
  entries, headers and footers of the segments opened, blocks stored, and for every record not yet in a
  block the worst its block can take.\<close>

definition pendingRecords :: "WriterState \<Rightarrow> nat" where
  "pendingRecords w = (\<Sum>g \<leftarrow> w_segments w. length (sg_pending g))"

definition blockBytes :: "CorpusBlockRange list \<Rightarrow> nat" where
  "blockBytes rs = (\<Sum>r \<leftarrow> rs. sizeof_BlockHeader + unat (bk_encodedBytes (cr_header r)))"

definition spent :: "compressor \<Rightarrow> WriterState \<Rightarrow> nat" where
  "spent cz w = 4672 + 992 * length (w_sources w) + 72 * length (w_index w) + 192 * (unat (w_nextSegmentNumber w) - 1) +
     blockBytes (w_blocks w) + prb cz * pendingRecords w"

definition cutNeed :: "WriterState \<Rightarrow> nat" where
  "cutNeed w = 2 * (4096 + 992 * length (w_sources w) + 96 * (blockRecords (w_blocks w) + pendingRecords w) +
     unat (w_referenceReservedBytes w))"

definition bytes_inv :: "compressor \<Rightarrow> ledger \<Rightarrow> bool" where
  "bytes_inv cz x = (case x of (w, k, c, p) \<Rightarrow>
     spent cz w + unat (w_cutReservedBytes w) + k \<le> unat (w_projectedBytes w) \<and>
     cutNeed w + c \<le> unat (w_cutReservedBytes w) \<and>
     w_projectedBytes w \<le> w_writeLimitBytes w \<and> w_writeLimitBytes w \<le> cf_maximumBytes (w_config w))"

lemma sum_update:
  "n < length xs \<Longrightarrow> (\<Sum>x \<leftarrow> xs[n := g]. f x) + f (xs ! n) = (\<Sum>x \<leftarrow> xs. f x) + (f g :: nat)"
  by (induction xs arbitrary: n) (auto simp: nth_Cons split: nat.splits)

lemma pendingRecords_set:
  "n < length (w_segments w) \<Longrightarrow>
     pendingRecords (setSegment n g w) + length (sg_pending (w_segments w ! n)) = pendingRecords w + length (sg_pending g)"
  using sum_update [of n "w_segments w" "\<lambda>g. length (sg_pending g)" g] by (simp add: pendingRecords_def setSegment_def)

lemma pendingRecords_same:
  "n < length (w_segments w) \<Longrightarrow> length (sg_pending g) = length (sg_pending (w_segments w ! n)) \<Longrightarrow>
     pendingRecords (setSegment n g w) = pendingRecords w"
  using pendingRecords_set [of n w g] by simp

lemma pendingRecords_frame [simp]:
  "pendingRecords (w\<lparr>w_manifest := m\<rparr>) = pendingRecords w"
  "pendingRecords (w\<lparr>w_nextSegmentNumber := q\<rparr>) = pendingRecords w"
  by (simp_all add: pendingRecords_def)

lemma block_simps [simp]:
  "blockBytes (rs @ [blockRange g encoded]) = blockBytes rs + sizeof_BlockHeader + unat (word_of_nat (length encoded) :: u32)"
  "blockRecords (rs @ [blockRange g encoded]) = blockRecords rs + unat (word_of_nat (length (sg_pending g)) :: u32)"
  by (simp_all add: blockBytes_def blockRecords_def blockRange_def blockHeaderFor_def Let_def)

lemma accepted_block:
  assumes "compressor_contract cz" and "segments_inv cx cz w" and "n < length (w_segments w)"
    and "blockAccepted cz (w_segments w ! n) encoded"
  shows "length encoded < 2 ^ 32" and "0 < length (sg_pending (w_segments w ! n))"
    and "length (sg_pending (w_segments w ! n)) \<le> kBinaryMarketBlockRecords"
    and "unat (word_of_nat (length (sg_pending (w_segments w ! n))) * binaryMarketPendingRecordBytes cz) =
       length (sg_pending (w_segments w ! n)) * prb cz"
    and "sizeof_BlockHeader + length encoded \<le> length (sg_pending (w_segments w ! n)) * prb cz"
proof -
  let ?g = "w_segments w ! n"
  let ?P = "length (sg_pending ?g)"
  have ok: "shard_ok cx n ?g" "open_ok cz n ?g" using segments_inv_nth assms(2,3) by auto
  show p: "0 < ?P" "?P \<le> kBinaryMarketBlockRecords" using ok(1) assms(4) by (simp_all add: shard_ok_def blockAccepted_def)
  have "sg_encodedCapacity ?g < 2 ^ 32" using ok(2) assms(1,4) by (simp add: open_ok_def blockAccepted_def compressor_contract_def)
  then show e: "length encoded < 2 ^ 32" using assms(4) unfolding blockAccepted_def by linarith
  have "cz_bound cz (binaryMarketBlockLayout chDepth) 1 < 2 ^ 32"
    using assms(1) unfolding compressor_contract_def kBinaryMarketBlockRecords_def by simp
  then have prb: "prb cz < 2 ^ 33"
    by (simp add: prb_def binaryMarketPendingRecordBytes_def unat_word_ariths unat_of_nat sizeof_BlockHeader_def)
  have "?P * prb cz \<le> 256 * 2 ^ 33"
    by (rule mult_le_mono) (use p prb in \<open>simp_all add: kBinaryMarketBlockRecords_def\<close>)
  then show m: "unat (word_of_nat ?P * binaryMarketPendingRecordBytes cz) = ?P * prb cz"
    using p by (simp add: unat_word_ariths unat_of_nat prb_def kBinaryMarketBlockRecords_def)
  have "unat (word_of_nat (sizeof_BlockHeader + length encoded) :: u64) = sizeof_BlockHeader + length encoded"
    using e by (intro unat_of_length) (simp add: sizeof_BlockHeader_def)
  then show "sizeof_BlockHeader + length encoded \<le> ?P * prb cz"
    using assms(4) m by (simp add: blockAccepted_def word_le_nat_alt)
qed

lemma storeBlock_frame [simp]:
  "w_blocks (storeBlock cz n encoded w) = w_blocks w @ [blockRange (w_segments w ! n) encoded]"
  "w_sources (storeBlock cz n encoded w) = w_sources w" "w_index (storeBlock cz n encoded w) = w_index w"
  "w_nextSegmentNumber (storeBlock cz n encoded w) = w_nextSegmentNumber w"
  "w_cutReservedBytes (storeBlock cz n encoded w) = w_cutReservedBytes w"
  "w_referenceReservedBytes (storeBlock cz n encoded w) = w_referenceReservedBytes w"
  "w_writeLimitBytes (storeBlock cz n encoded w) = w_writeLimitBytes w"
  "w_config (storeBlock cz n encoded w) = w_config w" "w_manifest (storeBlock cz n encoded w) = w_manifest w"
  "w_gaps (storeBlock cz n encoded w) = w_gaps w" "w_sourceStates (storeBlock cz n encoded w) = w_sourceStates w"
  "w_maximumGapRecords (storeBlock cz n encoded w) = w_maximumGapRecords w"
  "w_progress (storeBlock cz n encoded w) = w_progress w"
  "w_referencePayload (storeBlock cz n encoded w) = w_referencePayload w"
  "w_replayAnchorFrozen (storeBlock cz n encoded w) = w_replayAnchorFrozen w"
  "w_cutGeneration (storeBlock cz n encoded w) = w_cutGeneration w"
  by (simp_all add: storeBlock_def Let_def)

lemma storeBlock_records:
  assumes "compressor_contract cz" and "segments_inv cx cz w" and n: "n < length (w_segments w)"
    and "blockAccepted cz (w_segments w ! n) encoded"
  shows "pendingRecords (storeBlock cz n encoded w) + length (sg_pending (w_segments w ! n)) = pendingRecords w"
    and "blockRecords (w_blocks (storeBlock cz n encoded w)) = blockRecords (w_blocks w) + length (sg_pending (w_segments w ! n))"
    and "blockBytes (w_blocks (storeBlock cz n encoded w)) = blockBytes (w_blocks w) + sizeof_BlockHeader + length encoded"
proof -
  note acc = accepted_block [OF assms]
  show "pendingRecords (storeBlock cz n encoded w) + length (sg_pending (w_segments w ! n)) = pendingRecords w"
    using pendingRecords_set [OF n] n unfolding storeBlock_def Let_def
    by (simp add: pendingRecords_def setSegment_def sum_update)
  show "blockRecords (w_blocks (storeBlock cz n encoded w)) = blockRecords (w_blocks w) + length (sg_pending (w_segments w ! n))"
    "blockBytes (w_blocks (storeBlock cz n encoded w)) = blockBytes (w_blocks w) + sizeof_BlockHeader + length encoded"
    using acc(1,3) by (simp_all add: unat_of_nat kBinaryMarketBlockRecords_def)
qed

lemma storeBlock_projected:
  assumes "compressor_contract cz" and "segments_inv cx cz w" and n: "n < length (w_segments w)"
    and "blockAccepted cz (w_segments w ! n) encoded" and inv: "bytes_inv cz (w, k, c, p)"
  shows "unat (w_projectedBytes (storeBlock cz n encoded w)) + length (sg_pending (w_segments w ! n)) * prb cz =
    unat (w_projectedBytes w) + sizeof_BlockHeader + length encoded"
proof -
  let ?w = "storeBlock cz n encoded w" and ?P = "length (sg_pending (w_segments w ! n))"
  note acc = accepted_block [OF assms(1-4)]
  define phys where "phys = (word_of_nat (sizeof_BlockHeader + length encoded) :: u64)"
  define released where "released = word_of_nat ?P * binaryMarketPendingRecordBytes cz - phys"
  have up: "unat phys = sizeof_BlockHeader + length encoded"
    using acc(1) unfolding phys_def by (intro unat_of_length) (simp add: sizeof_BlockHeader_def)
  have ur: "unat released = ?P * prb cz - (sizeof_BlockHeader + length encoded)"
    using acc(4,5) up by (simp add: released_def unat_sub word_le_nat_alt)
  have "?P \<le> pendingRecords w" using storeBlock_records(1) [OF assms(1-4)] by linarith
  then have "?P * prb cz \<le> prb cz * pendingRecords w" by (simp add: mult.commute)
  then have le: "?P * prb cz \<le> unat (w_projectedBytes w)" using inv unfolding bytes_inv_def spent_def prod.case by linarith
  then have "unat (w_projectedBytes ?w) = unat (w_projectedBytes w) - unat released"
    using ur by (simp add: storeBlock_def Let_def released_def phys_def unat_sub word_le_nat_alt)
  then show ?thesis using ur le acc(5) by linarith
qed

lemma bytes_inv_block:
  assumes "compressor_contract cz" and "segments_inv cx cz w" and n: "n < length (w_segments w)"
    and "blockAccepted cz (w_segments w ! n) encoded" and inv: "bytes_inv cz (w, k, c, p)"
  shows "bytes_inv cz (storeBlock cz n encoded w, k, c, p)"
proof -
  let ?w = "storeBlock cz n encoded w" and ?P = "length (sg_pending (w_segments w ! n))"
  note acc = accepted_block [OF assms(1-4)] and counts = storeBlock_records [OF assms(1-4)]
  have "prb cz * pendingRecords w = prb cz * pendingRecords ?w + ?P * prb cz"
    by (simp add: algebra_simps flip: counts(1))
  then have spent: "spent cz ?w + ?P * prb cz = spent cz w + sizeof_BlockHeader + length encoded"
    using counts(3) by (simp add: spent_def del: block_simps storeBlock_frame(1))
  have need: "cutNeed ?w = cutNeed w" using counts(2) by (simp add: cutNeed_def flip: counts(1) del: block_simps storeBlock_frame(1))
  show ?thesis using inv spent need acc(5) storeBlock_projected [OF assms]
    unfolding bytes_inv_def prod.case storeBlock_frame(2-) word_le_nat_alt by linarith
qed

lemma bytes_inv_frame:
  assumes "bytes_inv cz (w, k, c, p)" and "w_sources w' = w_sources w" "w_index w' = w_index w"
    "w_nextSegmentNumber w' = w_nextSegmentNumber w" "w_blocks w' = w_blocks w" "pendingRecords w' = pendingRecords w"
    "w_cutReservedBytes w' = w_cutReservedBytes w" "w_referenceReservedBytes w' = w_referenceReservedBytes w"
    "w_projectedBytes w' = w_projectedBytes w" "w_writeLimitBytes w' = w_writeLimitBytes w" "w_config w' = w_config w"
  shows "bytes_inv cz (w', k, c, q)"
  using assms by (simp add: bytes_inv_def spent_def cutNeed_def)

lemma bytes_inv_number:
  assumes "bytes_inv cz (w, k, c, p)" and "n < length (w_segments w)" and "sg_pending g = sg_pending (w_segments w ! n)"
    and "w_nextSegmentNumber w \<noteq> 0xffffffff" and "w_nextSegmentNumber w \<noteq> 0" and "192 \<le> k"
  shows "bytes_inv cz (setSegment n g (w\<lparr>w_nextSegmentNumber := w_nextSegmentNumber w + 1\<rparr>), k - 192, c, q)"
proof -
  have pend: "pendingRecords (setSegment n g (w\<lparr>w_nextSegmentNumber := w_nextSegmentNumber w + 1\<rparr>)) = pendingRecords w"
    using assms(2,3) by (simp add: pendingRecords_same)
  have "unat (w_nextSegmentNumber w) \<noteq> 0" using assms(5) by (simp add: unat_eq_0)
  then have "192 * unat (w_nextSegmentNumber w) = 192 + 192 * (unat (w_nextSegmentNumber w) - 1)" by simp
  then show ?thesis using assms(1,6) unat_next32 [OF assms(4)] pend by (simp add: bytes_inv_def spent_def cutNeed_def)
qed

lemma storeRecord_result:
  assumes r: "ready cx r w" and i: "indexFor r w = (Some position, w1)"
  obtains f ix where "w1 = setSegment (unat (rh_shardIndex (header r)))
      ((w_segments w ! unat (rh_shardIndex (header r)))\<lparr>sg_indexPositions := f\<rparr>) (w\<lparr>w_index := ix\<rparr>)"
    and "72 * length ix = 72 * length (w_index w) + indexCost r w"
    and "pendingRecords (storeRecord cz r ad position w1) = Suc (pendingRecords w)"
proof -
  let ?n = "unat (rh_shardIndex (header r))"
  have n: "?n < length (w_segments w)" by (rule ready_valid(3) [OF r])
  obtain f ix where w1: "w1 = setSegment ?n ((w_segments w ! ?n)\<lparr>sg_indexPositions := f\<rparr>) (w\<lparr>w_index := ix\<rparr>)"
    and ix: "ix = w_index w \<and> indexCost r w = 0 \<or> length ix = Suc (length (w_index w)) \<and> indexCost r w = 72"
    by (rule indexFor_SomeD [OF i])
  have "pendingRecords (storeRecord cz r ad position w1) = Suc (pendingRecords w)"
    using sum_update [OF n, of "\<lambda>g. length (sg_pending g)" "countSegment cz r ((w_segments w ! ?n)\<lparr>sg_indexPositions := f\<rparr>)"] n
    by (simp add: w1 storeRecord_def Let_def pendingRecords_def setSegment_def countSegment_def)
  then show ?thesis using that [OF w1] ix by auto
qed

lemma bytes_inv_stored:
  assumes inv: "bytes_inv cz (w, k, c, p)" and r: "ready cx r w" and i: "indexFor r w = (Some position, w1)"
    and k: "prb cz + indexCost r w \<le> k" and c: "192 \<le> c"
  shows "bytes_inv cz (storeRecord cz r ad position w1, k - (prb cz + indexCost r w), c - 192, q)"
proof -
  let ?n = "unat (rh_shardIndex (header r))" and ?w = "storeRecord cz r ad position w1"
  obtain f ix where w1: "w1 = setSegment ?n ((w_segments w ! ?n)\<lparr>sg_indexPositions := f\<rparr>) (w\<lparr>w_index := ix\<rparr>)"
    and ix: "72 * length ix = 72 * length (w_index w) + indexCost r w" and pend: "pendingRecords ?w = Suc (pendingRecords w)"
    by (rule storeRecord_result [OF r i])
  have frame: "w_sources ?w = w_sources w" "72 * length (w_index ?w) = 72 * length (w_index w) + indexCost r w"
    "w_nextSegmentNumber ?w = w_nextSegmentNumber w" "w_blocks ?w = w_blocks w"
    "w_cutReservedBytes ?w = w_cutReservedBytes w" "w_referenceReservedBytes ?w = w_referenceReservedBytes w"
    "w_projectedBytes ?w = w_projectedBytes w" "w_writeLimitBytes ?w = w_writeLimitBytes w" "w_config ?w = w_config w"
    using ix by (auto simp: w1 storeRecord_def Let_def)
  have "prb cz * pendingRecords ?w = prb cz * pendingRecords w + prb cz" using pend by simp
  then show ?thesis using inv k c pend frame by (simp add: bytes_inv_def spent_def cutNeed_def)
qed

theorem bytes_inv_step:
  assumes "wstep cx cz x y" and "compressor_contract cz" and "segments_inv cx cz (fst x)" and "bytes_inv cz x"
  shows "bytes_inv cz y"
  using assms
proof (induction rule: wstep.induct)
  case (stream n w)
  then show ?case by (elim bytes_inv_frame) (simp_all add: pendingRecords_same)
next
  case (block n w encoded)
  then show ?case by (intro bytes_inv_block) simp_all
next
  case (reserve w b g k c p)
  have "unat (w_projectedBytes w + b) = unat (w_projectedBytes w) + unat b"
    "unat (w_cutReservedBytes w + g) = unat (w_cutReservedBytes w) + unat g"
    using reserve.hyps unat_addWithin by blast+
  then show ?case using reserve
    by (simp add: bytes_inv_def spent_def cutNeed_def pendingRecords_def word_le_nat_alt addWithin_iff)
next
  case (reset n w)
  then show ?case using segments_inv_nth [of cx cz w n]
    by (elim bytes_inv_frame) (simp_all add: pendingRecords_same shard_ok_def)
next
  case (number i w k c p)
  then show ?case using segments_inv_nth [of cx cz w "unat i"]
    by (intro bytes_inv_number) (auto simp: shard_ok_def segments_inv_def)
next
  case (opened i w k c)
  then show ?case using segments_inv_nth [of cx cz w "unat i"]
    by (intro bytes_inv_number) (auto simp: shard_ok_def segments_inv_def)
next
  case (sealing n w)
  then show ?case by (elim bytes_inv_frame) (simp_all add: pendingRecords_same)
next
  case (closed n w)
  then show ?case by (elim bytes_inv_frame) (simp_all add: pendingRecords_same)
next
  case (added ad w k c p)
  then show ?case by (simp add: bytes_inv_def spent_def cutNeed_def recordSource_def pendingRecords_def)
next
  case (registered ss w k c p)
  then show ?case by (simp add: bytes_inv_def spent_def cutNeed_def withSources_def pendingRecords_def algebra_simps)
next
  case (stored r w position w1 k c p ad)
  then show ?case by (intro bytes_inv_stored) simp_all
next
  case (gap g w st w')
  then show ?case
    by (elim bytes_inv_frame) (auto simp: appendGapActive_def pendingRecords_def split: if_splits option.splits)
next
  case (progress q w st w')
  then show ?case by (elim bytes_inv_frame) (auto simp: updateProgressActive_def pendingRecords_def split: if_splits)
next
  case (reference bs w c k p)
  have "unat (word_of_nat (length bs) :: u64) = length bs"
    using reference.hyps by (intro unat_of_length) (simp add: kCorpusMaximumReferenceBytes_def)
  then have "unat (max (w_referenceReservedBytes w) (word_of_nat (length bs))) =
      unat (w_referenceReservedBytes w) + (length bs - unat (w_referenceReservedBytes w))"
    by (simp add: max_def word_le_nat_alt)
  then show ?case using reference
    by (simp add: bytes_inv_def spent_def cutNeed_def withReference_def pendingRecords_def)
qed (auto simp: bytes_inv_def spent_def cutNeed_def pendingRecords_def publishCommitted_def)

end
