(* ===== verification/WriterTables.thy ===== *)
theory WriterTables
  imports WriterInv
begin

text \<open>
  The tables of the writer agree with their counters in every state: sources, gaps, records, and the
  manifest's identity members.
\<close>

section \<open>Sources\<close>

definition sources_inv :: "WriterState \<Rightarrow> bool" where
  "sources_inv w \<longleftrightarrow> w_sources w \<noteq> [] \<and> length (w_sources w) \<le> kBinaryMarketMaximumSources \<and>
     list_all source_wf (w_sources w) \<and>
     (\<forall>n < length (w_sources w). validBinaryMarketSource (w_sources w ! n) n) \<and>
     length (w_sourceStates w) = length (w_sources w) \<and>
     unat (mf_sourceCount (w_manifest w)) = length (w_sources w) \<and>
     unat (w_maximumGapRecords w) = length (w_sources w) * kBinaryMarketStoredChannelCount"

lemma sources_inv_frame:
  "sources_inv w \<Longrightarrow> w_sources w' = w_sources w \<Longrightarrow> length (w_sourceStates w') = length (w_sourceStates w) \<Longrightarrow>
     mf_sourceCount (w_manifest w') = mf_sourceCount (w_manifest w) \<Longrightarrow> w_maximumGapRecords w' = w_maximumGapRecords w \<Longrightarrow>
     sources_inv w'"
  by (simp add: sources_inv_def)

lemma accepted_length:
  assumes "\<forall>n < length ss. sourceAccepted (ss ! n) (m + n)" and "m \<le> kBinaryMarketMaximumSources"
  shows "m + length ss \<le> kBinaryMarketMaximumSources" and "list_all source_wf ss"
proof -
  show "list_all source_wf ss" using assms(1) by (simp add: list_all_length sourceAccepted_def)
  show "m + length ss \<le> kBinaryMarketMaximumSources"
  proof (cases ss)
    case (Cons s t)
    then show ?thesis using assms(1) [rule_format, of "length t"] by (simp add: sourceAccepted_def)
  qed (use assms(2) in simp)
qed

lemma sources_inv_added:
  assumes inv: "sources_inv w" and acc: "\<forall>n < length ss. sourceAccepted (ss ! n) (length (w_sources w) + n)"
    and w': "w_sources w' = w_sources w @ ss" "length (w_sourceStates w') = length (w_sourceStates w) + length ss"
      "mf_sourceCount (w_manifest w') = word_of_nat (length (w_sources w'))"
      "w_maximumGapRecords w' = word_of_nat (length (w_sources w') * kBinaryMarketStoredChannelCount)"
  shows "sources_inv w'"
proof -
  have len: "length (w_sources w') \<le> kBinaryMarketMaximumSources" and wf: "list_all source_wf ss"
    using accepted_length [OF acc] inv w'(1) by (simp_all add: sources_inv_def)
  have "validBinaryMarketSource (w_sources w' ! n) n" if "n < length (w_sources w')" for n
    using that inv acc [rule_format, of "n - length (w_sources w)"] w'(1)
    by (cases "n < length (w_sources w)") (simp_all add: sources_inv_def nth_append sourceAccepted_def)
  moreover have "unat (mf_sourceCount (w_manifest w')) = length (w_sources w')"
    "unat (w_maximumGapRecords w') = length (w_sources w') * kBinaryMarketStoredChannelCount"
    using len unfolding w'(3,4)
    by (simp_all add: unat_of_nat unat_word_ariths kBinaryMarketMaximumSources_def kBinaryMarketStoredChannelCount_def)
  ultimately show ?thesis using inv len wf w'(1,2) by (simp add: sources_inv_def)
qed

theorem sources_inv_step:
  assumes "wstep cx cz x y" and "sources_inv (fst x)"
  shows "sources_inv (fst y)"
  using assms
proof (induction rule: wstep.induct)
  case (block n w encoded)
  then show ?case by (auto simp: storeBlock_def Let_def elim!: sources_inv_frame)
next
  case (added ad w)
  have eqs: "mf_sourceCount (w_manifest w) = word_of_nat (length (w_sources w))"
    "w_maximumGapRecords w = word_of_nat (length (w_sources w) * kBinaryMarketStoredChannelCount)"
    using added.prems 
    by (simp_all add: sources_inv_def word_unat_eq_iff unat_of_nat unat_word_ariths kBinaryMarketMaximumSources_def kBinaryMarketStoredChannelCount_def)
  have "sources_inv (recordSource ad w)"
  proof (rule sources_inv_added [of w "[ad_addedSource ad]"])
    show "sources_inv w" using added.prems by simp
    show "\<forall>n < length [ad_addedSource ad]. sourceAccepted ([ad_addedSource ad] ! n) (length (w_sources w) + n)"
      using added.hyps by simp
    show "mf_sourceCount (w_manifest (recordSource ad w)) = word_of_nat (length (w_sources (recordSource ad w)))"
      "w_maximumGapRecords (recordSource ad w) =
        word_of_nat (length (w_sources (recordSource ad w)) * kBinaryMarketStoredChannelCount)"
      using added.hyps(1) eqs by (simp_all add: recordSource_def algebra_simps)
  qed (use added.hyps(1) in \<open>simp_all add: recordSource_def\<close>)
  then show ?case by simp
next
  case (registered ss w)
  show ?case by (rule sources_inv_added [of w ss]) (use registered in \<open>simp_all add: withSources_def\<close>)
next
  case (stored r w position w1)
  obtain f ix where w1: "w1 = setSegment (unat (rh_shardIndex (header r)))
      ((w_segments w ! unat (rh_shardIndex (header r)))\<lparr>sg_indexPositions := f\<rparr>) (w\<lparr>w_index := ix\<rparr>)"
    by (rule indexFor_SomeD [OF stored.hyps(4)])
  show ?case using stored.prems
    by (auto simp: w1 storeRecord_def countManifest_def Let_def elim!: sources_inv_frame)
next
  case (gap g w st w')
  then show ?case by (auto simp: appendGapActive_def elim!: sources_inv_frame split: if_splits option.splits)
next
  case (progress q w st w')
  then show ?case by (auto simp: updateProgressActive_def elim!: sources_inv_frame split: if_splits)
next
  case (final ns w)
  then show ?case by (auto simp: finalManifest_def Let_def elim!: sources_inv_frame split: prod.splits)
qed (auto simp: withReference_def publishCommitted_def elim!: sources_inv_frame)

section \<open>Gaps\<close>

definition gaps_inv :: "WriterState \<Rightarrow> bool" where
  "gaps_inv w \<longleftrightarrow> unat (mf_gapCount (w_manifest w)) = length (w_gaps w) \<and>
     length (w_gaps w) \<le> length (w_sources w) * kBinaryMarketStoredChannelCount \<and>
     list_all (\<lambda>g. \<not> gapInvalid (length (w_sources w)) (cf_shardCount (w_config w)) g) (w_gaps w) \<and>
     distinct (map gapCell (w_gaps w))"

lemma gapInvalid_mono: "\<not> gapInvalid m s g \<Longrightarrow> m \<le> n \<Longrightarrow> \<not> gapInvalid n s g"
  by (auto simp: gapInvalid_def)

lemma gaps_inv_frame:
  assumes "gaps_inv w" and "w_gaps w' = w_gaps w" and "length (w_sources w) \<le> length (w_sources w')"
    and "mf_gapCount (w_manifest w') = mf_gapCount (w_manifest w)" and "w_config w' = w_config w"
  shows "gaps_inv w'"
proof -
  have "length (w_gaps w) \<le> length (w_sources w) * kBinaryMarketStoredChannelCount" using assms(1) by (simp add: gaps_inv_def)
  also have "\<dots> \<le> length (w_sources w') * kBinaryMarketStoredChannelCount" using assms(3) by (rule mult_le_mono1)
  finally show ?thesis using assms gapInvalid_mono [OF _ assms(3)] by (simp add: gaps_inv_def list_all_iff)
qed

lemma channel_index:
  assumes "validBinaryMarketRecordChannel ch"
  shows "unat (binaryMarketChannelIndex ch) = unat ch - 1" and "0 < unat ch" and "unat ch - 1 < kBinaryMarketStoredChannelCount"
proof -
  have c: "0 < unat ch" "unat ch \<le> 9" using assms
    by (auto simp: validBinaryMarketRecordChannel_def validBinaryMarketChannel_def chBookTicker_def chPriceLimit_def
      chSourceLifecycle_def word_le_nat_alt)
  then show "0 < unat ch" "unat ch - 1 < kBinaryMarketStoredChannelCount" by (simp_all add: kBinaryMarketStoredChannelCount_def)
  have "unat (ucast ch :: u64) = unat ch" 
    using unsigned_less [of ch, where 'a = nat] by (simp add: unsigned_ucast_eq take_bit_nat_eq_self)
  then show "unat (binaryMarketChannelIndex ch) = unat ch - 1"
    using c by (simp add: binaryMarketChannelIndex_def unat_sub word_le_nat_alt)
qed

lemma gapCell_inj:
  assumes "validBinaryMarketRecordChannel (gp_channel g)" and "validBinaryMarketRecordChannel (gp_channel e)"
    and "gp_sourceId g \<noteq> 0" and "gp_sourceId e \<noteq> 0" and "gapCell g = gapCell e"
  shows "sameCell g e"
proof -
  note g = channel_index [OF assms(1)] and e = channel_index [OF assms(2)]
  have eq: "(unat (gp_sourceId g) - 1) * kBinaryMarketStoredChannelCount + (unat (gp_channel g) - 1) =
      (unat (gp_sourceId e) - 1) * kBinaryMarketStoredChannelCount + (unat (gp_channel e) - 1)"
    using assms(5) g(1) e(1) by (simp add: gapCell_def)
  have "unat (gp_sourceId g) - 1 = unat (gp_sourceId e) - 1"
    using arg_cong [OF eq, of "\<lambda>x. x div kBinaryMarketStoredChannelCount"] g(3) e(3) by simp
  moreover from this have "unat (gp_channel g) - 1 = unat (gp_channel e) - 1" using eq by simp
  moreover have "0 < unat (gp_sourceId g)" "0 < unat (gp_sourceId e)" using assms(3,4) by (simp_all add: unat_gt_0)
  ultimately show ?thesis using g(2) e(2) unfolding sameCell_def word_unat_eq_iff by linarith
qed

lemma sameCell_cell: "sameCell g e \<Longrightarrow> gapCell g = gapCell e"
  by (simp add: sameCell_def gapCell_def)

lemma replaceGap_Some:
  "replaceGap g es = Some (st, es') \<Longrightarrow> es' = es \<or> (\<exists>i < length es. es' = es[i := g] \<and> sameCell g (es ! i))"
proof (induction es arbitrary: es')
  case (Cons e es)
  show ?case
  proof (cases "sameCell g e")
    case True
    then show ?thesis using Cons.prems by (auto split: if_splits intro: exI [of _ 0])
  next
    case False
    then obtain es1 where r: "replaceGap g es = Some (st, es1)" "es' = e # es1"
      using Cons.prems by (auto split: option.splits)
    from Cons.IH [OF r(1)] show ?thesis
    proof
      assume "\<exists>i < length es. es1 = es[i := g] \<and> sameCell g (es ! i)"
      then obtain i where "i < length es" "es1 = es[i := g]" "sameCell g (es ! i)" by blast
      then show ?thesis using r(2) by (intro disjI2 exI [of _ "Suc i"]) simp
    qed (use r(2) in simp)
  qed
qed simp

lemma replaceGap_None: "replaceGap g es = None \<Longrightarrow> e \<in> set es \<Longrightarrow> \<not> sameCell g e"
  by (induction es) (auto split: if_splits option.splits)

lemma writerGap_valid:
  "\<not> writerGapInvalid g w \<Longrightarrow> length (w_segments w) = unat s \<Longrightarrow> \<not> gapInvalid (length (w_sources w)) s g"
  by (auto simp: writerGapInvalid_def gapInvalid_def word_le_nat_alt)

lemma gaps_inv_append:
  assumes inv: "gaps_inv w" "segments_inv cx cz w" "sources_inv w" and step: "appendGapActive g w = (st, w')"
  shows "gaps_inv w'"
proof (cases "writerGapInvalid g w \<or>
    gp_sourceGeneration g < initialSourceGeneration (w_sources w ! (unat (gp_sourceId g) - 1))")
  case True
  then show ?thesis using step inv(1) by (auto simp: appendGapActive_def split: if_splits)
next
  case False
  have v: "\<not> gapInvalid (length (w_sources w)) (cf_shardCount (w_config w)) g"
    using False writerGap_valid inv(2) by (simp add: segments_inv_def)
  have all: "\<forall>e \<in> set (w_gaps w). \<not> gapInvalid (length (w_sources w)) (cf_shardCount (w_config w)) e"
    using inv(1) by (simp add: gaps_inv_def list_all_iff)
  show ?thesis
  proof (cases "replaceGap g (w_gaps w)")
    case None
    have "gapCell g \<noteq> gapCell e" if e: "e \<in> set (w_gaps w)" for e
      using gapCell_inj [of g e] replaceGap_None [OF None e] v all e by (auto simp: gapInvalid_def)
    then have d: "gapCell g \<notin> gapCell ` set (w_gaps w)" by blast
    show ?thesis
    proof (cases "unat (w_maximumGapRecords w) \<le> length (w_gaps w)")
      case True
      then show ?thesis using step inv(1) False None by (simp add: appendGapActive_def)
    next
      case room: False
      then have w': "w' = w\<lparr>w_gaps := w_gaps w @ [g],
          w_manifest := (w_manifest w)\<lparr>mf_gapCount := mf_gapCount (w_manifest w) + 1\<rparr>\<rparr>"
        using step False None by (simp add: appendGapActive_def)
      have "length (w_gaps w) < length (w_sources w) * kBinaryMarketStoredChannelCount"
        using room inv(3) by (simp add: sources_inv_def)
      moreover from this have "unat (mf_gapCount (w_manifest w) + 1) = length (w_gaps w) + 1"
        using inv(1,3) by (simp add: gaps_inv_def sources_inv_def unat_word_ariths kBinaryMarketMaximumSources_def
            kBinaryMarketStoredChannelCount_def)
      ultimately show ?thesis using inv(1) v d by (simp add: w' gaps_inv_def)
    qed
  next
    case (Some q)
    obtain st' es where q: "q = (st', es)" by fastforce
    have w': "w' = w\<lparr>w_gaps := es\<rparr>" using step False Some q by (simp add: appendGapActive_def)
    from replaceGap_Some [OF Some [unfolded q]] show ?thesis
    proof
      assume "\<exists>i < length (w_gaps w). es = (w_gaps w)[i := g] \<and> sameCell g (w_gaps w ! i)"
      then obtain i where i: "i < length (w_gaps w)" "es = (w_gaps w)[i := g]" "sameCell g (w_gaps w ! i)" by blast
      have "map gapCell es = map gapCell (w_gaps w)"
        using i sameCell_cell [OF i(3)] by (simp add: map_update list_update_same_conv)
      moreover have "set es \<subseteq> insert g (set (w_gaps w))" using i(2) set_update_subset_insert by fastforce
      ultimately show ?thesis using inv(1) v all i(2) by (auto simp: w' gaps_inv_def list_all_iff)
    qed (use inv(1) w' in \<open>simp add: gaps_inv_def\<close>)
  qed
qed

theorem gaps_inv_step:
  assumes "wstep cx cz x y" and "segments_inv cx cz (fst x)" and "sources_inv (fst x)" and "gaps_inv (fst x)"
  shows "gaps_inv (fst y)"
  using assms
proof (induction rule: wstep.induct)
  case (block n w encoded)
  then show ?case by (auto simp: storeBlock_def Let_def elim!: gaps_inv_frame)
next
  case (stored r w position w1)
  obtain f ix where w1: "w1 = setSegment (unat (rh_shardIndex (header r)))
      ((w_segments w ! unat (rh_shardIndex (header r)))\<lparr>sg_indexPositions := f\<rparr>) (w\<lparr>w_index := ix\<rparr>)"
    by (rule indexFor_SomeD [OF stored.hyps(4)])
  show ?case using stored.prems(3)
    by (auto simp: w1 storeRecord_def countManifest_def Let_def elim!: gaps_inv_frame)
next
  case (gap g w st w')
  then show ?case using gaps_inv_append by simp
next
  case (progress q w st w')
  then show ?case by (auto simp: updateProgressActive_def elim!: gaps_inv_frame split: if_splits)
next
  case (final ns w)
  then show ?case by (auto simp: finalManifest_def Let_def elim!: gaps_inv_frame split: prod.splits)
qed (auto simp: withReference_def publishCommitted_def recordSource_def withSources_def elim!: gaps_inv_frame)

section \<open>Records\<close>

definition records_inv :: "WriterState \<Rightarrow> bool" where
  "records_inv w \<longleftrightarrow> unat (mf_recordCount (w_manifest w)) = blockRecords (w_blocks w) + pendingRecords w"

theorem records_inv_step:
  assumes "wstep cx cz x y" and "compressor_contract cz" and "segments_inv cx cz (fst x)" and "bytes_inv cz x"
    and "records_inv (fst x)"
  shows "records_inv (fst y)"
  using assms
proof (induction rule: wstep.induct)
  case (block n w encoded k c p)
  have "blockRecords (w_blocks (storeBlock cz n encoded w)) + pendingRecords (storeBlock cz n encoded w) =
      blockRecords (w_blocks w) + pendingRecords w"
    using storeBlock_records(1,2) [OF block.prems(1) block.prems(2) [unfolded fst_conv] block.hyps] by linarith
  then show ?case using block.prems(4) by (simp add: records_inv_def del: block_simps storeBlock_frame(1))
next
  case (stored r w position w1 k c p ad)
  obtain f ix where w1: "w1 = setSegment (unat (rh_shardIndex (header r)))
      ((w_segments w ! unat (rh_shardIndex (header r)))\<lparr>sg_indexPositions := f\<rparr>) (w\<lparr>w_index := ix\<rparr>)"
    and pend: "pendingRecords (storeRecord cz r ad position w1) = Suc (pendingRecords w)"
    by (rule storeRecord_result [OF stored.hyps(1,4)])
  have "cutNeed w + c \<le> unat (w_cutReservedBytes w)" using stored.prems(3) by (simp add: bytes_inv_def)
  then have "blockRecords (w_blocks w) + pendingRecords w + 1 < 2 ^ 64"
    using unat_lt64 [of "w_cutReservedBytes w"] by (simp add: cutNeed_def)
  then have "unat (mf_recordCount (w_manifest w) + 1) = blockRecords (w_blocks w) + pendingRecords w + 1"
    using stored.prems(4) by (simp add: records_inv_def unat_word_ariths)
  moreover have "mf_recordCount (w_manifest (storeRecord cz r ad position w1)) = mf_recordCount (w_manifest w) + 1"
    "w_blocks (storeRecord cz r ad position w1) = w_blocks w"
    by (simp_all add: w1 storeRecord_def countManifest_def Let_def)
  ultimately show ?case using pend by (simp add: records_inv_def)
next
  case (reset n w)
  then show ?case using segments_inv_nth [of cx cz w n]
    by (simp add: records_inv_def pendingRecords_same shard_ok_def)
next
  case (number i w k c p)
  then show ?case using segments_inv_nth [of cx cz w "unat i"]
    by (simp add: records_inv_def pendingRecords_same shard_ok_def)
next
  case (opened i w k c)
  then show ?case using segments_inv_nth [of cx cz w "unat i"]
    by (simp add: records_inv_def pendingRecords_same shard_ok_def)
next
  case (gap g w st w')
  then show ?case by (auto simp: appendGapActive_def records_inv_def pendingRecords_def split: if_splits option.splits)
next
  case (progress q w st w')
  then show ?case by (auto simp: updateProgressActive_def records_inv_def pendingRecords_def split: if_splits)
next
  case (final ns w)
  then show ?case by (auto simp: finalManifest_def Let_def records_inv_def pendingRecords_def split: prod.splits)
next
  case (stream n w)
  then show ?case by (simp add: records_inv_def pendingRecords_same)
next
  case (sealing n w)
  then show ?case by (simp add: records_inv_def pendingRecords_same)
next
  case (closed n w)
  then show ?case by (simp add: records_inv_def pendingRecords_same)
qed (auto simp: records_inv_def pendingRecords_def recordSource_def withSources_def withReference_def publishCommitted_def)

end
