(* ===== verification/WriterBlocks.thy ===== *)
theory WriterBlocks
  imports WriterTables
begin

text \<open>
  The identity members of the manifest stay those of the configuration, and every block reference the
  writer holds is one the decoder of a cut accepts.
\<close>

section \<open>Identity\<close>

definition identity_inv :: "WriterState \<Rightarrow> bool" where
  "identity_inv w = (let m = w_manifest w; f = w_config w in
     manifest_wf m \<and> mf_magic m = kBinaryMarketManifestMagic \<and> mf_headerBytes m = 192 \<and>
     mf_producerEpoch m = cf_producerEpoch f \<and> mf_shardCount m = cf_shardCount f \<and>
     mf_maximumBytes m = cf_maximumBytes f \<and> mf_segmentTargetBytes m = cf_segmentTargetBytes f \<and>
     cf_producerEpoch f \<noteq> 0 \<and> cf_shardCount f \<noteq> 0 \<and> unat (cf_shardCount f) \<le> kBinaryMarketMaximumShards \<and>
     sizeof_SegmentHeader + sizeof_BinaryMarketRecord + sizeof_SegmentFooter \<le> unat (cf_segmentTargetBytes f) \<and>
     0 < sint (cf_startedReceiveNs f) \<and> 0 < sint (mf_startedReceiveNs m) \<and> mf_replayAnchorMonotonicNs m \<noteq> 0 \<and>
     all_zero (mf_reserved m) \<and> progress_wf (w_progress w) \<and>
     pg_producerEpoch (w_progress w) = cf_producerEpoch f \<and> pg_shardCount (w_progress w) = cf_shardCount f \<and>
     length (w_referencePayload w) \<le> kCorpusMaximumReferenceBytes \<and>
     length (w_referencePayload w) \<le> unat (w_referenceReservedBytes w))"

lemma identity_inv_frame:
  "identity_inv w \<Longrightarrow> w_manifest w' = w_manifest w \<Longrightarrow> w_config w' = w_config w \<Longrightarrow> w_progress w' = w_progress w \<Longrightarrow>
     w_referencePayload w' = w_referencePayload w \<Longrightarrow> w_referenceReservedBytes w' = w_referenceReservedBytes w \<Longrightarrow>
     identity_inv w'"
  by (simp add: identity_inv_def)

theorem identity_inv_step:
  assumes "wstep cx cz x y" and "identity_inv (fst x)"
  shows "identity_inv (fst y)"
  using assms
proof (induction rule: wstep.induct)
  case (block n w encoded)
  then show ?case by (auto elim!: identity_inv_frame)
next
  case (closed n w)
  then show ?case by (simp add: identity_inv_def manifest_wf_def Let_def)
next
  case (added ad w)
  then show ?case by (simp add: recordSource_def identity_inv_def manifest_wf_def Let_def)
next
  case (registered ss w)
  then show ?case by (simp add: withSources_def identity_inv_def manifest_wf_def Let_def)
next
  case (stored r w position w1 k c p ad)
  obtain f ix where w1: "w1 = setSegment (unat (rh_shardIndex (header r)))
      ((w_segments w ! unat (rh_shardIndex (header r)))\<lparr>sg_indexPositions := f\<rparr>) (w\<lparr>w_index := ix\<rparr>)"
    by (rule indexFor_SomeD [OF stored.hyps(4)])
  have "rh_receiveMonotonicNs (header r) \<noteq> 0" using valid_recordD(2) ready_valid(1) [OF stored.hyps(1)] by blast
  then show ?case using stored.prems
    by (simp add: w1 storeRecord_def countManifest_def identity_inv_def manifest_wf_def Let_def)
next
  case (gap g w st w')
  then show ?case
    by (auto simp: appendGapActive_def identity_inv_def manifest_wf_def Let_def split: if_splits option.splits)
next
  case (progress q w st w')
  then show ?case by (auto simp: updateProgressActive_def progressInvalid_def identity_inv_def Let_def split: if_splits)
next
  case (reference bs w c k p)
  have "unat (word_of_nat (length bs) :: u64) = length bs"
    using reference.hyps by (intro unat_of_length) (simp add: kCorpusMaximumReferenceBytes_def)
  then have "length bs \<le> unat (max (w_referenceReservedBytes w) (word_of_nat (length bs)))"
    by (simp add: max_def word_le_nat_alt)
  then show ?case using reference by (simp add: withReference_def identity_inv_def Let_def)
next
  case (final ns w k c p reason crcs)
  then show ?case
    by (simp add: finalManifest_def identity_inv_def manifest_wf_def Let_def minNs_def split: prod.split)
next
  case (counted w)
  then show ?case by (simp add: identity_inv_def manifest_wf_def Let_def)
qed (auto simp: publishCommitted_def elim!: identity_inv_frame)

section \<open>Blocks\<close>

definition blocks_inv :: "compressor \<Rightarrow> WriterState \<Rightarrow> bool" where
  "blocks_inv cz w \<longleftrightarrow>
     list_all (\<lambda>r. range_wf r \<and>
       \<not> rangeInvalid (cz_bound cz) (cf_shardCount (w_config w)) (cf_maximumBytes (w_config w)) (range_image r)) (w_blocks w) \<and>
     list_all (\<lambda>g. unat (sh_storedBlockBytes (sg_header g)) \<le> blockBytes (w_blocks w)) (w_segments w)"

lemma range_crc:
  assumes "range_wf r"
  shows "slice 32 64 (range_image r) = marketBlock_image (cr_header r)"
  using assms unfolding range_image_def range_wf_def by (simp add: layout_simps)

lemma blockHeader_crc:
  "bk_headerCrc32c (blockHeaderFor g encoded) = crc32c (zero4 48 (marketBlock_image (blockHeaderFor g encoded)))"
  by (simp add: zero4_marketBlock) (simp add: blockHeaderFor_def Let_def)

lemma sorted_hd_last:
  "sorted_wrt P xs \<Longrightarrow> xs \<noteq> [] \<Longrightarrow> hd xs = last xs \<or> P (hd xs) (last xs)"
  by (cases xs) auto

lemma length_records: "\<forall>r \<in> set rs. record_wf r \<Longrightarrow> length (concat (map record_image rs)) = length rs * 1024"
  by (induction rs) (simp_all add: length_record_image)

lemma blockRange_fields:
  "cr_segmentNumber (blockRange g encoded) = sh_segmentNumber (sg_header g)"
  "cr_shardIndex (blockRange g encoded) = sh_shardIndex (sg_header g)" "cr_reserved (blockRange g encoded) = 0"
  "cr_firstMonotonicNs (blockRange g encoded) = rh_receiveMonotonicNs (header (hd (sg_pending g)))"
  "cr_lastMonotonicNs (blockRange g encoded) = rh_receiveMonotonicNs (header (last (sg_pending g)))"
  "cr_header (blockRange g encoded) = blockHeaderFor g encoded"
  by (simp_all add: blockRange_def)

lemma blockHeader_fields:
  "bk_magic (blockHeaderFor g encoded) = kBinaryMarketBlockMagic" "bk_headerBytes (blockHeaderFor g encoded) = 64"
  "bk_blockNumber (blockHeaderFor g encoded) = sh_blockCount (sg_header g) + 1"
  "bk_recordCount (blockHeaderFor g encoded) = word_of_nat (length (sg_pending g))"
  "bk_rawBytes (blockHeaderFor g encoded) = word_of_nat (length (sg_pending g) * 1024)"
  "bk_encodedBytes (blockHeaderFor g encoded) = word_of_nat (length encoded)"
  "bk_firstShardSequence (blockHeaderFor g encoded) = rh_shardSequence (header (hd (sg_pending g)))"
  "bk_lastShardSequence (blockHeaderFor g encoded) = rh_shardSequence (header (last (sg_pending g)))"
  "bk_channel (blockHeaderFor g encoded) = rh_channel (header (hd (sg_pending g)))"
  "bk_reserved (blockHeaderFor g encoded) = replicate 11 0"
  by (simp_all add: blockHeaderFor_def Let_def sizeof_BinaryMarketRecord_def)

lemma blockRange_valid:
  assumes cz: "compressor_contract cz" and inv: "segments_inv cx cz w" and bytes: "bytes_inv cz (w, k, c, p)"
    and blocks: "blocks_inv cz w" and n: "n < length (w_segments w)" and acc: "blockAccepted cz (w_segments w ! n) encoded"
  shows "\<not> rangeInvalid (cz_bound cz) (cf_shardCount (w_config w)) (cf_maximumBytes (w_config w))
     (range_image (blockRange (w_segments w ! n) encoded))"
proof -
  let ?g = "w_segments w ! n" and ?r = "blockRange (w_segments w ! n) encoded"
  let ?P = "sg_pending ?g"
  let ?layout = "binaryMarketBlockLayout (rh_channel (header (hd ?P)))"
  note a = accepted_block [OF cz inv n acc]
  have wf: "range_wf ?r" by (simp add: range_wf_def blockHeader_wf_def blockRange_def blockHeaderFor_def Let_def)
  have ok: "shard_ok cx n ?g" "open_ok cz n ?g" "sg_open ?g" "encoded \<noteq> []" "sh_blockCount (sg_header ?g) \<noteq> 0xffffffff"
    using segments_inv_nth [OF inv n] acc by (auto simp: blockAccepted_def)
  have shard: "unat (sh_shardIndex (sg_header ?g)) < unat (cf_shardCount (w_config w))" "sh_segmentNumber (sg_header ?g) \<noteq> 0"
    using ok(2,3) n inv by (simp_all add: open_ok_def segments_inv_def)
  have stored: "unat (sh_storedBlockBytes (sg_header ?g)) \<le> blockBytes (w_blocks w)"
    using blocks n by (simp add: blocks_inv_def list_all_length)
  have room: "4672 + blockBytes (w_blocks w) \<le> unat (cf_maximumBytes (w_config w))"
    using bytes by (simp add: bytes_inv_def spent_def word_le_nat_alt)
  then have offset: "unat (cr_offset ?r) = 128 + unat (sh_storedBlockBytes (sg_header ?g))"
    using stored unat_lt64 [of "cf_maximumBytes (w_config w)"]
    by (simp add: blockRange_def unat_word_ariths sizeof_SegmentHeader_def)
  have P: "?P \<noteq> []" using a(2) by simp
  have mem: "hd ?P \<in> set ?P" "last ?P \<in> set ?P" using P by simp_all
  have valid: "validBinaryMarketRecord cx (hd ?P)" "\<forall>r \<in> set ?P. record_wf r" using ok(1) mem by (simp_all add: shard_ok_def)
  have order: "rh_shardSequence (header (hd ?P)) \<le> rh_shardSequence (header (last ?P))"
    "rh_receiveMonotonicNs (header (hd ?P)) \<le> rh_receiveMonotonicNs (header (last ?P))"
    using ok(1) P sorted_hd_last unfolding shard_ok_def by (metis (no_types, lifting) order.refl order.strict_implies_order)+
  have "length (blockRaw ?g) div bl_recordBytes ?layout = length ?P"
    using valid(2) by (simp add: blockRaw_def length_records binaryMarketBlockLayout_def sizeof_BinaryMarketRecord_def)
  then have bound: "length encoded \<le> cz_bound cz ?layout (length ?P)"
    using cz acc unfolding compressor_contract_def blockAccepted_def by metis
  have small: "unat (word_of_nat (length ?P) :: u32) = length ?P" "unat (word_of_nat (length encoded) :: u32) = length encoded"
    "unat (word_of_nat (length ?P * 1024) :: u32) = length ?P * 1024"
    using a(1,3) by (simp_all add: unat_of_nat kBinaryMarketBlockRecords_def del: of_nat_mult)
  have nonzero: "(word_of_nat (length ?P) :: u32) \<noteq> 0" "(word_of_nat (length encoded) :: u32) \<noteq> 0"
    using small P ok(4) by (auto simp: word_unat_eq_iff)
  show ?thesis
    unfolding rangeInvalid_def range_of_image [OF wf] range_crc [OF wf] Let_def de_Morgan_disj
    using shard offset stored room valid_recordD [OF valid(1)] order bound small nonzero plus_one_nonzero [OF ok(5)] a(3)
    by (simp add: blockRange_fields blockHeader_fields word_le_nat_alt word_less_nat_alt not_less sizeof_SegmentHeader_def
        sizeof_BlockHeader_def binaryMarketBlockLayout_def sizeof_BinaryMarketRecord_def all_zero_def list_all_iff blockHeader_crc
        del: of_nat_mult)
qed

lemma blocks_inv_frame:
  "blocks_inv cz w \<Longrightarrow> w_blocks w' = w_blocks w \<Longrightarrow> w_config w' = w_config w \<Longrightarrow> w_segments w' = w_segments w \<Longrightarrow>
     blocks_inv cz w'"
  by (simp add: blocks_inv_def)

lemma blocks_inv_set:
  "blocks_inv cz w \<Longrightarrow> unat (sh_storedBlockBytes (sg_header g)) \<le> blockBytes (w_blocks w) \<Longrightarrow>
     blocks_inv cz (setSegment n g w)"
  using set_update_subset_insert [of "w_segments w" n g] by (auto simp: blocks_inv_def setSegment_def list_all_iff)

lemma blocks_inv_stored:
  assumes "blocks_inv cz w" and "n < length (w_segments w)" and "w_segments w' = (w_segments w)[n := g]"
    and "sh_storedBlockBytes (sg_header g) = 0 \<or>
      sh_storedBlockBytes (sg_header g) = sh_storedBlockBytes (sg_header (w_segments w ! n))"
    and "w_blocks w' = w_blocks w" and "w_config w' = w_config w"
  shows "blocks_inv cz w'"
proof -
  have "unat (sh_storedBlockBytes (sg_header g)) \<le> blockBytes (w_blocks w)"
    using assms(1,2,4) by (auto simp: blocks_inv_def list_all_length)
  then have "blocks_inv cz (setSegment n g w)" using blocks_inv_set assms(1) by blast
  then show ?thesis using assms(3,5,6) by (auto simp: setSegment_def elim!: blocks_inv_frame)
qed

lemma blocks_inv_block:
  assumes cz: "compressor_contract cz" and inv: "segments_inv cx cz w" and bytes: "bytes_inv cz (w, k, c, p)"
    and blocks: "blocks_inv cz w" and n: "n < length (w_segments w)" and acc: "blockAccepted cz (w_segments w ! n) encoded"
  shows "blocks_inv cz (storeBlock cz n encoded w)"
proof -
  let ?w = "storeBlock cz n encoded w" and ?g = "w_segments w ! n"
  have wf: "range_wf (blockRange ?g encoded)"
    by (simp add: range_wf_def blockHeader_wf_def blockRange_def blockHeaderFor_def Let_def)
  have grow: "blockBytes (w_blocks ?w) = blockBytes (w_blocks w) + sizeof_BlockHeader + length encoded"
    by (rule storeBlock_records(3) [OF cz inv n acc])
  have old: "unat (sh_storedBlockBytes (sg_header ?g)) \<le> blockBytes (w_blocks w)"
    using blocks n by (simp add: blocks_inv_def list_all_length)
  have "unat (sh_storedBlockBytes (sg_header ?g) + word_of_nat (sizeof_BlockHeader + length encoded)) \<le>
      unat (sh_storedBlockBytes (sg_header ?g)) + (sizeof_BlockHeader + length encoded)"
    unfolding unat_word_ariths unat_of_nat mod_add_right_eq by (rule mod_less_eq_dividend)
  then have new: "unat (sh_storedBlockBytes (sg_header ?g) + word_of_nat (sizeof_BlockHeader + length encoded)) \<le>
      blockBytes (w_blocks ?w)"
    using old grow by linarith
  have segs: "\<exists>g'. w_segments ?w = (w_segments w)[n := g'] \<and> sh_storedBlockBytes (sg_header g') =
      sh_storedBlockBytes (sg_header ?g) + word_of_nat (sizeof_BlockHeader + length encoded)"
    using n by (intro exI [of _ "w_segments ?w ! n"]) (simp add: storeBlock_def Let_def setSegment_def)
  have "\<forall>g \<in> set (w_segments ?w). unat (sh_storedBlockBytes (sg_header g)) \<le> blockBytes (w_blocks ?w)"
  proof
    fix g assume "g \<in> set (w_segments ?w)"
    then have "sh_storedBlockBytes (sg_header g) = sh_storedBlockBytes (sg_header ?g) + word_of_nat (sizeof_BlockHeader + length encoded) \<or>
        g \<in> set (w_segments w)" using segs set_update_subset_insert by fastforce
    then show "unat (sh_storedBlockBytes (sg_header g)) \<le> blockBytes (w_blocks ?w)"
      using new blocks grow by (auto simp: blocks_inv_def list_all_iff simp del: storeBlock_frame(1))
  qed
  then show ?thesis using blocks wf blockRange_valid [OF assms] by (simp add: blocks_inv_def list_all_iff)
qed

theorem blocks_inv_step:
  assumes "wstep cx cz x y" and "compressor_contract cz" and "segments_inv cx cz (fst x)" and "bytes_inv cz x"
    and "blocks_inv cz (fst x)"
  shows "blocks_inv cz (fst y)"
  using assms
proof (induction rule: wstep.induct)
  case (stream n w)
  then show ?case by (auto simp: setSegment_def elim!: blocks_inv_stored)
next
  case (block n w encoded k c p)
  then show ?case using blocks_inv_block by simp
next
  case (reset n w)
  then show ?case by (auto simp: setSegment_def freshSegment_def emptySegment_def emptySegmentHeader_def elim!: blocks_inv_stored)
next
  case (number i w k c p)
  then show ?case by (auto simp: setSegment_def openHeader_def emptySegmentHeader_def elim!: blocks_inv_stored)
next
  case (opened i w k c)
  then show ?case by (auto simp: setSegment_def openHeader_def emptySegmentHeader_def elim!: blocks_inv_stored)
next
  case (sealing n w)
  then show ?case by (auto simp: setSegment_def sealHeader_def elim!: blocks_inv_stored)
next
  case (closed n w)
  then show ?case by (auto simp: setSegment_def elim!: blocks_inv_stored)
next
  case (stored r w position w1 k c p ad)
  let ?n = "unat (rh_shardIndex (header r))"
  obtain f ix where w1: "w1 = setSegment ?n ((w_segments w ! ?n)\<lparr>sg_indexPositions := f\<rparr>) (w\<lparr>w_index := ix\<rparr>)"
    by (rule indexFor_SomeD [OF stored.hyps(4)])
  have n: "?n < length (w_segments w)" by (rule ready_valid(3) [OF stored.hyps(1)])
  show ?case using stored.prems(4) n
    by (auto simp: w1 storeRecord_def countSegment_def setSegment_def Let_def elim!: blocks_inv_stored)
next
  case (gap g w st w')
  then show ?case by (auto simp: appendGapActive_def elim!: blocks_inv_frame split: if_splits option.splits)
next
  case (progress q w st w')
  then show ?case by (auto simp: updateProgressActive_def elim!: blocks_inv_frame split: if_splits)
qed (auto simp: recordSource_def withSources_def withReference_def publishCommitted_def elim!: blocks_inv_frame)

end
