(* ===== verification/WriterCounts.thy ===== *)
theory WriterCounts
  imports WriterBlocks
begin

text \<open>
  The counters and times of the manifest: every segment holds an indexed record, counts do not wrap,
  and the replay anchor lies in the recorded interval.
\<close>

definition openSegments :: "WriterState \<Rightarrow> nat" where
  "openSegments w = length (filter sg_open (w_segments w))"

definition segmentsUsed :: "WriterState \<Rightarrow> nat" where
  "segmentsUsed w = unat (mf_segmentCount (w_manifest w)) + openSegments w"

definition counts_inv :: "ledger \<Rightarrow> bool" where
  "counts_inv x = (case x of (w, k, c, p) \<Rightarrow>
     segmentsUsed w \<le> length (w_index w) + (if p then 1 else 0) \<and> segmentsUsed w < unat (w_nextSegmentNumber w) \<and>
     length (w_index w) \<le> 0xffffffff \<and>
     (mf_recordCount (w_manifest w) = 0 \<longleftrightarrow> w_index w = []) \<and>
     (mf_recordCount (w_manifest w) \<noteq> 0 \<longrightarrow> 0 < segmentsUsed w))"

lemma openSegments_set:
  "n < length (w_segments w) \<Longrightarrow> openSegments (setSegment n g w) + (if sg_open (w_segments w ! n) then 1 else 0) =
     openSegments w + (if sg_open g then 1 else 0)"
proof -
  have count: "length (filter sg_open xs) = (\<Sum>g \<leftarrow> xs. if sg_open g then 1 else 0)" for xs :: "SegmentState list"
    by (induction xs) simp_all
  show "n < length (w_segments w) \<Longrightarrow> ?thesis"
    using sum_update [of n "w_segments w" "\<lambda>g. if sg_open g then 1 else 0" g] by (simp add: openSegments_def count setSegment_def)
qed

lemma openSegments_same:
  "n < length (w_segments w) \<Longrightarrow> sg_open g = sg_open (w_segments w ! n) \<Longrightarrow> openSegments (setSegment n g w) = openSegments w"
  using openSegments_set [of n w g] by simp

lemma openSegments_frame [simp]:
  "openSegments (w\<lparr>w_manifest := m\<rparr>) = openSegments w" "openSegments (w\<lparr>w_nextSegmentNumber := q\<rparr>) = openSegments w"
  by (simp_all add: openSegments_def)

lemma openSegments_segments: "w_segments w' = w_segments w \<Longrightarrow> openSegments w' = openSegments w"
  by (simp add: openSegments_def)

lemma openSegments_block: "n < length (w_segments w) \<Longrightarrow> openSegments (storeBlock cz n encoded w) = openSegments w"
  unfolding storeBlock_def Let_def by (subst openSegments_same) (simp_all add: openSegments_def)

lemma openSegments_storeRecord:
  assumes "unat (rh_shardIndex (header r)) < length (w_segments w)"
    and "w1 = setSegment (unat (rh_shardIndex (header r)))
      ((w_segments w ! unat (rh_shardIndex (header r)))\<lparr>sg_indexPositions := f\<rparr>) (w\<lparr>w_index := ix\<rparr>)"
  shows "openSegments (storeRecord cz r ad position w1) = openSegments w"
  using openSegments_same [of "unat (rh_shardIndex (header r))" w
      "countSegment cz r ((w_segments w ! unat (rh_shardIndex (header r)))\<lparr>sg_indexPositions := f\<rparr>)"] assms
  by (simp add: storeRecord_def Let_def openSegments_def setSegment_def countSegment_def)

lemma indexFor_bound:
  "indexFor r w = (position, w1) \<Longrightarrow> length (w_index w1) \<le> max (length (w_index w)) 0xffffffff"
  by (auto simp: indexFor_def ensureIndex_def Let_def split: option.splits if_splits)

lemma counts_inv_frame:
  assumes "counts_inv (w, k, c, p)" and "openSegments w' = openSegments w" "w_index w' = w_index w"
    "mf_segmentCount (w_manifest w') = mf_segmentCount (w_manifest w)"
    "unat (w_nextSegmentNumber w) \<le> unat (w_nextSegmentNumber w')"
    "mf_recordCount (w_manifest w') = mf_recordCount (w_manifest w)"
  shows "counts_inv (w', k', c', p)"
  using assms by (simp add: counts_inv_def segmentsUsed_def)

theorem counts_inv_step:
  assumes "wstep cx cz x y" and "segments_inv cx cz (fst x)" and "bytes_inv cz x" and "counts_inv x" and "records_inv (fst y)"
  shows "counts_inv y"
  using assms
proof (induction rule: wstep.induct)
  case (stream n w)
  then show ?case by (elim counts_inv_frame) (simp_all add: openSegments_same)
next
  case (block n w encoded)
  then show ?case by (elim counts_inv_frame) (simp_all add: openSegments_block)
next
  case (reset n w)
  then show ?case by (elim counts_inv_frame) (simp_all add: openSegments_same)
next
  case (number i w k c p)
  then show ?case by (elim counts_inv_frame) (simp_all add: openSegments_same unat_next32)
next
  case (opened i w k c)
  then show ?case using openSegments_set [of "unat i" "w\<lparr>w_nextSegmentNumber := w_nextSegmentNumber w + 1\<rparr>"
      "openedSegment cz i w (w_segments w ! unat i)"]
    by (simp add: counts_inv_def segmentsUsed_def unat_next32)
next
  case (sealing n w)
  then show ?case by (elim counts_inv_frame) (simp_all add: openSegments_same)
next
  case (closed n w k c p)
  let ?m = "(w_manifest w)\<lparr>mf_segmentCount := mf_segmentCount (w_manifest w) + 1\<rparr>"
  let ?g = "(w_segments w ! n)\<lparr>sg_open := False, sg_indexPositions := (\<lambda>k. None)\<rparr>"
  have "segmentsUsed w < 2 ^ 32"
    using closed.prems(3) unsigned_less [of "w_nextSegmentNumber w", where 'a = nat] by (simp add: counts_inv_def)
  moreover have o: "openSegments (setSegment n ?g (w\<lparr>w_manifest := ?m\<rparr>)) + 1 = openSegments w"
    using openSegments_set [of n "w\<lparr>w_manifest := ?m\<rparr>" ?g] closed.hyps by simp
  ultimately have "unat (mf_segmentCount (w_manifest w) + 1) = unat (mf_segmentCount (w_manifest w)) + 1"
    unfolding segmentsUsed_def by (simp add: unat_word_ariths)
  then have "segmentsUsed (setSegment n ?g (w\<lparr>w_manifest := ?m\<rparr>)) = segmentsUsed w"
    using o by (simp add: segmentsUsed_def)
  then show ?case using closed.prems(3) by (simp add: counts_inv_def)
next
  case (stored r w position w1 k c p ad)
  let ?n = "unat (rh_shardIndex (header r))" and ?w = "storeRecord cz r ad position w1"
  obtain f ix where w1: "w1 = setSegment ?n ((w_segments w ! ?n)\<lparr>sg_indexPositions := f\<rparr>) (w\<lparr>w_index := ix\<rparr>)"
    and ix: "72 * length ix = 72 * length (w_index w) + indexCost r w" and pend: "pendingRecords ?w = Suc (pendingRecords w)"
    by (rule storeRecord_result [OF stored.hyps(1,4)])
  have n: "?n < length (w_segments w)" by (rule ready_valid(3) [OF stored.hyps(1)])
  have opn: "openSegments ?w = openSegments w" by (rule openSegments_storeRecord [OF n w1])
  have pos: "0 < openSegments w" using n stored.hyps(2) by (auto simp: openSegments_def filter_empty_conv)
  have "mf_recordCount (w_manifest ?w) \<noteq> 0" using stored.prems(4) pend by (auto simp: records_inv_def)
  moreover have same: "mf_segmentCount (w_manifest ?w) = mf_segmentCount (w_manifest w)" "length (w_index ?w) = length (w_index w1)"
    "w_nextSegmentNumber ?w = w_nextSegmentNumber w"
    by (simp_all add: w1 storeRecord_def countManifest_def Let_def)
  moreover have "length (w_index w1) \<le> 0xffffffff" using indexFor_bound [OF stored.hyps(4)] stored.prems(3) by (simp add: counts_inv_def)
  moreover have "length (w_index w1) = length ix" by (simp add: w1)
  moreover have "length (w_index w) + (if p then 1 else 0) \<le> length ix" using ix stored.hyps(7) by auto
  ultimately show ?case using stored.prems(3) opn pos by (auto simp: counts_inv_def segmentsUsed_def split: if_splits)
next
  case (unindexed r w k c p)
  have "unat (cf_maximumBytes (w_config w)) div 72 \<le> length (w_index w) \<or> 0xffffffff \<le> length (w_index w)"
    using unindexed.hyps(1)
    by (auto simp: indexFor_def ensureIndex_def Let_def sizeof_IndexEntry_def split: option.splits if_splits)
  moreover have "72 * (length (w_index w) + 1) \<le> unat (cf_maximumBytes (w_config w))"
    using unindexed.prems(2) unindexed.hyps(2) by (simp add: bytes_inv_def spent_def word_le_nat_alt)
  ultimately have "0xffffffff \<le> length (w_index w)" by auto
  then show ?case using unindexed.prems(3) unsigned_less [of "w_nextSegmentNumber w", where 'a = nat]
    by (simp add: counts_inv_def)
next
  case (unspent k' k c' c w)
  then show ?case by (simp add: counts_inv_def)
next
  case (gap g w st w')
  then show ?case
    by (elim counts_inv_frame) (auto simp: appendGapActive_def openSegments_def split: if_splits option.splits)
next
  case (progress q w st w')
  then show ?case by (elim counts_inv_frame) (auto simp: updateProgressActive_def openSegments_def split: if_splits)
next
  case (final ns w)
  then show ?case by (elim counts_inv_frame) (auto simp: finalManifest_def Let_def split: prod.splits)
qed (auto simp: recordSource_def withSources_def withReference_def publishCommitted_def openSegments_def
    elim!: counts_inv_frame)

section \<open>Times\<close>

definition times_inv :: "WriterState \<Rightarrow> bool" where
  "times_inv w = (let m = w_manifest w; s = cf_startedReceiveNs (w_config w); a = mf_replayAnchorReceiveNs m in
     if mf_recordCount m = 0 then mf_firstReceiveNs m = 0 \<and> mf_lastReceiveNs m = 0 \<and> a = s
     else 0 < sint (mf_firstReceiveNs m) \<and> sint (mf_firstReceiveNs m) \<le> sint (mf_lastReceiveNs m) \<and>
       (a = s \<or> sint (mf_firstReceiveNs m) \<le> sint a \<and> sint a \<le> sint (mf_lastReceiveNs m)))"

lemma times_inv_frame:
  "times_inv w \<Longrightarrow> mf_recordCount (w_manifest w') = mf_recordCount (w_manifest w) \<Longrightarrow>
     mf_firstReceiveNs (w_manifest w') = mf_firstReceiveNs (w_manifest w) \<Longrightarrow>
     mf_lastReceiveNs (w_manifest w') = mf_lastReceiveNs (w_manifest w) \<Longrightarrow>
     mf_replayAnchorReceiveNs (w_manifest w') = mf_replayAnchorReceiveNs (w_manifest w) \<Longrightarrow>
     w_config w' = w_config w \<Longrightarrow> times_inv w'"
  by (simp add: times_inv_def Let_def)

theorem times_inv_step:
  assumes "wstep cx cz x y" and "times_inv (fst x)" and "records_inv (fst y)"
  shows "times_inv (fst y)"
  using assms
proof (induction rule: wstep.induct)
  case (stored r w position w1 k c p ad)
  let ?w = "storeRecord cz r ad position w1"
  obtain f ix where w1: "w1 = setSegment (unat (rh_shardIndex (header r)))
      ((w_segments w ! unat (rh_shardIndex (header r)))\<lparr>sg_indexPositions := f\<rparr>) (w\<lparr>w_index := ix\<rparr>)"
    and pend: "pendingRecords ?w = Suc (pendingRecords w)"
    by (rule storeRecord_result [OF stored.hyps(1,4)])
  have some: "mf_recordCount (w_manifest ?w) \<noteq> 0" using stored.prems(2) pend by (auto simp: records_inv_def)
  have ns: "0 < sint (rh_receiveRealtimeNs (header r))" using valid_recordD(3) ready_valid(1) [OF stored.hyps(1)] by blast
  have m: "w_manifest ?w = countManifest (header r) (w_manifest w)" "w_config ?w = w_config w"
    by (simp_all add: w1 storeRecord_def Let_def)
  show ?case using some stored.prems(1) ns unfolding fst_conv times_inv_def m
    by (auto simp: countManifest_def Let_def earliest_def latest_def split: if_splits)
next
  case (block n w encoded)
  then show ?case by (auto elim!: times_inv_frame)
next
  case (gap g w st w')
  then show ?case by (auto simp: appendGapActive_def elim!: times_inv_frame split: if_splits option.splits)
next
  case (progress q w st w')
  then show ?case by (auto simp: updateProgressActive_def elim!: times_inv_frame split: if_splits)
next
  case (final ns w)
  then show ?case by (auto simp: finalManifest_def Let_def elim!: times_inv_frame split: prod.splits)
qed (auto simp: recordSource_def withSources_def withReference_def publishCommitted_def elim!: times_inv_frame)

section \<open>The replay anchor\<close>

definition anchored :: "WriterState \<Rightarrow> WriterState \<Rightarrow> bool" where
  "anchored w w' \<longleftrightarrow> (w_replayAnchorFrozen w \<longrightarrow> w_replayAnchorFrozen w' \<and>
     mf_replayAnchorMonotonicNs (w_manifest w') = mf_replayAnchorMonotonicNs (w_manifest w) \<and>
     mf_replayAnchorReceiveNs (w_manifest w') = mf_replayAnchorReceiveNs (w_manifest w))"

theorem anchored_step:
  assumes "wstep cx cz x y"
  shows "anchored (fst x) (fst y)"
  using assms
proof (induction rule: wstep.induct)
  case (stored r w position w1 k c p ad)
  obtain f ix where w1: "w1 = setSegment (unat (rh_shardIndex (header r)))
      ((w_segments w ! unat (rh_shardIndex (header r)))\<lparr>sg_indexPositions := f\<rparr>) (w\<lparr>w_index := ix\<rparr>)"
    by (rule indexFor_SomeD [OF stored.hyps(4)])
  show ?case using stored.hyps(1)
    by (auto simp: anchored_def w1 storeRecord_def countManifest_def Let_def ready_def)
next
  case (gap g w st w')
  then show ?case by (auto simp: appendGapActive_def anchored_def split: if_splits option.splits)
next
  case (progress q w st w')
  then show ?case by (auto simp: updateProgressActive_def anchored_def split: if_splits)
next
  case (final ns w)
  then show ?case by (auto simp: finalManifest_def Let_def anchored_def split: prod.splits)
qed (auto simp: anchored_def recordSource_def withSources_def withReference_def publishCommitted_def)

lemma anchored_steps: "wsteps cx cz x y \<Longrightarrow> anchored (fst x) (fst y)"
  unfolding wsteps_def
proof (induction rule: rtranclp_induct)
  case (step y z)
  then show ?case using anchored_step by (auto simp: anchored_def)
qed (simp add: anchored_def)

section \<open>All of it\<close>

definition writer_inv :: "cxet \<Rightarrow> compressor \<Rightarrow> ledger \<Rightarrow> bool" where
  "writer_inv cx cz x \<longleftrightarrow> segments_inv cx cz (fst x) \<and> bytes_inv cz x \<and> sources_inv (fst x) \<and> gaps_inv (fst x) \<and>
     records_inv (fst x) \<and> identity_inv (fst x) \<and> blocks_inv cz (fst x) \<and> counts_inv x \<and> times_inv (fst x)"

theorem writer_inv_step:
  assumes "wstep cx cz x y" and "compressor_contract cz" and "writer_inv cx cz x"
  shows "writer_inv cx cz y"
proof -
  have r: "records_inv (fst y)" using records_inv_step assms unfolding writer_inv_def by blast
  then show ?thesis
    using assms segments_inv_step bytes_inv_step sources_inv_step gaps_inv_step identity_inv_step blocks_inv_step
      counts_inv_step times_inv_step unfolding writer_inv_def by metis
qed

lemma writer_inv_steps:
  assumes "wsteps cx cz x y" and "compressor_contract cz" and "writer_inv cx cz x"
  shows "writer_inv cx cz y"
  using assms unfolding wsteps_def by (induction rule: rtranclp_induct) (auto intro: writer_inv_step)

end
