(* ===== verification/WriterStart.thy ===== *)
theory WriterStart
  imports WriterCounts
begin

text \<open>
  A start that succeeds leaves the writer in a state that satisfies every invariant, so every state a
  writer ever has does.
\<close>

lemma startBudget_exact:
  assumes "startBudget cz c = Some b" and "length (cf_sources c) \<le> kBinaryMarketMaximumSources"
  shows "unat (sb_maximumGapRecords b) = length (cf_sources c) * 9"
    and "unat (sb_initialCutReserve b) = 2 * (4096 + 992 * length (cf_sources c))"
    and "unat (sb_fixedMetadata b) = 4672 + 992 * length (cf_sources c) + unat (sb_initialCutReserve b)"
    and "unat (sb_fixedMetadata b) + unat (sb_finalDrainReserve b) + unat (worstRecordBytes cz) \<le> unat (cf_maximumBytes c)"
proof -
  let ?s = "word_of_nat (length (cf_sources c)) :: u64"
  have s: "unat ?s = length (cf_sources c)" using assms(2) by (intro unat_of_length) (simp add: kBinaryMarketMaximumSources_def)
  have u: "unat (word_of_nat kBinaryMarketStoredChannelCount :: u64) = 9" "unat (word_of_nat sizeof_Manifest :: u64) = 192"
    by (simp_all add: kBinaryMarketStoredChannelCount_def sizeof_Manifest_def)
  obtain gaps m1 m2 m3 cut fixed drain b1 min where
    1: "addProduct 0 ?s (word_of_nat kBinaryMarketStoredChannelCount) = Some gaps"
      "addProduct kCutHeaderReserveBytes 2 (word_of_nat sizeof_Manifest) = Some m1" "addProduct m1 3 64 = Some m2"
      "addProduct m2 ?s kSourceStorageBytes = Some m3" "cutReservationBytes ?s gaps 0 0 = Some cut"
      "addProduct m3 1 cut = Some fixed"
    and 2: "addProduct fixed 1 drain = Some b1" "addProduct b1 1 (worstRecordBytes cz) = Some min" "\<not> cf_maximumBytes c < min"
    and b: "b = \<lparr>sb_fixedMetadata = fixed, sb_initialCutReserve = cut, sb_maximumGapRecords = gaps, sb_finalDrainReserve = drain\<rparr>"
    using assms(1) unfolding startBudget_def Let_def
    by (clarsimp simp: bind_eq_Some_conv split: if_splits)
  have g: "unat gaps = length (cf_sources c) * 9" using addProduct_SomeD [OF 1(1)] s u by simp
  have cut: "unat cut = 2 * (4096 + 992 * length (cf_sources c))"
    using 1(5) g s assms(2) unfolding cutReservationBytes_eq Let_def
    by (auto simp: cutBytes_def unat_of_nat unat_word_ariths kBinaryMarketMaximumSources_def split: if_splits)
  show "unat (sb_maximumGapRecords b) = length (cf_sources c) * 9"
    "unat (sb_initialCutReserve b) = 2 * (4096 + 992 * length (cf_sources c))" using g cut b by simp_all
  show "unat (sb_fixedMetadata b) = 4672 + 992 * length (cf_sources c) + unat (sb_initialCutReserve b)"
    using addProduct_SomeD [OF 1(2)] addProduct_SomeD [OF 1(3)] addProduct_SomeD [OF 1(4)] addProduct_SomeD [OF 1(6)] s u b
    by (simp add: unat_constants)
  show "unat (sb_fixedMetadata b) + unat (sb_finalDrainReserve b) + unat (worstRecordBytes cz) \<le> unat (cf_maximumBytes c)"
    using addProduct_SomeD [OF 2(1)] addProduct_SomeD [OF 2(2)] 2(3) b by (simp add: not_less word_le_nat_alt)
qed

lemma start_OkD:
  assumes "start cx cz c root d s = (Ok, s', d')"
  obtains b where "\<not> startConfigInvalid c" "\<forall>n < length (cf_sources c). validBinaryMarketSource (cf_sources c ! n) n"
    "startBudget cz c = Some b" "s' = Some (startState cx c b d')"
proof -
  have a: "\<not> (case s of None \<Rightarrow> False | Some w \<Rightarrow> w_active w)" "\<not> startConfigInvalid c"
    "list_all (\<lambda>n. validBinaryMarketSource (cf_sources c ! n) n) [0..<length (cf_sources c)]"
    using assms unfolding start_def by (simp_all split: if_split_asm)
  then obtain b where b: "startBudget cz c = Some b"
    using assms unfolding start_def by (simp split: option.splits)
  have "s' = Some (startState cx c b d')"
    using assms a b unfolding start_def by (simp split: prod.splits if_split_asm)
  then show ?thesis using that a(2,3) b by (simp add: list_all_iff)
qed

theorem writer_inv_start:
  assumes "start cx cz c root d s = (Ok, Some w, d')" and "list_all source_wf (cf_sources c)"
  shows "writer_inv cx cz (w, 0, 0, False)"
proof -
  obtain b where c: "\<not> startConfigInvalid c" and valid: "\<forall>n < length (cf_sources c). validBinaryMarketSource (cf_sources c ! n) n"
    and sb: "startBudget cz c = Some b" and w: "w = startState cx c b d'"
    using start_OkD [OF assms(1)] by auto
  have len: "length (cf_sources c) \<le> kBinaryMarketMaximumSources" "cf_sources c \<noteq> []"
    using c by (simp_all add: startConfigInvalid_def)
  note ex = startBudget_exact [OF sb len(1)]
  have pend: "pendingRecords w = 0" by (simp add: w startState_def pendingRecords_def sum_list_replicate emptySegment_def)
  have segs: "\<forall>n < length (w_segments w). w_segments w ! n = emptySegment" by (simp add: w startState_def)
  have seg: "segments_inv cx cz w"
    using segs by (simp add: segments_inv_def w startState_def shard_ok_def open_ok_def emptySegment_def)
  have bytes: "bytes_inv cz (w, 0, 0, False)"
    using ex pend c by (simp add: bytes_inv_def spent_def cutNeed_def w startState_def blockBytes_def blockRecords_def
        word_le_nat_alt unat_sub startConfigInvalid_def)
  have src: "sources_inv w" using len valid assms(2) ex
    by (simp add: sources_inv_def w startState_def startManifest_def unat_of_nat kBinaryMarketMaximumSources_def
        kBinaryMarketStoredChannelCount_def)
  have gaps: "gaps_inv w" "records_inv w" "times_inv w" using pend
    by (simp_all add: gaps_inv_def records_inv_def times_inv_def w startState_def startManifest_def blockRecords_def)
  have id: "identity_inv w" using c
    by (simp add: identity_inv_def startConfigInvalid_def w startState_def startManifest_def manifest_wf_def progress_wf_def
        sizeof_Manifest_def kBinaryMarketMaximumShards_def not_less all_zero_def list_all_iff)
  have blocks: "blocks_inv cz w" by (simp add: blocks_inv_def w startState_def list_all_iff emptySegment_def emptySegmentHeader_def)
  have counts: "counts_inv (w, 0, 0, False)"
    by (simp add: counts_inv_def segmentsUsed_def openSegments_def w startState_def startManifest_def emptySegment_def)
  show ?thesis using seg bytes src gaps id blocks counts by (simp add: writer_inv_def)
qed

text \<open>Every state of a session, after a start that succeeded and any calls.\<close>

theorem writer_inv_run:
  assumes "start cx cz c root d s = (Ok, Some w, d')" and "list_all source_wf (cf_sources c)"
    and "compressor_contract cz" and "list_all call_wf as" and "writerRun cx cz as (Some w) = Some w'"
  shows "writer_inv cx cz (w', 0, 0, False)" and "anchored w w'"
proof -
  have s: "wsteps cx cz (w, 0, 0, False) (w', 0, 0, False)" using writerRun_steps [OF assms(4), of cx cz w] assms(5) by auto
  show "writer_inv cx cz (w', 0, 0, False)" by (rule writer_inv_steps [OF s assms(3) writer_inv_start [OF assms(1,2)]])
  show "anchored w w'" using anchored_steps [OF s] by simp
qed

end
