(* ===== verification/WriterProperties.thy ===== *)
theory WriterProperties
  imports WriterStart
begin

text \<open>
  What the writer guarantees of the files it leaves: the byte limit, the cut file, the sealed manifest,
  the replay anchor and the reserve for the final drain.
\<close>

section \<open>Files\<close>

lemma io_files [simp]: "d_files (snd (io d)) = d_files d"
  by (simp add: io_def split: list.split)

lemma io_filesD: "io d = (ok, d') \<Longrightarrow> d_files d' = d_files d"
  using io_files [of d] by simp

lemma writeChunks_files:
  "writeChunks path cs d = (True, d') \<Longrightarrow> d_files d path = Some old \<Longrightarrow>
     d_files d' = (d_files d)(path \<mapsto> old @ concat cs)"
proof (induction cs arbitrary: d old)
  case (Cons c cs)
  obtain d1 where 1: "io d = (True, d1)" using Cons.prems(1) by (cases "io d") (auto simp: andThen_def split: if_splits)
  have "d_files d1 = d_files d" by (rule io_filesD [OF 1])
  then show ?case using Cons.IH [of "putFile path (contents path d1 @ c) d1" "old @ c"] Cons.prems 1
    by (auto simp: andThen_def putFile_def contents_def fun_eq_iff)
qed auto

lemma andThen_True:
  assumes "andThen r f = (True, s')"
  obtains s where "r = (True, s)" "f s = (True, s')"
  using assms by (cases r) (auto simp: andThen_def split: if_splits)

lemma writeFileAtomic_files:
  assumes "writeFileAtomic temporary target chunks d = (True, d')" and "temporary \<noteq> target"
  shows "d_files d' = (d_files d)(target \<mapsto> concat chunks, temporary := None)"
proof -
  obtain d1 d2 d3 d4 d5 where io1: "io d = (True, d1)" and w: "writeChunks temporary chunks (putFile temporary [] d1) = (True, d2)"
    and io3: "io d2 = (True, d3)" and io4: "io d3 = (True, d4)" and r: "renameFile temporary target d4 = (True, d5)"
    and io6: "io d5 = (True, d')"
    using assms(1) unfolding writeFileAtomic_def by (elim andThen_True)
  obtain d6 where io5: "io d4 = (True, d6)"
    and d5: "d5 = d6\<lparr>d_files := (d_files d6)(target := d_files d6 temporary, temporary := None)\<rparr>"
    using r unfolding renameFile_def by (auto elim: andThen_True)
  have 2: "d_files d2 = (d_files d)(temporary \<mapsto> concat chunks)"
    using writeChunks_files [OF w, of "[]"] io_filesD [OF io1] by (simp add: putFile_def)
  show ?thesis
    using 2 io_filesD [OF io3] io_filesD [OF io4] io_filesD [OF io5] io_filesD [OF io6] d5 assms(2)
    by (auto simp: fun_eq_iff)
qed

section \<open>The cut a publication writes\<close>

lemma bindReference_Inl: "bindReference x w = Inl st \<Longrightarrow> st \<noteq> Ok"
  by (auto simp: bindReference_def Let_def split: option.splits prod.splits if_splits)

lemma publishActive_Ok:
  assumes "publishActive cz now w = (Ok, w')"
  obtains w1 x d where "commitSegments cz [0..<length (w_segments w)] w = (True, w1)" "w_cutGeneration w \<noteq> 0xffffffffffffffff"
    "bindReference (nextCut now w1) w1 = Inr x" "w' = publishCommitted x (w1\<lparr>w_disk := d\<rparr>)"
    "d_files d (cf_root (w_config w1) @ ''/cut.bin'') = Some (encodeCorpusCut x)"
proof -
  have gen: "w_cutGeneration w \<noteq> 0xffffffffffffffff" using assms by (auto simp: publishActive_def)
  obtain ok1 w1 where 1: "commitSegments cz [0..<length (w_segments w)] w = (ok1, w1)" by fastforce
  have ok1: "ok1" using assms gen 1 by (auto simp: publishActive_def orReturn_def split: if_splits)
  obtain x where x: "bindReference (nextCut now w1) w1 = Inr x"
    using assms gen 1 ok1 by (auto simp: publishActive_def orReturn_def bindReference_Inl split: option.splits if_splits sum.splits)
  obtain ok2 w2 where 2: "onDisk io w1 = (ok2, w2)" by fastforce
  obtain ok3 w3 where 3: "writeCorpusCut (cf_root (w_config w2)) x w2 = (ok3, w3)" by fastforce
  have ok: "ok2" "ok3" "w' = publishCommitted x w3"
    using assms gen 1 ok1 x 2 3 by (auto simp: publishActive_def orReturn_def split: option.splits if_splits)
  obtain d2 where w2: "w2 = w1\<lparr>w_disk := d2\<rparr>" by (rule onDisk_result [OF 2])
  obtain d3 where f: "writeFileAtomic (cf_root (w_config w1) @ ''/cut.pending'') (cf_root (w_config w1) @ ''/cut.bin'')
      [encodeCorpusCut x] d2 = (True, d3)" and w3: "w3 = w1\<lparr>w_disk := d3\<rparr>"
    using 3 ok(2) w2 by (auto simp: writeCorpusCut_def onDisk_def split: prod.splits)
  have "d_files d3 (cf_root (w_config w1) @ ''/cut.bin'') = Some (encodeCorpusCut x)"
    using writeFileAtomic_files [OF f] by simp
  then show ?thesis using that [of w1 x d3] 1 ok1 gen x ok(3) w3 by simp
qed

lemma bindReference_Inr:
  assumes "bindReference x w = Inr y"
  obtains bs where "y = x\<lparr>ct_referencePayload := bs\<rparr>"
    "length bs = length (w_referencePayload w) \<or> bs = ct_referencePayload x"
  using assms that [of "ct_referencePayload x"] that
  by (auto simp: bindReference_def Let_def split: option.splits prod.splits if_splits)

lemma blocks_le_records:
  "blocks_inv cz w \<Longrightarrow> length (w_blocks w) \<le> blockRecords (w_blocks w)"
proof -
  assume inv: "blocks_inv cz w"
  have "length rs \<le> blockRecords rs" if "\<forall>r \<in> set rs. bk_recordCount (cr_header r) \<noteq> 0" for rs
    using that
  proof (induction rs)
    case (Cons r rs)
    then have "0 < unat (bk_recordCount (cr_header r))" by (simp add: unat_gt_0)
    then show ?case using Cons by (simp add: blockRecords_def)
  qed (simp add: blockRecords_def)
  moreover have "\<forall>r \<in> set (w_blocks w). bk_recordCount (cr_header r) \<noteq> 0"
    using inv by (auto simp: blocks_inv_def list_all_iff rangeInvalid_def Let_def range_of_image)
  ultimately show ?thesis by blast
qed

lemma next_cut_wf:
  assumes "writer_inv cx cz (w, k, c, p)"
  shows "cut_wf ((nextCut now w)\<lparr>ct_referencePayload := bs\<rparr>)"
  using assms by (simp add: writer_inv_def cut_wf_def nextCut_def identity_inv_def sources_inv_def blocks_inv_def
      manifest_wf_def Let_def list_all_iff)

lemma next_cut_length:
  assumes "writer_inv cx cz (w, k, c, p)" and "length bs = length (w_referencePayload w)"
  shows "2 * (sizeof_CutHeader + length (cutPayload ((nextCut now w)\<lparr>ct_referencePayload := bs\<rparr>))) \<le> cutNeed w"
proof -
  have g: "80 * length (w_gaps w) \<le> 720 * length (w_sources w)"
    using assms(1) by (simp add: writer_inv_def gaps_inv_def kBinaryMarketStoredChannelCount_def)
  have b: "length (w_blocks w) \<le> blockRecords (w_blocks w)" using assms(1) blocks_le_records by (auto simp: writer_inv_def)
  have r: "length bs \<le> unat (w_referenceReservedBytes w)" using assms by (simp add: writer_inv_def identity_inv_def Let_def)
  show ?thesis using g b r unfolding length_cutPayload [OF next_cut_wf [OF assms(1)]] cutNeed_def
    by (simp add: nextCut_def sizeof_CutHeader_def)
qed

lemma next_nonzero: "n \<noteq> 0xffffffffffffffff \<Longrightarrow> (n :: u64) + 1 \<noteq> 0"
proof -
  assume "n \<noteq> 0xffffffffffffffff"
  then have "unat n \<noteq> 0xffffffffffffffff" by (simp add: word_unat_eq_iff)
  then have "unat (n + 1) = unat n + 1" using unat_lt64 [of n] by (simp add: unat_word_ariths)
  then show ?thesis by auto
qed

lemma next_cut_contract:
  assumes inv: "writer_inv cx cz (w, k, c, p)" and len: "length bs = length (w_referencePayload w)"
    and now: "now \<noteq> 0" and gen: "w_cutGeneration w \<noteq> 0xffffffffffffffff" and pend: "pendingRecords w = 0"
  shows "cutContract (cz_bound cz) ((nextCut now w)\<lparr>ct_referencePayload := bs\<rparr>)"
proof -
  let ?x = "(nextCut now w)\<lparr>ct_referencePayload := bs\<rparr>"
  have fits: "sizeof_CutHeader + length (cutPayload ?x) \<le> unat (cf_maximumBytes (w_config w))"
    using next_cut_length [OF inv len, of now] inv by (simp add: writer_inv_def bytes_inv_def word_le_nat_alt)
  have "w_cutGeneration w + 1 \<noteq> 0" using gen by (rule next_nonzero)
  then show ?thesis using inv len now pend fits
    unfolding cutContract_def Let_def
    by (simp add: nextCut_def writer_inv_def identity_inv_def sources_inv_def gaps_inv_def records_inv_def blocks_inv_def Let_def list_all_iff
       sizeof_Manifest_def)
qed

lemma commit_pending:
  assumes "commitSegments cz [0..<length (w_segments w)] w = (True, w1)" and "segments_inv cx cz w1"
  shows "pendingRecords w1 = 0"
proof -
  have f: "flushes cx cz w w1" by (rule commitSegments_result(1) [OF assms(1)]) simp
  have len: "length (w_segments w1) = length (w_segments w)" by (rule flushes_length [OF f])
  have "sg_pending (w_segments w1 ! n) = []" if "n < length (w_segments w1)" for n
    using commitSegments_result(2) [OF assms(1)] segments_inv_nth [OF assms(2) that] that len
    by (auto simp: shard_ok_def)
  then have "\<forall>g \<in> set (w_segments w1). length (sg_pending g) = 0" by (auto simp: in_set_conv_nth)
  then show ?thesis unfolding pendingRecords_def by (induction "w_segments w1") auto
qed

lemma wstep_config: "wstep cx cz x y \<Longrightarrow> w_config (fst y) = w_config (fst x)"
proof (induction rule: wstep.induct)
  case (stored r w position w1 k c p ad)
  obtain f ix where "w1 = setSegment (unat (rh_shardIndex (header r)))
      ((w_segments w ! unat (rh_shardIndex (header r)))\<lparr>sg_indexPositions := f\<rparr>) (w\<lparr>w_index := ix\<rparr>)"
    by (rule indexFor_SomeD [OF stored.hyps(4)])
  then show ?case by (simp add: storeRecord_def Let_def)
next
  case (gap g w st w')
  then show ?case by (auto simp: appendGapActive_def split: if_splits option.splits)
next
  case (progress q w st w')
  then show ?case by (auto simp: updateProgressActive_def split: if_splits)
qed (simp_all add: recordSource_def withSources_def withReference_def publishCommitted_def)

lemma wsteps_config: "wsteps cx cz x y \<Longrightarrow> w_config (fst y) = w_config (fst x)"
  unfolding wsteps_def by (induction rule: rtranclp_induct) (simp_all add: wstep_config)

text \<open>What a publication that succeeds leaves, in a state that satisfies the invariant.\<close>

lemma published_cut:
  assumes cz: "compressor_contract cz" and inv: "writer_inv cx cz (w, 0, 0, False)" and now: "now \<noteq> 0"
    and pub: "publishActive cz now w = (Ok, w')"
  obtains x where "pub_latest (w_publication w') = Some x"
    "d_files (w_disk w') (cf_root (w_config w) @ ''/cut.bin'') = Some (encodeCorpusCut x)"
    "decodeCorpusCut (cz_bound cz) (encodeCorpusCut x) = Inr x" "2 * length (encodeCorpusCut x) \<le> unat (w_cutReservedBytes w)"
proof -
  obtain w1 x d where 1: "commitSegments cz [0..<length (w_segments w)] w = (True, w1)" and gen: "w_cutGeneration w \<noteq> 0xffffffffffffffff"
    and b: "bindReference (nextCut now w1) w1 = Inr x" and w': "w' = publishCommitted x (w1\<lparr>w_disk := d\<rparr>)"
    and f: "d_files d (cf_root (w_config w1) @ ''/cut.bin'') = Some (encodeCorpusCut x)"
    by (rule publishActive_Ok [OF pub])
  have fl: "flushes cx cz w w1" by (rule commitSegments_result(1) [OF 1]) simp
  have inv1: "writer_inv cx cz (w1, 0, 0, False)"
    using writer_inv_steps [OF _ cz inv] fl by (simp add: flushes_def)
  have same: "w_config w1 = w_config w" "w_cutGeneration w1 = w_cutGeneration w" "w_cutReservedBytes w1 = w_cutReservedBytes w"
    using fl flushed_same(1,5,12) [of w w1] by (simp_all add: flushes_def)
  have pend: "pendingRecords w1 = 0" using commit_pending [OF 1] inv1 by (auto simp: writer_inv_def)
  obtain bs where x: "x = (nextCut now w1)\<lparr>ct_referencePayload := bs\<rparr>" and "length bs = length (w_referencePayload w1) \<or> bs = ct_referencePayload (nextCut now w1)"
    by (rule bindReference_Inr [OF b])
  then have len: "length bs = length (w_referencePayload w1)" by (auto simp: nextCut_def)
  have wf: "cut_wf x" unfolding x by (rule next_cut_wf [OF inv1])
  have contract: "cutContract (cz_bound cz) x"
    unfolding x by (rule next_cut_contract [OF inv1 len now _ pend]) (use gen same in simp)
  have need: "2 * (sizeof_CutHeader + length (cutPayload x)) \<le> unat (w_cutReservedBytes w)"
    using next_cut_length [OF inv1 len, of now] inv1 same(3) unfolding x by (simp add: writer_inv_def bytes_inv_def)
  then have small: "sizeof_CutHeader + length (cutPayload x) < 2 ^ 64" using unat_lt64 [of "w_cutReservedBytes w"] by simp
  show ?thesis
  proof (rule that)
    show "decodeCorpusCut (cz_bound cz) (encodeCorpusCut x) = Inr x" using decode_encode [OF wf small] contract by simp
    show "2 * length (encodeCorpusCut x) \<le> unat (w_cutReservedBytes w)" using need length_encode [OF wf] by simp
  qed (use w' f same in \<open>simp_all add: publishCommitted_def\<close>)
qed

lemma whenActive_OkD:
  assumes "whenActive f (Some w) = (Ok, s)"
  obtains w' where "w_active w" "f w = (Ok, w')" "s = Some w'"
  using assms by (auto simp: whenActive_def split: if_splits prod.splits)

lemma session_config:
  assumes "start cx cz c root d s = (Ok, Some w, d')" and "list_all call_wf as" and "writerRun cx cz as (Some w) = Some w'"
  shows "w_config w' = c\<lparr>cf_sources := []\<rparr>"
proof -
  have "wsteps cx cz (w, 0, 0, False) (w', 0, 0, False)" using writerRun_steps [OF assms(2), of cx cz w] assms(3) by auto
  from wsteps_config [OF this] show ?thesis using assms(1) by (auto elim!: start_OkD simp: startState_def)
qed

section \<open>A sample session\<close>

definition sample_cz :: compressor where
  "sample_cz = \<lparr>cz_bound = (\<lambda>layout n. 2000 * n),
     cz_encode = (\<lambda>layout raw capacity. if length raw \<le> 2000 * (length raw div bl_recordBytes layout) then Some raw else None)\<rparr>"

lemma sample_contract: "compressor_contract sample_cz"
  by (auto simp: compressor_contract_def sample_cz_def kBinaryMarketBlockRecords_def)

definition sample_config :: BinaryMarketWriterConfig where
  "sample_config = \<lparr>cf_root = ''/corpus'', cf_sources = [sample_source], cf_producerEpoch = 7, cf_maximumBytes = 100000000,
     cf_segmentTargetBytes = 65536, cf_targetDurationNs = 1, cf_startedReceiveNs = 5, cf_startedMonotonicNs = 5,
     cf_ringCapacity = 4, cf_shardCount = 1, cf_referenceVisibilityBinder = None, cf_maximumReferenceBytes = 1000,
     cf_retainedCompressedBytes = 4096, cf_pendingRecordCapacity = 2\<rparr>"

definition sample_disk :: disk where
  "sample_disk = \<lparr>d_files = Map.empty, d_outcomes = []\<rparr>"

lemma sample_budget: "startBudget sample_cz sample_config = Some
    \<lparr>sb_fixedMetadata = 15840, sb_initialCutReserve = 10176, sb_maximumGapRecords = 9, sb_finalDrainReserve = 32976\<rparr>"
  by (simp add: startBudget_def sample_config_def sample_cz_def addProduct_def cutReservationBytes_def worstRecordBytes_def
      binaryMarketPendingRecordBytes_def kCutHeaderReserveBytes_def kSourceStorageBytes_def kSourceReservationBytes_def
      kRecordCutReservationBytes_def sizeof_BinaryMarketSource_def sizeof_Gap_def sizeof_BlockRange_def sizeof_Manifest_def
      sizeof_IndexEntry_def sizeof_SegmentHeader_def sizeof_SegmentFooter_def sizeof_BlockHeader_def
      kBinaryMarketStoredChannelCount_def kBinaryMarketMaximumSources_def)

lemma io_total: "d_outcomes d = [] \<Longrightarrow> io d = (True, d)"
  by (simp add: io_def)

lemma writeChunks_total: "d_outcomes d = [] \<Longrightarrow> \<exists>d'. writeChunks path cs d = (True, d') \<and> d_outcomes d' = []"
  by (induction cs arbitrary: d) (simp_all add: io_total andThen_def putFile_def)

lemma writeFileAtomic_total:
  assumes "d_outcomes d = []"
  shows "\<exists>d'. writeFileAtomic temporary target chunks d = (True, d') \<and> d_outcomes d' = []"
proof -
  obtain d1 where "writeChunks temporary chunks (putFile temporary [] d) = (True, d1)" "d_outcomes d1 = []"
    using writeChunks_total [of "putFile temporary [] d"] assms by (auto simp: putFile_def)
  then show ?thesis using assms by (simp add: writeFileAtomic_def renameFile_def andThen_def io_total)
qed

lemma sample_start:
  "\<exists>w d. start sample_cx sample_cz sample_config RootEmpty sample_disk None = (Ok, Some w, d) \<and>
     w = startState sample_cx sample_config \<lparr>sb_fixedMetadata = 15840, sb_initialCutReserve = 10176,
       sb_maximumGapRecords = 9, sb_finalDrainReserve = 32976\<rparr> d \<and> d_outcomes d = []"
proof -
  have o: "d_outcomes sample_disk = []" by (simp add: sample_disk_def)
  have v: "\<not> startConfigInvalid sample_config" "cf_sources sample_config = [sample_source]"
    by (simp_all add: startConfigInvalid_def sample_config_def sizeof_SegmentHeader_def sizeof_BinaryMarketRecord_def
        sizeof_SegmentFooter_def kBinaryMarketMaximumSources_def kBinaryMarketMaximumShards_def)
  obtain d where "writeManifestAtomic (cf_root sample_config @ ''/manifest.pending'')
      ((startManifest sample_config)\<lparr>mf_stopReason := stopError\<rparr>) sample_disk = (True, d)" "d_outcomes d = []"
    using writeFileAtomic_total [OF o] unfolding writeManifestAtomic_def by blast
  then show ?thesis using v sample_budget sample_source_valid o
    by (simp add: start_def createRoot_def andThen_def io_total)
qed

lemma quiet_publish:
  assumes "d_outcomes (w_disk w) = []" and "w_segments w = [emptySegment]" and "w_cutGeneration w = 0" and "length (w_sources w) = 1"
    and "w_gaps w = []" and "w_blocks w = []" and "w_referencePayload w = []" and "w_cutReservedBytes w = 10176"
    and "cf_referenceVisibilityBinder (w_config w) = None"
  shows "\<exists>w'. publishActive cz now w = (Ok, w') \<and> d_outcomes (w_disk w') = []"
proof -
  have commit: "commitSegments cz [0..<length (w_segments w)] w = (True, w)" using assms(2) by (simp add: emptySegment_def)
  have cut: "cutReservationBytes 1 0 0 0 = Some 8736" by (simp add: cutReservationBytes_eq cutBytes_def)
  obtain d where "writeFileAtomic (cf_root (w_config w) @ ''/cut.pending'') (cf_root (w_config w) @ ''/cut.bin'')
      [encodeCorpusCut (nextCut now w)] (w_disk w) = (True, d)" "d_outcomes d = []"
    using writeFileAtomic_total [OF assms(1)] by blast
  then show ?thesis using assms commit cut
    by (simp add: publishActive_def orReturn_def bindReference_def onDisk_def io_total writeCorpusCut_def publishCommitted_def)
qed

lemma sample_state:
  assumes "w = startState sample_cx sample_config \<lparr>sb_fixedMetadata = 15840, sb_initialCutReserve = 10176,
       sb_maximumGapRecords = 9, sb_finalDrainReserve = 32976\<rparr> d"
  shows "w_segments w = [emptySegment]" "w_active w" "w_cutGeneration w = 0" "w_disk w = d" "w_sources w = [sample_source]"
    "w_gaps w = []" "w_blocks w = []" "w_index w = []" "w_referencePayload w = []" "w_cutReservedBytes w = 10176"
    "cf_referenceVisibilityBinder (w_config w) = None" "list_ex active (w_depthTransactions w) = False"
  by (simp_all add: assms startState_def sample_config_def emptyDepthTransaction_def active_def list_ex_iff)

lemma sample_record_wf: "record_wf (sample_marker cause n)"
  using length_source_image [OF sample_source_wf]
  by (simp add: record_wf_def sample_marker_def lifecyclePayload_image_def kBinaryMarketPayloadBytes_def)

lemma sample_sources_wf: "list_all source_wf (cf_sources sample_config)"
  using sample_source_wf by (simp add: sample_config_def)

section \<open>The byte limit\<close>

text \<open>The bytes of every file of the corpus: both manifests, the three tables, the segments with their
  blocks and the worst block of every record still pending, and the cut with its temporary copy.\<close>

definition corpusBytes :: "compressor \<Rightarrow> u64 \<Rightarrow> WriterState \<Rightarrow> nat" where
  "corpusBytes cz now w = 2 * sizeof_Manifest + 3 * 64 + sizeof_BinaryMarketSource * length (w_sources w) +
     sizeof_IndexEntry * length (w_index w) + sizeof_Gap * length (w_gaps w) +
     (sizeof_SegmentHeader + sizeof_SegmentFooter) * (unat (w_nextSegmentNumber w) - 1) + blockBytes (w_blocks w) +
     pendingRecords w * unat (binaryMarketPendingRecordBytes cz) + 2 * length (encodeCorpusCut (nextCut now w))"

lemma corpus_fits:
  assumes "writer_inv cx cz (w, k, c, p)"
  shows "corpusBytes cz now w \<le> unat (w_projectedBytes w)" and "w_projectedBytes w \<le> cf_maximumBytes (w_config w)"
proof -
  have x: "(nextCut now w)\<lparr>ct_referencePayload := w_referencePayload w\<rparr> = nextCut now w" by (simp add: nextCut_def)
  have cut: "2 * length (encodeCorpusCut (nextCut now w)) \<le> unat (w_cutReservedBytes w)"
    using next_cut_length [OF assms refl, of now] 
      length_encode [OF next_cut_wf [OF assms, where now = now and bs = "w_referencePayload w"]] assms
    unfolding x by (simp add: writer_inv_def bytes_inv_def)
  have gaps: "80 * length (w_gaps w) \<le> 720 * length (w_sources w)"
    using assms by (simp add: writer_inv_def gaps_inv_def kBinaryMarketStoredChannelCount_def)
  have "spent cz w + unat (w_cutReservedBytes w) \<le> unat (w_projectedBytes w)"
    using assms by (simp add: writer_inv_def bytes_inv_def)
  then show "corpusBytes cz now w \<le> unat (w_projectedBytes w)" using cut gaps
    by (simp add: corpusBytes_def spent_def prb_def sizeof_Manifest_def sizeof_BinaryMarketSource_def sizeof_IndexEntry_def
        sizeof_Gap_def sizeof_SegmentHeader_def sizeof_SegmentFooter_def mult.commute)
  show "w_projectedBytes w \<le> cf_maximumBytes (w_config w)" using assms by (auto simp: writer_inv_def bytes_inv_def)
qed



section \<open>Publication\<close>

lemma publish_not_corrupt:
  assumes cz: "compressor_contract cz" and inv: "writer_inv cx cz (w, 0, 0, False)"
    and bound: "\<forall>f. cf_referenceVisibilityBinder (w_config w) = Some f \<longrightarrow> (\<forall>new old g n. fst (f new old g n) \<noteq> CorruptData)"
  shows "fst (publishActive cz now w) \<noteq> CorruptData"
proof -
  obtain ok1 w1 where 1: "commitSegments cz [0..<length (w_segments w)] w = (ok1, w1)" by fastforce
  have fl: "flushes cx cz w w1" by (rule commitSegments_result(1) [OF 1]) simp
  have inv1: "writer_inv cx cz (w1, 0, 0, False)" using writer_inv_steps [OF _ cz inv] fl by (simp add: flushes_def)
  have conf: "w_config w1 = w_config w" using fl flushed_same(1) [of w w1] by (simp add: flushes_def)
  have s: "length (w_sources w1) \<le> 65536" and g: "length (w_gaps w1) \<le> 9 * length (w_sources w1)"
    and b: "length (w_blocks w1) \<le> blockRecords (w_blocks w1)" and r: "length (w_referencePayload w1) \<le> unat (w_referenceReservedBytes w1)"
    and c: "cutNeed w1 \<le> unat (w_cutReservedBytes w1)"
    using inv1 blocks_le_records by (auto simp: writer_inv_def sources_inv_def gaps_inv_def identity_inv_def Let_def bytes_inv_def
        kBinaryMarketMaximumSources_def kBinaryMarketStoredChannelCount_def)
  let ?n = "cutBytes (length (w_sources w1)) (length (w_gaps w1)) (length (w_blocks w1)) (length (w_referencePayload w1))"
  have n: "?n \<le> unat (w_cutReservedBytes w1)" using g b r c by (simp add: cutBytes_def cutNeed_def)
  have lt: "unat (w_cutReservedBytes w1) < 2 ^ 64" by (rule unat_lt64)
  have small: "length (w_sources w1) < 2 ^ 64" "length (w_gaps w1) < 2 ^ 64" "length (w_blocks w1) < 2 ^ 64"
    "length (w_referencePayload w1) < 2 ^ 64" using n lt by (simp_all add: cutBytes_def)
  have "cutReservationBytes (word_of_nat (length (w_sources w1))) (word_of_nat (length (w_gaps w1)))
      (word_of_nat (length (w_blocks w1))) (word_of_nat (length (w_referencePayload w1))) = Some (word_of_nat ?n)"
    unfolding cutReservationBytes_eq Let_def unat_of_length [OF small(1)] unat_of_length [OF small(2)] unat_of_length [OF small(3)] unat_of_length [OF small(4)]
    using n lt by simp
  moreover have "\<not> w_cutReservedBytes w1 < word_of_nat ?n" using n lt by (simp add: word_less_nat_alt unat_of_nat)
  moreover have "bindReference (nextCut now w1) w1 = Inl st \<Longrightarrow> st \<noteq> CorruptData" for st
    using bound conf by (auto simp: bindReference_def Let_def split: option.splits prod.splits if_splits) (metis fst_conv)+
  ultimately show ?thesis using 1
    by (auto simp: publishActive_def orReturn_def split: sum.splits prod.splits)
qed



text \<open>C2: After a publication that succeeded the file \<^verbatim>\<open>cut.bin\<close> decodes to exactly the cut the writer
  holds as its latest, whatever calls and failures came before: the writer's bookkeeping always meets
  the checks of the decoder.\<close>

theorem published_cut_reads_back:
  assumes "start cx cz c root d s = (Ok, Some w, d')" and "list_all source_wf (cf_sources c)"
    and "compressor_contract cz" and "list_all call_wf as" and "writerRun cx cz as (Some w) = Some w'"
    and "now \<noteq> 0" and "publishCut cz now (Some w') = (Ok, Some w'')"
  shows "\<exists>x bytes. latestCut (Some w'') = Some x \<and> d_files (w_disk w'') (cf_root c @ ''/cut.bin'') = Some bytes \<and>
     decodeCorpusCut (cz_bound cz) bytes = Inr x"
proof -
  have p: "publishActive cz now w' = (Ok, w'')" using assms(7) by (auto simp: publishCut_def elim!: whenActive_OkD)
  obtain x where "pub_latest (w_publication w'') = Some x"
    "d_files (w_disk w'') (cf_root (w_config w') @ ''/cut.bin'') = Some (encodeCorpusCut x)"
    "decodeCorpusCut (cz_bound cz) (encodeCorpusCut x) = Inr x"
    by (rule published_cut [OF assms(3) writer_inv_run(1) [OF assms(1-5)] assms(6) p])
  then show ?thesis using session_config [OF assms(1,4,5)] by (simp add: latestCut_def)
qed

theorem published_cut_reads_back_witness:
  "\<exists>w w'' d x bytes. start sample_cx sample_cz sample_config RootEmpty sample_disk None = (Ok, Some w, d) \<and>
     publishCut sample_cz 9 (Some w) = (Ok, Some w'') \<and> latestCut (Some w'') = Some x \<and>
     d_files (w_disk w'') ''/corpus/cut.bin'' = Some bytes \<and> decodeCorpusCut (cz_bound sample_cz) bytes = Inr x"
proof -
  obtain w d where s: "start sample_cx sample_cz sample_config RootEmpty sample_disk None = (Ok, Some w, d)"
    and w: "w = startState sample_cx sample_config \<lparr>sb_fixedMetadata = 15840, sb_initialCutReserve = 10176,
       sb_maximumGapRecords = 9, sb_finalDrainReserve = 32976\<rparr> d" and d: "d_outcomes d = []"
    using sample_start by blast
  obtain w'' where p: "publishCut sample_cz 9 (Some w) = (Ok, Some w'')"
    using quiet_publish [of w sample_cz 9] sample_state [OF w] d by (auto simp: publishCut_def whenActive_def)
  show ?thesis
    using published_cut_reads_back [OF s sample_sources_wf sample_contract _ _ _ p, of "[]"] s p by (auto simp: sample_config_def)
qed

end
