(* ===== verification/WriterFinal.thy ===== *)
theory WriterFinal
  imports WriterProperties
begin

text \<open>
  What a finalization that succeeds leaves: every segment closed and a sealed manifest that the readers
  accept.
\<close>

section \<open>Sealing touches one segment\<close>

definition only :: "nat \<Rightarrow> WriterState \<Rightarrow> WriterState \<Rightarrow> bool" where
  "only n w w' \<longleftrightarrow> (\<forall>m. m \<noteq> n \<longrightarrow> w_segments w' ! m = w_segments w ! m)"

lemma only_refl [simp]: "only n w w"
  by (simp add: only_def)

lemma only_trans: "only n a b \<Longrightarrow> only n b c \<Longrightarrow> only n a c"
  by (simp add: only_def)

lemma only_set [simp]: "only n w (setSegment n g w') \<longleftrightarrow> only n w w'"
  by (auto simp: only_def setSegment_def)

lemma only_frame [simp]: "only n w (w'\<lparr>w_disk := d\<rparr>) \<longleftrightarrow> only n w w'" "only n w (w'\<lparr>w_manifest := m\<rparr>) \<longleftrightarrow> only n w w'"
  by (simp_all add: only_def)

lemma only_andThen: "only n w (snd r) \<Longrightarrow> (\<And>s. only n w s \<Longrightarrow> only n w (snd (f s))) \<Longrightarrow> only n w (snd (andThen r f))"
  by (cases r) (auto simp: andThen_def)

lemma only_onDisk: "only n w v \<Longrightarrow> only n w (snd (onDisk f v))"
  by (simp add: onDisk_def split: prod.split)

lemma only_streamWrite: "only n w v \<Longrightarrow> only n w (snd (streamWrite n edit v))"
  using only_onDisk [of n w v io] by (auto simp: streamWrite_def Let_def split: prod.splits)

lemma only_storeBlock: "only n w v \<Longrightarrow> only n w (storeBlock cz n encoded v)"
  by (simp add: storeBlock_def Let_def) (simp add: only_def)

lemma only_flushBlock: "only n w v \<Longrightarrow> only n w (snd (flushBlock cz n v))"
  unfolding flushBlock_def writeBytes_def Let_def
  by (simp split: option.split) (intro impI allI only_andThen only_streamWrite, simp_all add: only_storeBlock)

lemma only_sealTail: "only n w v \<Longrightarrow> only n w (snd (sealTail n v))"
  unfolding sealTail_def Let_def writeBytes_def rewriteStart_def flushStream_def
  by (intro only_andThen only_streamWrite only_onDisk) simp_all

lemma only_sealSegment: "only n w (snd (sealSegment cz n w))"
  unfolding sealSegment_def by (auto intro!: only_andThen only_flushBlock only_sealTail)

lemma sealAll_closed:
  assumes "sealAll cz ns w = (True, w')" and "\<forall>n \<in> set ns. n < length (w_segments w)"
  shows "length (w_segments w') = length (w_segments w) \<and>
    (\<forall>n. n \<in> set ns \<or> \<not> sg_open (w_segments w ! n) \<longrightarrow> \<not> sg_open (w_segments w' ! n))"
  using assms
proof (induction ns arbitrary: w)
  case (Cons n ns)
  obtain w1 where 1: "sealSegment cz n w = (True, w1)" "sealAll cz ns w1 = (True, w')"
    using Cons.prems(1) by (auto elim: andThen_True)
  have m: "moves undefined cz n w w1" "\<not> sg_open (w_segments w1 ! n)"
    using sealSegment_result [OF 1(1)] Cons.prems(2) by auto
  then have len: "length (w_segments w1) = length (w_segments w)" by (simp add: moves_def carried_def)
  have "only n w w1" using only_sealSegment [of n w cz] 1(1) by simp
  then have "\<not> sg_open (w_segments w ! j) \<or> j = n \<Longrightarrow> \<not> sg_open (w_segments w1 ! j)" for j
    using m(2) by (cases "j = n") (auto simp: only_def)
  then show ?case using Cons.IH [OF 1(2)] Cons.prems(2) len by auto
qed simp

lemma commitSegments_closed: "\<forall>n \<in> set ns. \<not> sg_open (w_segments w ! n) \<Longrightarrow> commitSegments cz ns w = (True, w)"
  by (induction ns) simp_all

section \<open>The manifest of a finalized corpus\<close>

lemma removeFile_other: "q \<noteq> path \<Longrightarrow> d_files (removeFile path d) q = d_files d q"
  using io_filesD [of d] by (cases "io d") (simp add: removeFile_def)

lemma finalizeActive_Ok:
  assumes "finalizeActive cz reason ns now w = (Ok, w')"
  obtains v crcs where "w_manifest w' = (finalManifest reason ns crcs v)\<lparr>mf_projectedBytes := w_projectedBytes w'\<rparr>"
    "w_index w' = w_index v" "w_config w' = w_config v" "\<forall>n < length (w_segments w'). \<not> sg_open (w_segments w' ! n)"
    "d_files (w_disk w') (cf_root (w_config w') @ ''/manifest.bin'') = Some (manifest_image (sealManifest (w_manifest w')))"
    "\<not> w_active w'" "0 < sint ns" "stopRequested \<le> reason" "reason \<le> stopError"
proof -
  have args: "\<not> sint ns \<le> 0" "\<not> reason < stopRequested" "\<not> stopError < reason" "\<not> list_ex active (w_depthTransactions w)"
    using assms by (auto simp: finalizeActive_def split: if_splits)
  obtain ok1 w1 where 1: "sealAll cz [0..<length (w_segments w)] w = (ok1, w1)" by fastforce
  obtain crcs0 w2 where 2: "writeTables w1 = (crcs0, w2)" by fastforce
  have ok1: "ok1" using assms args 1 by (auto simp: finalizeActive_def orReturn_def split: if_splits)
  obtain crcs where crcs: "crcs0 = Some crcs"
    using assms args 1 2 ok1 by (cases crcs0) (auto simp: finalizeActive_def orReturn_def split: if_splits)
  let ?v = "w2\<lparr>w_manifest := finalManifest reason ns crcs w2\<rparr>"
  obtain st w3 where 3: "publishActive cz now ?v = (st, w3)" by fastforce
  let ?m = "(w_manifest w3)\<lparr>mf_projectedBytes := w_projectedBytes w3\<rparr>" and ?root = "cf_root (w_config w3)"
  obtain ok5 d5 where 5: "writeManifestAtomic (?root @ ''/manifest.bin'') ?m (w_disk w3) = (ok5, d5)" by fastforce
  have run: "finalizeActive cz reason ns now w = (if \<not> isOk st then (st, w3) else if ok5 then (Ok, w3\<lparr>w_manifest := ?m,
      w_disk := removeFile (?root @ ''/manifest.pending'') d5, w_active := False\<rparr>) else (IoError, w3\<lparr>w_manifest := ?m, w_disk := d5\<rparr>))"
    using args 1 2 3 5 ok1 crcs by (simp add: finalizeActive_def orReturn_def Let_def onDisk_def)
  then have ok: "isOk st" "ok5" and w': "w' = w3\<lparr>w_manifest := ?m,
      w_disk := removeFile (?root @ ''/manifest.pending'') d5, w_active := False\<rparr>"
    using assms by (auto split: if_splits)
  have st: "st = Ok" using ok(1) by (cases st) simp_all
  have closed: "\<forall>n < length (w_segments w1). \<not> sg_open (w_segments w1 ! n)"
    using sealAll_closed [of cz "[0..<length (w_segments w)]" w w1] 1 ok1 by auto
  obtain d2 where w2: "w2 = w1\<lparr>w_disk := d2\<rparr>" by (rule writeTables_result [OF 2])
  obtain w4 x d4 where 4: "commitSegments cz [0..<length (w_segments ?v)] ?v = (True, w4)" "w3 = publishCommitted x (w4\<lparr>w_disk := d4\<rparr>)"
    using publishActive_Ok [OF 3 [unfolded st]] by metis
  have w4: "w4 = ?v" using commitSegments_closed [of "[0..<length (w_segments ?v)]" ?v cz] closed 4(1) w2 by simp
  have f: "d_files d5 = (d_files (w_disk w3))(?root @ ''/manifest.bin'' \<mapsto> manifest_image (sealManifest ?m), ?root @ ''/manifest.bin.tmp'' := None)"
    using writeFileAtomic_files [of "(?root @ ''/manifest.bin'') @ ''.tmp''" "?root @ ''/manifest.bin''"] 5 ok(2)
    by (simp add: writeManifestAtomic_def)
  show ?thesis
  proof (rule that [where crcs = crcs and v = w2])
    show "d_files (w_disk w') (cf_root (w_config w') @ ''/manifest.bin'') = Some (manifest_image (sealManifest (w_manifest w')))"
      using f w' by (simp add: removeFile_other)
  qed (use w' 4(2) w4 closed w2 args in \<open>simp_all add: publishCommitted_def not_less not_le\<close>)
qed

lemma final_manifest_valid:
  assumes inv: "writer_inv cx cz (w, 0, 0, False)" and m: "w_manifest w = (finalManifest reason ns crcs v)\<lparr>mf_projectedBytes := w_projectedBytes w\<rparr>"
    and v: "w_index w = w_index v" "w_config w = w_config v" and closed: "\<forall>n < length (w_segments w). \<not> sg_open (w_segments w ! n)"
    and args: "0 < sint ns" "stopRequested \<le> reason" "reason < stopError"
  shows "\<not> manifestFieldsInvalid ((w_manifest w)\<lparr>mf_headerBytes := 192\<rparr>)" and "\<not> manifestCountsInvalid (w_manifest w)"
proof -
  let ?m = "w_manifest w" and ?s = "cf_startedReceiveNs (w_config w)"
  have opn: "openSegments w = 0" using closed by (auto simp: openSegments_def filter_empty_conv in_set_conv_nth)
  have fields: "mf_complete ?m = 1" "mf_stopReason ?m = reason" "mf_projectedBytes ?m = w_projectedBytes w"
    "mf_indexCount ?m = word_of_nat (length (w_index w))"
    "mf_startedReceiveNs ?m = (if 0 < sint (mf_firstReceiveNs ?m) then minNs ?s (mf_firstReceiveNs ?m) else ?s)"
    "mf_finalizedReceiveNs ?m = maxNs (maxNs ns ?s) (mf_lastReceiveNs ?m)"
    using m v args by (simp_all add: finalManifest_def Let_def split: prod.splits)
  have reason: "\<not> stopParserDisconnected < reason" using args(3) by (simp add: stopParserDisconnected_def stopError_def word_less_nat_alt)
  have id: "identity_inv w" and times: "times_inv w" and src: "sources_inv w" and bytes: "bytes_inv cz (w, 0, 0, False)"
    and counts: "counts_inv (w, 0, 0, False)" and gaps: "gaps_inv w"
    using inv by (simp_all add: writer_inv_def)
  have budget: "4672 + 72 * length (w_index w) \<le> unat (w_projectedBytes w)" "w_projectedBytes w \<le> cf_maximumBytes (w_config w)"
    using bytes by (auto simp: bytes_inv_def spent_def)
  then have nonzero: "w_projectedBytes w \<noteq> 0" "cf_maximumBytes (w_config w) \<noteq> 0" by auto
  have s: "0 < sint ?s" using id by (simp add: identity_inv_def Let_def)
  have final: "sint ?s \<le> sint (mf_finalizedReceiveNs ?m)" "sint (mf_lastReceiveNs ?m) \<le> sint (mf_finalizedReceiveNs ?m)"
    unfolding fields(6) by (simp_all add: maxNs_def)
  have start: "sint (mf_startedReceiveNs ?m) \<le> sint ?s" "0 < sint (mf_startedReceiveNs ?m)"
    "0 < sint (mf_firstReceiveNs ?m) \<Longrightarrow> sint (mf_startedReceiveNs ?m) \<le> sint (mf_firstReceiveNs ?m)"
    unfolding fields(5) using s by (simp_all add: minNs_def)
  have anchor: "sint (mf_startedReceiveNs ?m) \<le> sint (mf_replayAnchorReceiveNs ?m)"
    "sint (mf_replayAnchorReceiveNs ?m) \<le> sint (mf_finalizedReceiveNs ?m)"
    using times start final by (auto simp: times_inv_def Let_def split: if_splits)
  show "\<not> manifestFieldsInvalid ((w_manifest w)\<lparr>mf_headerBytes := 192\<rparr>)"
    using id src nonzero budget(2) start anchor final args(2) reason
    unfolding manifestFieldsInvalid_def identity_inv_def sources_inv_def Let_def
    by (auto simp: fields(1-3) sizeof_Manifest_def unat_eq_0)
  have index: "unat (mf_indexCount ?m) = length (w_index w)" unfolding fields(4) using counts by (simp add: counts_inv_def unat_of_nat)
  have room: "length (w_index w) \<le> unat (cf_maximumBytes (w_config w)) div 72"
    using budget unfolding word_le_nat_alt by linarith
  have used: "unat (mf_segmentCount ?m) \<le> length (w_index w)" "mf_recordCount ?m = 0 \<longleftrightarrow> w_index w = []"
    "mf_recordCount ?m \<noteq> 0 \<Longrightarrow> mf_segmentCount ?m \<noteq> 0"
    using counts opn by (auto simp: counts_inv_def segmentsUsed_def)
  have seg: "(mf_recordCount ?m \<noteq> 0) = (mf_segmentCount ?m \<noteq> 0)" "(mf_recordCount ?m \<noteq> 0) = (mf_indexCount ?m \<noteq> 0)"
    "\<not> mf_indexCount ?m < mf_segmentCount ?m"
    using used index by (auto simp: word_less_nat_alt unat_eq_0)
  have gap: "unat (mf_gapCount ?m) \<le> unat (mf_sourceCount ?m) * kBinaryMarketStoredChannelCount"
    using gaps src by (simp add: gaps_inv_def sources_inv_def)
  have zero: "all_zero (mf_reserved ?m)" and max: "mf_maximumBytes ?m = cf_maximumBytes (w_config w)"
    using id by (simp_all add: identity_inv_def Let_def)
  show "\<not> manifestCountsInvalid (w_manifest w)"
    using times seg gap zero room index unfolding manifestCountsInvalid_def times_inv_def Let_def max
    by (auto simp: sizeof_IndexEntry_def split: if_splits)
qed


lemma writeTable_total:
  assumes "d_outcomes (w_disk w) = []" and "length rows \<le> 0xffffffff"
  shows "\<exists>crc d. writeTableAtomic target magic n g rows w = (Some crc, w\<lparr>w_disk := d\<rparr>) \<and> d_outcomes d = []"
  using writeFileAtomic_total [OF assms(1)] assms(2)
  by (auto simp: writeTableAtomic_def onDisk_def Let_def split: prod.splits) (metis prod.inject)+

lemma writeTables_total:
  assumes "d_outcomes (w_disk w) = []" and "length (w_sources w) \<le> 0xffffffff" and "length (w_index w) \<le> 0xffffffff"
    and "length (w_gaps w) \<le> 0xffffffff"
  shows "\<exists>crcs d. writeTables w = (Some crcs, w\<lparr>w_disk := d\<rparr>) \<and> d_outcomes d = []"
proof -
  let ?root = "cf_root (w_config w)"
  obtain a d1 where 1: "writeTableAtomic (?root @ ''/sources.bin'') kBinaryMarketSourcesMagic sizeof_BinaryMarketSource source_image
      (w_sources w) w = (Some a, w\<lparr>w_disk := d1\<rparr>)" "d_outcomes d1 = []"
    using writeTable_total [OF assms(1,2)] by blast
  obtain b d2 where 2: "writeTableAtomic (?root @ ''/index.bin'') kBinaryMarketIndexMagic sizeof_IndexEntry indexEntry_image
      (w_index w) (w\<lparr>w_disk := d1\<rparr>) = (Some b, w\<lparr>w_disk := d2\<rparr>)" "d_outcomes d2 = []"
    using writeTable_total [of "w\<lparr>w_disk := d1\<rparr>" "w_index w"] 1(2) assms(3) by fastforce
  obtain e d3 where 3: "writeTableAtomic (?root @ ''/gaps.bin'') kBinaryMarketGapsMagic sizeof_Gap gap_image
      (w_gaps w) (w\<lparr>w_disk := d2\<rparr>) = (Some e, w\<lparr>w_disk := d3\<rparr>)" "d_outcomes d3 = []"
    using writeTable_total [of "w\<lparr>w_disk := d2\<rparr>" "w_gaps w"] 2(2) assms(4) by fastforce
  show ?thesis using 1 2 3 by (intro exI [of _ "(a, b, e)"] exI [of _ d3]) (simp add: writeTables_def Let_def)
qed

lemma writeManifest_total: "d_outcomes d = [] \<Longrightarrow> \<exists>d'. writeManifestAtomic target m d = (True, d')"
  using writeFileAtomic_total [of d] unfolding writeManifestAtomic_def by blast


end
