(* ===== verification/WriterDrain.thy ===== *)
theory WriterDrain
  imports WriterFinal
begin

text \<open>
  The bytes held back at start are enough for the records still in flight when the final drain begins.
\<close>

section \<open>Quota and projected bytes\<close>

definition money :: "WriterState \<Rightarrow> WriterState \<Rightarrow> bool" where
  "money w w' \<longleftrightarrow> w_quotaReached w' = w_quotaReached w \<and> w_writeLimitBytes w' = w_writeLimitBytes w \<and>
     w_projectedBytes w' = w_projectedBytes w"

text \<open>The quota flag and the limit stay, and the projection does not grow.\<close>

definition calm :: "WriterState \<Rightarrow> WriterState \<Rightarrow> bool" where
  "calm w w' \<longleftrightarrow> w_quotaReached w' = w_quotaReached w \<and> w_writeLimitBytes w' = w_writeLimitBytes w \<and>
     w_projectedBytes w' \<le> w_projectedBytes w"

lemma calm_refl [simp]: "calm w w"
  by (simp add: calm_def)

lemma calm_trans: "calm a b \<Longrightarrow> calm b c \<Longrightarrow> calm a c"
  by (auto simp: calm_def)

lemma money_calm: "money w w' \<Longrightarrow> calm w w'"
  by (simp add: money_def calm_def)

lemma money_frame [simp]:
  "money w w" "money w (setSegment n g w') \<longleftrightarrow> money w w'" "money w (w'\<lparr>w_disk := d\<rparr>) \<longleftrightarrow> money w w'"
  "money w (w'\<lparr>w_manifest := m\<rparr>) \<longleftrightarrow> money w w'" "money w (w'\<lparr>w_nextSegmentNumber := q\<rparr>) \<longleftrightarrow> money w w'"
  "money w (w'\<lparr>w_index := ix\<rparr>) \<longleftrightarrow> money w w'" "money w (recordSource ad w') \<longleftrightarrow> money w w'"
  "money w (storeRecord cz r ad position w') \<longleftrightarrow> money w w'"
  by (simp_all add: money_def setSegment_def recordSource_def storeRecord_def Let_def)

lemma money_andThen: "money w (snd r) \<Longrightarrow> (\<And>s. money w s \<Longrightarrow> money w (snd (f s))) \<Longrightarrow> money w (snd (andThen r f))"
  by (cases r) (auto simp: andThen_def)

lemma money_onDisk: "money w v \<Longrightarrow> money w (snd (onDisk f v))"
  by (simp add: onDisk_def split: prod.split)

lemma money_streamWrite: "money w v \<Longrightarrow> money w (snd (streamWrite n edit v))"
  using money_onDisk [of w v io] by (auto simp: streamWrite_def Let_def split: prod.splits)

lemma money_sealTail: "money w v \<Longrightarrow> money w (snd (sealTail n v))"
  unfolding sealTail_def Let_def writeBytes_def rewriteStart_def flushStream_def
  by (intro money_andThen money_streamWrite money_onDisk) simp_all

lemma money_openSegment: "money w v \<Longrightarrow> money w (snd (openSegment cz i v))"
  unfolding openSegment_def Let_def writeBytes_def
  by (simp, intro impI, intro money_andThen money_streamWrite money_onDisk) simp_all

lemma money_ensureIndex: "money w v \<Longrightarrow> money w (snd (ensureIndex i src gen ch v))"
  by (simp add: ensureIndex_def Let_def split: option.split)

lemma flushBlock_calm:
  assumes cz: "compressor_contract cz" and inv: "writer_inv cx cz (w, k, c, p)" and n: "n < length (w_segments w)"
    and opn: "sg_open (w_segments w ! n)"
  shows "calm w (snd (flushBlock cz n w))"
proof -
  let ?g = "w_segments w ! n"
  have seg: "segments_inv cx cz w" and bytes: "bytes_inv cz (w, k, c, p)" using inv by (simp_all add: writer_inv_def)
  obtain ok w' where f: "flushBlock cz n w = (ok, w')" by fastforce
  show ?thesis
  proof (cases "money w w'")
    case True
    then show ?thesis using f money_calm by simp
  next
    case False
    obtain e where e: "blockAccepted cz ?g e" "andThen (writeBytes n (marketBlock_image (blockHeaderFor ?g e)) w)
        (\<lambda>w. andThen (writeBytes n e w) (\<lambda>w. (True, storeBlock cz n e w))) = (ok, w')"
      using f False opn by (auto simp: flushBlock_def Let_def blockAccepted_def not_less split: if_splits option.splits)
    obtain ok1 w1 where 1: "writeBytes n (marketBlock_image (blockHeaderFor ?g e)) w = (ok1, w1)" by fastforce
    obtain ok2 w2 where 2: "writeBytes n e w1 = (ok2, w2)" by fastforce
    have m: "money w w1" "money w w2"
      using money_streamWrite [of w w n] money_streamWrite [of w w1 n] 1 2 unfolding writeBytes_def by (metis money_frame(1) snd_conv)+
    have ok: "ok1" "ok2" "w' = storeBlock cz n e w2" using e(2) 1 2 m False by (auto simp: andThen_def split: if_splits)
    obtain d where "w' = storeBlock cz n e (w\<lparr>w_disk := d\<rparr>)"
      using ok 1 2 unfolding writeBytes_def by (auto dest!: streamWrite_ok)
    then have w': "w_projectedBytes w' = w_projectedBytes (storeBlock cz n e w)" "w_quotaReached w' = w_quotaReached w"
        "w_writeLimitBytes w' = w_writeLimitBytes w"
      by (simp_all add: storeBlock_def Let_def setSegment_def)
    have "unat (w_projectedBytes (storeBlock cz n e w)) \<le> unat (w_projectedBytes w)"
      using storeBlock_projected [OF cz seg n e(1) bytes] accepted_block(5) [OF cz seg n e(1)] by linarith
    then show ?thesis using f w' by (simp add: calm_def word_le_nat_alt)
  qed
qed

lemma flushes_inv:
  "flushes cx cz w w' \<Longrightarrow> compressor_contract cz \<Longrightarrow> writer_inv cx cz (w, k, c, p) \<Longrightarrow> writer_inv cx cz (w', k, c, p)"
  unfolding flushes_def by (meson writer_inv_steps)

lemma flushOpen_calm:
  assumes "compressor_contract cz" and "writer_inv cx cz (w, k, c, p)" and "\<forall>n \<in> set ns. n < length (w_segments w)"
  shows "calm w (snd (flushOpen cz ns w))"
  using assms
proof (induction ns arbitrary: w)
  case (Cons n ns)
  show ?case
  proof (cases "sg_open (w_segments w ! n)")
    case True
    obtain ok1 w1 where 1: "flushBlock cz n w = (ok1, w1)" by fastforce
    have f: "flushes cx cz w w1" using flushBlock_result(1) [OF 1] True Cons.prems(3) by simp
    have c1: "calm w w1" using flushBlock_calm [OF Cons.prems(1,2) _ True] Cons.prems(3) 1 by simp
    have "calm w1 (snd (flushOpen cz ns w1))"
      using Cons.IH [OF Cons.prems(1) flushes_inv [OF f Cons.prems(1,2)]] flushes_length [OF f] Cons.prems(3) by simp
    then show ?thesis using True 1 c1 calm_trans by (auto simp: andThen_def)
  qed (use Cons in simp)
qed simp

lemma sealSegment_calm:
  assumes "compressor_contract cz" and "writer_inv cx cz (w, k, c, p)"
  shows "calm w (snd (sealSegment cz n w))"
proof (cases "n < length (w_segments w) \<and> sg_open (w_segments w ! n)")
  case True
  obtain ok1 w1 where 1: "flushBlock cz n w = (ok1, w1)" by fastforce
  have "calm w w1" using flushBlock_calm [OF assms] True 1 by fastforce
  moreover have "calm w1 (snd (sealTail n w1))" using money_calm [OF money_sealTail [of w1 w1 n]] by simp
  ultimately show ?thesis using True 1 calm_trans by (auto simp: sealSegment_def andThen_def)
qed (auto simp: sealSegment_def)

section \<open>One append\<close>

definition appendCost :: "compressor \<Rightarrow> bool \<Rightarrow> nat" where
  "appendCost cz newSource = prb cz + 456 + (if newSource then 2976 else 0)"

text \<open>The projection after a call is at most the projection before it and the cost, within a limit that
  leaves room for the cost, and the quota flag does not change.\<close>

definition within :: "nat \<Rightarrow> WriterState \<Rightarrow> WriterState \<Rightarrow> bool" where
  "within cost w w' \<longleftrightarrow> w_quotaReached w' = w_quotaReached w \<and> w_writeLimitBytes w' = w_writeLimitBytes w \<and>
     unat (w_projectedBytes w') \<le> unat (w_projectedBytes w) + cost"

lemma calm_within: "calm w w' \<Longrightarrow> within cost w w'"
  by (auto simp: calm_def within_def word_le_nat_alt)

lemma within_calm: "calm a b \<Longrightarrow> within cost b c \<Longrightarrow> within cost a c"
  by (auto simp: calm_def within_def word_le_nat_alt)

lemma calm_after: "within cost a b \<Longrightarrow> calm b c \<Longrightarrow> within cost a c"
  by (auto simp: calm_def within_def word_le_nat_alt)

lemma appendReserved_calm:
  assumes cz: "compressor_contract cz" and inv: "writer_inv cx cz (w, k, c, p)"
  shows "calm w (snd (appendReserved cz r ad rotating openNeeded w))"
proof -
  let ?i = "rh_shardIndex (header r)"
  obtain ok1 w1 where 1: "(if rotating then sealSegment cz (unat ?i) w else (True, w)) = (ok1, w1)" by fastforce
  obtain ok2 w2 where 2: "(if openNeeded then openSegment cz ?i w1 else (True, w1)) = (ok2, w2)" by fastforce
  have c1: "calm w w1" using 1 sealSegment_calm [OF cz inv, of "unat ?i"] by (auto split: if_splits)
  have m2: "money w1 w2" using 2 money_openSegment [of w1 w1 cz ?i] by (auto split: if_splits)
  obtain position w3 where 3: "ensureIndex ?i (rh_sourceId (header r)) (rh_sourceGeneration (header r)) (rh_channel (header r))
      (recordSource ad w2) = (position, w3)" by fastforce
  have m3: "money w1 w3" using money_ensureIndex [of w1 "recordSource ad w2"] m2 3 by (metis money_frame(7) snd_conv)
  have "money w1 (snd (appendReserved cz r ad rotating openNeeded w)) \<or> snd (appendReserved cz r ad rotating openNeeded w) = w1"
    using 1 2 3 m2 m3 by (auto simp: appendReserved_def Let_def orReturn_def split: option.split)
  then show ?thesis using c1 calm_trans money_calm by auto
qed

lemma appendAdmitted_within:
  assumes cz: "compressor_contract cz" and inv: "writer_inv cx cz (w, 0, 0, False)"
    and room: "unat (w_projectedBytes w) + appendCost cz (ad_newSource ad) \<le> unat (w_writeLimitBytes w)"
    and n: "unat (rh_shardIndex (header r)) < length (w_segments w)"
  shows "within (appendCost cz (ad_newSource ad)) w (snd (appendAdmitted cz r ad w))"
proof (cases "outOfOrder r (w_segments w ! unat (rh_shardIndex (header r)))")
  case True
  then show ?thesis by (simp add: appendAdmitted_def Let_def calm_within)
next
  case ordered: False
  let ?n = "unat (rh_shardIndex (header r))" and ?cost = "appendCost cz (ad_newSource ad)"
  obtain ok1 w1 where 1: "(if blockFull r (w_segments w ! ?n) then flushBlock cz ?n w else (True, w)) = (ok1, w1)" by fastforce
  have f1: "flushes cx cz w w1" using 1 flushBlock_result(1) [of cz ?n w] n by (auto simp: blockFull_def split: if_splits)
  have c1: "calm w w1" using 1 flushBlock_calm [OF cz inv n] by (auto simp: blockFull_def split: if_splits)
  note inv1 = flushes_inv [OF f1 cz inv]
  define g where "g = w_segments w1 ! ?n"
  define rotating where "rotating = rotateNeeded cz (cf_segmentTargetBytes (w_config w1)) g"
  define openNeeded where "openNeeded = (\<not> sg_open g \<or> rotating)"
  define indexNeeded where "indexNeeded = (openNeeded \<or> sg_indexPositions g (recordKey r) = None)"
  show ?thesis
  proof (cases "ok1 \<and> appendNeeds cz (ad_newSource ad) openNeeded indexNeeded w1 \<noteq> None")
    case False
    then consider "\<not> ok1" | "ok1" "appendNeeds cz (ad_newSource ad) openNeeded indexNeeded w1 = None" by blast
    then have "snd (appendAdmitted cz r ad w) = w1"
      using 1 unfolding indexNeeded_def openNeeded_def rotating_def g_def recordKey_def
      by cases (simp_all add: appendAdmitted_def Let_def ordered orReturn_def)
    then show ?thesis using c1 calm_within by simp
  next
    case True
    then obtain b gr where needs: "ok1" "appendNeeds cz (ad_newSource ad) openNeeded indexNeeded w1 = Some (b, gr)" by auto
    note ex = appendNeeds_exact [OF needs(2)]
    have cost: "unat b \<le> ?cost" using ex(1) by (simp add: appendCost_def)
    obtain ok2 w2 where 2: "(if \<not> addWithin (w_projectedBytes w1) b (w_writeLimitBytes w1)
        then flushOpen cz [0..<length (w_segments w1)] w1 else (True, w1)) = (ok2, w2)" by fastforce
    have f2: "flushes cx cz w1 w2" using 2 flushOpen_result by (auto split: if_splits)
    have c2: "calm w w2" using 2 c1 flushOpen_calm [OF cz inv1, of "[0..<length (w_segments w1)]"] calm_trans
      by (auto split: if_splits)
    note inv2 = flushes_inv [OF f2 cz inv1]
    have add: "addWithin (w_projectedBytes w2) b (w_writeLimitBytes w2)"
      using room cost c2 by (simp add: addWithin_iff calm_def word_le_nat_alt)
    define w4 where "w4 = w2\<lparr>w_projectedBytes := w_projectedBytes w2 + b, w_cutReservedBytes := w_cutReservedBytes w2 + gr\<rparr>"
    have res: "snd (appendAdmitted cz r ad w) = (if ok2 then snd (appendReserved cz r ad rotating openNeeded w4) else w2)"
      using 1 needs 2 add unfolding indexNeeded_def openNeeded_def rotating_def g_def recordKey_def w4_def
      by (simp add: appendAdmitted_def Let_def ordered orReturn_def reserveBytes_def)
    have "addWithin (w_cutReservedBytes w2) gr 0xffffffffffffffff"
      using ex(3) f2 flushed_same(5) [of w1 w2] by (simp add: flushes_def)
    moreover have "gr \<le> b" using ex(1,2) by (simp add: word_le_nat_alt)
    ultimately have "wsteps cx cz (w2, 0, 0, False) (w4, unat b - unat gr, unat gr, False)"
      using wsteps_step [OF reserve [OF add, where k = 0 and c = 0 and p = False]] unfolding w4_def by simp
    then have inv4: "writer_inv cx cz (w4, unat b - unat gr, unat gr, False)" using writer_inv_steps cz inv2 by blast
    have "within ?cost w w4"
      using c2 cost unat_addWithin [OF add] by (auto simp: w4_def within_def calm_def word_le_nat_alt)
    then show ?thesis using res c2 calm_within calm_after appendReserved_calm [OF cz inv4] by auto
  qed
qed

lemma admit_newSource:
  assumes "admit cx r w = Inr ad"
  shows "ad_newSource ad \<Longrightarrow> rh_channel (header r) = chSourceLifecycle" and "unat (rh_shardIndex (header r)) < length (w_segments w)"
  using assms unfolding admit_def by (auto simp: Let_def recordOutOfRange_def split: if_splits prod.splits)

definition recordCost :: "compressor \<Rightarrow> BinaryMarketRecord \<Rightarrow> nat" where
  "recordCost cz r = appendCost cz (rh_channel (header r) = chSourceLifecycle)"

lemma appendActive_within:
  assumes cz: "compressor_contract cz" and inv: "writer_inv cx cz (w, 0, 0, False)"
    and room: "unat (w_projectedBytes w) + recordCost cz r \<le> unat (w_writeLimitBytes w)"
  shows "within (recordCost cz r) w (snd (appendActive cx cz r w))"
proof (cases "admit cx r w")
  case (Inr ad)
  have le: "appendCost cz (ad_newSource ad) \<le> recordCost cz r"
    using admit_newSource(1) [OF Inr] by (simp add: recordCost_def appendCost_def)
  have "within (appendCost cz (ad_newSource ad)) w (snd (appendAdmitted cz r ad w))"
    by (rule appendAdmitted_within [OF cz inv _ admit_newSource(2) [OF Inr]]) (use le room in linarith)
  then show ?thesis using le Inr by (simp add: appendActive_def within_def)
qed (simp add: appendActive_def within_def)

lemma drained_appends:
  assumes cz: "compressor_contract cz" and "writer_inv cx cz (w, 0, 0, False)" and "list_all record_wf rs"
    and "unat (w_projectedBytes w) + (\<Sum>r \<leftarrow> rs. recordCost cz r) \<le> unat (w_writeLimitBytes w)"
    and "writerRun cx cz (map AppendRecord rs) (Some w) = Some w'"
  shows "w_quotaReached w' = w_quotaReached w"
  using assms(2-5)
proof (induction rs arbitrary: w)
  case (Cons r rs)
  obtain w1 where 1: "snd (writerCall cx cz (AppendRecord r) (Some w)) = Some w1" "wsteps cx cz (w, 0, 0, False) (w1, 0, 0, False)"
    using writerCall_steps [of "AppendRecord r" cx cz w] Cons.prems(2) by auto
  have w1: "w1 = w \<or> w1 = snd (appendActive cx cz r w)"
    using 1(1) by (cases "appendActive cx cz r w") (auto simp: writer_append_def whenActive_def split: if_splits)
  have inv1: "writer_inv cx cz (w1, 0, 0, False)" using writer_inv_steps [OF 1(2) cz Cons.prems(1)] .
  have w: "within (recordCost cz r) w w1" using w1 appendActive_within [OF cz Cons.prems(1)] Cons.prems(3) calm_within by auto
  then have "unat (w_projectedBytes w1) + (\<Sum>r \<leftarrow> rs. recordCost cz r) \<le> unat (w_writeLimitBytes w1)"
    using Cons.prems(3) by (simp add: within_def)
  then have "w_quotaReached w' = w_quotaReached w1"
    using Cons.IH [OF inv1] Cons.prems(2,4) 1(1) by simp
  then show ?case using w by (simp add: within_def)
qed simp

section \<open>The reserve for the final drain\<close>

definition isLifecycle :: "BinaryMarketRecord \<Rightarrow> bool" where
  "isLifecycle r \<longleftrightarrow> rh_channel (header r) = chSourceLifecycle"

text \<open>The records the rings and the caller's queue can hold, and how many of them can bring a source.\<close>

definition pendingLimit :: "BinaryMarketWriterConfig \<Rightarrow> nat" where
  "pendingLimit c = unat (cf_shardCount c) * unat (cf_ringCapacity c) + unat (cf_pendingRecordCapacity c)"

definition newSourceLimit :: "BinaryMarketWriterConfig \<Rightarrow> nat" where
  "newSourceLimit c = min (pendingLimit c) (kBinaryMarketMaximumSources - length (cf_sources c))"

lemma cost_sum: "(\<Sum>r \<leftarrow> rs. recordCost cz r) = length rs * (prb cz + 456) + length (filter isLifecycle rs) * 2976"
  by (induction rs) (simp_all add: recordCost_def appendCost_def isLifecycle_def)

lemma prb_bound: "compressor_contract cz \<Longrightarrow> prb cz < 2 ^ 33"
proof -
  assume "compressor_contract cz"
  then have "cz_bound cz (binaryMarketBlockLayout chDepth) 1 < 2 ^ 32"
    unfolding compressor_contract_def kBinaryMarketBlockRecords_def by simp
  then show ?thesis
    by (simp add: prb_def binaryMarketPendingRecordBytes_def unat_word_ariths unat_of_nat sizeof_BlockHeader_def)
qed

lemma startBudget_drain:
  assumes cz: "compressor_contract cz" and b: "startBudget cz c = Some b" and len: "length (cf_sources c) \<le> kBinaryMarketMaximumSources"
  shows "unat (sb_finalDrainReserve b) = pendingLimit c * (prb cz + 456) + newSourceLimit c * 2976"
proof -
  let ?ring = "ucast (cf_shardCount c) * ucast (cf_ringCapacity c) :: u64"
  let ?s = "word_of_nat (length (cf_sources c)) :: u64"
  let ?new = "min (?ring + cf_pendingRecordCapacity c) (word_of_nat kBinaryMarketMaximumSources - ?s)"
  have worst: "unat (worstRecordBytes cz) = prb cz + 456"
    using prb_bound [OF cz] by (simp add: worstRecordBytes_def unat_word_ariths prb_def unat_constants sizeof_IndexEntry_def
        sizeof_SegmentHeader_def sizeof_SegmentFooter_def)
  have small: "unat (cf_shardCount c) < 2 ^ 16" "unat (cf_ringCapacity c) < 2 ^ 32"
    using unsigned_less [of "cf_shardCount c", where 'a = nat] unsigned_less [of "cf_ringCapacity c", where 'a = nat] by simp_all
  have "unat (cf_shardCount c) * unat (cf_ringCapacity c) \<le> 2 ^ 16 * 2 ^ 32" using small by (intro mult_le_mono) simp_all
  then have ring: "unat ?ring = unat (cf_shardCount c) * unat (cf_ringCapacity c)"
    using small by (simp add: unat_word_ariths unsigned_ucast_eq take_bit_nat_eq_self)
  obtain d1 where d: "\<not> 0xffffffffffffffff - ?ring < cf_pendingRecordCapacity c"
    "addProduct 0 (?ring + cf_pendingRecordCapacity c) (worstRecordBytes cz) = Some d1"
    "addProduct d1 ?new kSourceReservationBytes = Some (sb_finalDrainReserve b)"
    using b unfolding startBudget_def Let_def by (clarsimp simp: bind_eq_Some_conv split: if_splits)
  have n: "unat (?ring + cf_pendingRecordCapacity c) = pendingLimit c"
    using d(1) ring unat_lt64 [of ?ring] by (simp add: pendingLimit_def unat_word_ariths word_less_nat_alt max_minus)
  have "unat (word_of_nat kBinaryMarketMaximumSources - ?s) = kBinaryMarketMaximumSources - length (cf_sources c)"
    using len by (simp add: unat_sub word_le_nat_alt unat_of_nat kBinaryMarketMaximumSources_def)
  then have "unat ?new = newSourceLimit c" using n by (simp add: newSourceLimit_def min_def word_le_nat_alt)
  then show ?thesis using addProduct_SomeD [OF d(2)] addProduct_SomeD [OF d(3)] worst n by (simp add: unat_constants)
qed



end
