(* ===== verification/WriterShards.thy ===== *)
theory WriterShards
  imports WriterProperties
begin

text \<open>
  What holds of the buffers of the shards and of the replay anchor in every state of a session.
\<close>

section \<open>Buffers and anchor\<close>

text \<open>C6: In every state of a session the buffer of a shard holds at most a block of records, all of them
  valid, of that shard and of one channel, with strictly growing shard sequences and receive times that
  do not go back; a shard without an open segment holds none.\<close>

theorem shard_buffers_wellformed:
  assumes "start cx cz c root d s = (Ok, Some w, d')" and "list_all source_wf (cf_sources c)"
    and "compressor_contract cz" and "list_all call_wf as" and "writerRun cx cz as (Some w) = Some w'"
    and "n < length (w_segments w')"
  shows "let p = sg_pending (w_segments w' ! n) in length p \<le> kBinaryMarketBlockRecords \<and>
     (sg_open (w_segments w' ! n) \<or> p = []) \<and>
     list_all (\<lambda>r. validBinaryMarketRecord cx r \<and> unat (rh_shardIndex (header r)) = n \<and>
       rh_channel (header r) = rh_channel (header (hd p))) p \<and>
     sorted_wrt (\<lambda>a b. rh_shardSequence (header a) < rh_shardSequence (header b) \<and>
       rh_receiveMonotonicNs (header a) \<le> rh_receiveMonotonicNs (header b)) p"
proof -
  have "segments_inv cx cz w'" using writer_inv_run(1) [OF assms(1-5)] by (simp add: writer_inv_def)
  from segments_inv_nth [OF this assms(6)] show ?thesis unfolding shard_ok_def Let_def list_all_iff by blast
qed

theorem shard_buffers_wellformed_witness:
  "\<exists>w w' d. start sample_cx sample_cz sample_config RootEmpty sample_disk None = (Ok, Some w, d) \<and>
     writerRun sample_cx sample_cz [AppendRecord (sample_marker causeNativeStale 1)] (Some w) = Some w' \<and>
     (0 < length (w_segments w') \<longrightarrow> length (sg_pending (w_segments w' ! 0)) \<le> kBinaryMarketBlockRecords)"
proof -
  let ?as = "[AppendRecord (sample_marker causeNativeStale 1)]"
  obtain w d where s: "start sample_cx sample_cz sample_config RootEmpty sample_disk None = (Ok, Some w, d)"
    using sample_start by blast
  have wf: "list_all call_wf ?as" using sample_record_wf by simp
  obtain w' where r: "writerRun sample_cx sample_cz ?as (Some w) = Some w'" using writerRun_steps [OF wf] by blast
  show ?thesis
    using shard_buffers_wellformed [OF s sample_sources_wf sample_contract wf r, of 0] s r by (auto simp: Let_def)
qed

text \<open>C7: Once a published cut has fixed the replay anchor, no later call moves it, whether the call succeeds
  or fails; an append before the anchor is refused instead.\<close>

theorem replay_anchor_fixed:
  assumes "w_replayAnchorFrozen w" and "list_all call_wf as" and "writerRun cx cz as (Some w) = Some w'"
  shows "w_replayAnchorFrozen w' \<and> mf_replayAnchorMonotonicNs (w_manifest w') = mf_replayAnchorMonotonicNs (w_manifest w) \<and>
     mf_replayAnchorReceiveNs (w_manifest w') = mf_replayAnchorReceiveNs (w_manifest w)"
proof -
  have "wsteps cx cz (w, 0, 0, False) (w', 0, 0, False)" using writerRun_steps [OF assms(2), of cx cz w] assms(3) by auto
  from anchored_steps [OF this] show ?thesis using assms(1) by (simp add: anchored_def)
qed

theorem replay_anchor_fixed_witness:
  "\<exists>w w'. w_replayAnchorFrozen w \<and>
     writerRun sample_cx sample_cz [AppendRecord (sample_marker causeNativeStale 1), PublishCut 9] (Some w) = Some w' \<and>
     mf_replayAnchorMonotonicNs (w_manifest w') = mf_replayAnchorMonotonicNs (w_manifest w)"
proof -
  let ?as = "[AppendRecord (sample_marker causeNativeStale 1), PublishCut 9]"
  let ?w = "(startState sample_cx sample_config \<lparr>sb_fixedMetadata = 15840, sb_initialCutReserve = 10176,
    sb_maximumGapRecords = 9, sb_finalDrainReserve = 32976\<rparr> sample_disk)\<lparr>w_replayAnchorFrozen := True\<rparr>"
  have wf: "list_all call_wf ?as" using sample_record_wf by simp
  obtain w' where r: "writerRun sample_cx sample_cz ?as (Some ?w) = Some w'" using writerRun_steps [OF wf] by blast
  have f: "w_replayAnchorFrozen ?w" by simp
  show ?thesis using replay_anchor_fixed [OF f wf r] f r by blast
qed

end
