(* ===== verification/SegmentReader.thy ===== *)
theory SegmentReader
  imports WriterBase
begin

text \<open>
  The physical half of the corpus reader, \<^verbatim>\<open>Corpus/BinaryMarketCorpusReader.cpp\<close>: the sealed manifest and
  the tables, the catalog of sources and the decoder of one segment file. The files are a map from
  paths to contents, as the writer leaves them. The decompressor is a parameter: from a layout, the
  encoded bytes and the size of the output it returns the bytes it produced, None for every status
  but ok. Error texts are not modelled, and neither are allocation failures.
\<close>

type_synonym files = "string \<Rightarrow> bytes option"
type_synonym decompressor = "ByteBlockLayout \<Rightarrow> bytes \<Rightarrow> nat \<Rightarrow> bytes option"

section \<open>Tables\<close>

definition readBytes :: "nat \<Rightarrow> bytes \<Rightarrow> (bytes \<times> bytes) option" where
  "readBytes n stream = (if length stream < n then None else Some (take n stream, drop n stream))"

definition exactFileBytes :: "files \<Rightarrow> string \<Rightarrow> nat \<Rightarrow> bool" where
  "exactFileBytes fs path expected = (case fs path of None \<Rightarrow> False | Some bs \<Rightarrow> length bs = expected)"

definition readTable :: "nat \<Rightarrow> (bytes \<Rightarrow> 'a) \<Rightarrow> files \<Rightarrow> string \<Rightarrow> u32 \<Rightarrow> u32 \<Rightarrow> u64 \<Rightarrow> u64 \<Rightarrow> 'a list option" where
  "readTable n f fs path magic expectedCrc maximumBytes expectedRecords = do {
     stream \<leftarrow> fs path;
     (hb, rest) \<leftarrow> readBytes 64 stream;
     let h = tableHeader_of hb;
     let recordsBytes = unat (th_recordCount h) * n;
     if \<not> validTableHeader n hb magic expectedCrc maximumBytes expectedRecords \<or>
        \<not> exactFileBytes fs path (64 + recordsBytes) then None
     else do {
       (rows, rest') \<leftarrow> readBytes recordsBytes rest;
       if crc32c rows \<noteq> th_recordsCrc32c h then None
       else Some (array_of n f (unat (th_recordCount h)) rows) } }"

definition readManifest :: "files \<Rightarrow> string \<Rightarrow> BinaryMarketManifest option" where
  "readManifest fs root =
     (let path = root @ ''/manifest.bin'' in
      if \<not> exactFileBytes fs path sizeof_Manifest then None
      else case fs path of None \<Rightarrow> None | Some bs \<Rightarrow>
        if \<not> validSealedManifest bs then None else Some (manifest_of bs))"

definition fixedText :: "bytes \<Rightarrow> u8 \<Rightarrow> bytes" where
  "fixedText chars n = (if n \<noteq> 0 \<and> unat n \<le> length chars then take (unat n) chars else [])"

definition catalog :: "files \<Rightarrow> string \<Rightarrow> status + (BinaryMarketManifest \<times> BinaryMarketSource list)" where
  "catalog fs root =
     (if root = [] then Inl CorruptData
      else case readManifest fs root of
        None \<Rightarrow> Inl CorruptData
      | Some m \<Rightarrow> (case readTable sizeof_BinaryMarketSource source_of fs (root @ ''/sources.bin'')
            kBinaryMarketSourcesMagic (mf_sourcesCrc32c m) (mf_maximumBytes m) (ucast (mf_sourceCount m)) of
          None \<Rightarrow> Inl CorruptData
        | Some sources \<Rightarrow>
          if length sources \<noteq> unat (mf_sourceCount m) then Inl CorruptData
          else if \<not> list_all (\<lambda>n. validBinaryMarketSource (sources ! n) n) [0..<length sources] then Inl CorruptData
          else Inr (m, sources)))"

section \<open>Segment decoder\<close>

record SegmentKey =
  key_number :: u32
  key_shard :: u16

text \<open>\<open>sd_stream\<close> is what is left of the file; the decoded records of the current block are those
  before \<^verbatim>\<open>count\<close>, which is the length of \<open>sd_decoded\<close>.\<close>

record SegmentDecoder =
  sd_stream :: bytes
  sd_header :: BinaryMarketSegmentHeader
  sd_decoded :: "BinaryMarketRecord list"
  sd_position :: nat
  sd_recordsSeen :: u64
  sd_bodyBytes :: u64
  sd_previousSequence :: u64
  sd_previousMonotonic :: u64
  sd_blocksSeen :: u32
  sd_recordsCrc :: u32
  sd_firstReceive :: i64
  sd_lastReceive :: i64
  sd_finished :: bool

definition segmentHeaderInvalid :: "SegmentKey \<Rightarrow> u64 \<Rightarrow> bytes \<Rightarrow> bool" where
  "segmentHeaderInvalid key epoch hb =
     (let h = segmentHeader_of hb in
      sh_magic h \<noteq> kBinaryMarketSegmentMagic \<or> unat (sh_headerBytes h) \<noteq> sizeof_SegmentHeader \<or>
      unat (sh_recordBytes h) \<noteq> bl_recordBytes (binaryMarketBlockLayout chDepth) \<or> sh_recordCount h = 0 \<or>
      sh_blockCount h = 0 \<or> sh_recordCount h < ucast (sh_blockCount h) \<or> sh_codecId h \<noteq> 1 \<or>
      sint (sh_firstReceiveNs h) \<le> 0 \<or> sint (sh_lastReceiveNs h) < sint (sh_firstReceiveNs h) \<or>
      sh_segmentNumber h \<noteq> key_number key \<or> sh_shardIndex h \<noteq> key_shard key \<or> sh_producerEpoch h \<noteq> epoch \<or>
      sh_reserved16 h \<noteq> 0 \<or> \<not> all_zero (sh_reserved h) \<or> sh_headerCrc32c h \<noteq> crc32c (zero4 56 hb) \<or>
      0xffffffffffffffff - word_of_nat sizeof_SegmentHeader - word_of_nat sizeof_SegmentFooter
        < sh_storedBlockBytes h)"

definition decoder_open :: "files \<Rightarrow> string \<Rightarrow> SegmentKey \<Rightarrow> u64 \<Rightarrow> SegmentDecoder option" where
  "decoder_open fs root key epoch =
     (let path = segmentPath root (key_shard key) (key_number key) ''cxm'' in do {
      stream \<leftarrow> fs path;
      (hb, rest) \<leftarrow> readBytes sizeof_SegmentHeader stream;
      let h = segmentHeader_of hb;
      if segmentHeaderInvalid key epoch hb \<or>
         \<not> exactFileBytes fs path (sizeof_SegmentHeader + unat (sh_storedBlockBytes h) + sizeof_SegmentFooter)
      then None
      else Some \<lparr>sd_stream = rest, sd_header = h, sd_decoded = [], sd_position = 0, sd_recordsSeen = 0,
        sd_bodyBytes = 0, sd_previousSequence = 0, sd_previousMonotonic = 0, sd_blocksSeen = 0,
        sd_recordsCrc = 0, sd_firstReceive = 0, sd_lastReceive = 0, sd_finished = False\<rparr> })"

definition footerInvalid :: "SegmentDecoder \<Rightarrow> bytes \<Rightarrow> bool" where
  "footerInvalid d fb =
     (let f = segmentFooter_of fb; h = sd_header d in
      sf_magic f \<noteq> kBinaryMarketSegmentFooterMagic \<or> unat (sf_footerBytes f) \<noteq> sizeof_SegmentFooter \<or>
      sf_segmentNumber f \<noteq> sh_segmentNumber h \<or> sf_recordCount f \<noteq> sh_recordCount h \<or>
      sf_recordsCrc32c f \<noteq> sh_recordsCrc32c h \<or> sf_firstReceiveNs f \<noteq> sh_firstReceiveNs h \<or>
      sf_lastReceiveNs f \<noteq> sh_lastReceiveNs h \<or> \<not> all_zero (sf_reserved f) \<or>
      sf_footerCrc32c f \<noteq> crc32c (zero4 40 fb) \<or> sd_recordsSeen d \<noteq> sh_recordCount h \<or>
      sd_bodyBytes d \<noteq> sh_storedBlockBytes h \<or> sd_recordsCrc d \<noteq> sh_recordsCrc32c h \<or>
      sd_firstReceive d \<noteq> sh_firstReceiveNs h \<or> sd_lastReceive d \<noteq> sh_lastReceiveNs h)"

text \<open>The checks of a block header before its bytes are read; \<open>bound\<close> is the compressor's size bound.\<close>

definition blockInvalid :: "(ByteBlockLayout \<Rightarrow> nat \<Rightarrow> nat) \<Rightarrow> SegmentDecoder \<Rightarrow> bytes \<Rightarrow> bool" where
  "blockInvalid bound d bb =
     (let b = marketBlock_of bb; h = sd_header d in
      bk_magic b \<noteq> kBinaryMarketBlockMagic \<or> unat (bk_headerBytes b) \<noteq> sizeof_BlockHeader \<or>
      bk_blockNumber b \<noteq> sd_blocksSeen d + 1 \<or> bk_recordCount b = 0 \<or>
      kBinaryMarketBlockRecords < unat (bk_recordCount b) \<or>
      bk_rawBytes b \<noteq> bk_recordCount b * sh_recordBytes h \<or> \<not> validBinaryMarketRecordChannel (bk_channel b) \<or>
      bk_encodedBytes b = 0 \<or>
      bound (binaryMarketBlockLayout (bk_channel b)) (unat (bk_recordCount b)) < unat (bk_encodedBytes b) \<or>
      \<not> all_zero (bk_reserved b) \<or> bk_firstShardSequence b = 0 \<or>
      bk_lastShardSequence b < bk_firstShardSequence b \<or> bk_headerCrc32c b \<noteq> crc32c (zero4 48 bb) \<or>
      sh_storedBlockBytes h < sd_bodyBytes d \<or>
      sh_storedBlockBytes h - sd_bodyBytes d < word_of_nat sizeof_BlockHeader + ucast (bk_encodedBytes b) \<or>
      sh_recordCount h < sd_recordsSeen d \<or> sh_recordCount h - sd_recordsSeen d < ucast (bk_recordCount b))"

definition rowInvalid :: "cxet \<Rightarrow> nat \<Rightarrow> u8 \<Rightarrow> SegmentDecoder \<Rightarrow> BinaryMarketRecord \<Rightarrow> bool" where
  "rowInvalid cx sources channel d row =
     (let h = header row in
      \<not> validBinaryMarketRecord cx row \<or> rh_channel h \<noteq> channel \<or> rh_shardIndex h \<noteq> sh_shardIndex (sd_header d) \<or>
      sources < unat (rh_sourceId h) \<or>
      (sd_previousSequence d \<noteq> 0 \<and> rh_shardSequence h \<le> sd_previousSequence d) \<or>
      (sd_previousMonotonic d \<noteq> 0 \<and> rh_receiveMonotonicNs h < sd_previousMonotonic d) \<or>
      \<not> all_zero (drop (unat (rh_payloadBytes h)) (payload row)))"

fun checkRows :: "cxet \<Rightarrow> nat \<Rightarrow> u8 \<Rightarrow> BinaryMarketRecord list \<Rightarrow> SegmentDecoder \<Rightarrow> SegmentDecoder option" where
  "checkRows cx sources channel [] d = Some d"
| "checkRows cx sources channel (row # rows) d =
     (let h = header row; ns = rh_receiveRealtimeNs h in
      if rowInvalid cx sources channel d row then None
      else checkRows cx sources channel rows (d\<lparr>sd_previousSequence := rh_shardSequence h,
        sd_previousMonotonic := rh_receiveMonotonicNs h,
        sd_firstReceive := (if sd_firstReceive d = 0 \<or> sint ns < sint (sd_firstReceive d) then ns else sd_firstReceive d),
        sd_lastReceive := (if sint (sd_lastReceive d) < sint ns then ns else sd_lastReceive d)\<rparr>))"

definition readBlock :: "cxet \<Rightarrow> (ByteBlockLayout \<Rightarrow> nat \<Rightarrow> nat) \<Rightarrow> decompressor \<Rightarrow> nat \<Rightarrow> SegmentDecoder \<Rightarrow>
    SegmentDecoder option" where
  "readBlock cx bound decode sources d = do {
     (bb, rest) \<leftarrow> readBytes sizeof_BlockHeader (sd_stream d);
     let b = marketBlock_of bb;
     let rawBytes = unat (bk_rawBytes b);
     let count = unat (bk_recordCount b);
     if blockInvalid bound d bb then None
     else do {
       (encoded, rest') \<leftarrow> readBytes (unat (bk_encodedBytes b)) rest;
       if crc32c encoded \<noteq> bk_encodedCrc32c b then None
       else do {
         raw \<leftarrow> decode (binaryMarketBlockLayout (bk_channel b)) encoded rawBytes;
         let rows = array_of sizeof_BinaryMarketRecord record_of count raw;
         if length raw \<noteq> rawBytes \<or> crc32c raw \<noteq> bk_rawCrc32c b then None
         else if rh_shardSequence (header (rows ! 0)) \<noteq> bk_firstShardSequence b \<or>
           rh_shardSequence (header (rows ! (count - 1))) \<noteq> bk_lastShardSequence b then None
         else do {
           d' \<leftarrow> checkRows cx sources (bk_channel b) rows d;
           Some (d'\<lparr>sd_stream := rest', sd_decoded := rows, sd_position := 0,
             sd_recordsCrc := crc32cUpdate (sd_recordsCrc d') raw,
             sd_recordsSeen := sd_recordsSeen d' + ucast (bk_recordCount b),
             sd_bodyBytes := sd_bodyBytes d' + (word_of_nat sizeof_BlockHeader + ucast (bk_encodedBytes b)),
             sd_blocksSeen := sd_blocksSeen d' + 1\<rparr>) } } } }"

definition releaseRow :: "SegmentDecoder \<Rightarrow> BinaryMarketRecord option \<times> SegmentDecoder" where
  "releaseRow d = (Some (sd_decoded d ! sd_position d), d\<lparr>sd_position := sd_position d + 1\<rparr>)"

text \<open>None is a failure; the record is None at the end of the segment. The position never passes the
  number of decoded records, so it is compared with at least.\<close>

definition decoder_next :: "cxet \<Rightarrow> (ByteBlockLayout \<Rightarrow> nat \<Rightarrow> nat) \<Rightarrow> decompressor \<Rightarrow> nat \<Rightarrow> SegmentDecoder \<Rightarrow>
    (BinaryMarketRecord option \<times> SegmentDecoder) option" where
  "decoder_next cx bound decode sources d =
     (if sd_finished d then Some (None, d)
      else if length (sd_decoded d) \<le> sd_position d then
        if sd_blocksSeen d = sh_blockCount (sd_header d) then do {
          (fb, rest) \<leftarrow> readBytes sizeof_SegmentFooter (sd_stream d);
          if footerInvalid d fb then None else Some (None, d\<lparr>sd_stream := rest, sd_finished := True\<rparr>) }
        else map_option releaseRow (readBlock cx bound decode sources d)
      else Some (releaseRow d))"

section \<open>Progress\<close>

text \<open>A bound on the records a decoder can still release; it falls with every record.\<close>

definition decoderWork :: "SegmentDecoder \<Rightarrow> nat" where
  "decoderWork d = (length (sd_decoded d) - sd_position d) + 257 * length (sd_stream d)"

lemma readBytes_SomeD: "readBytes n bs = Some (a, b) \<Longrightarrow> n \<le> length bs \<and> a = take n bs \<and> b = drop n bs"
  by (auto simp: readBytes_def split: if_splits)

lemma readBytes_append: "length a = n \<Longrightarrow> readBytes n (a @ b) = Some (a, b)"
  by (simp add: readBytes_def)

lemma checkRows_same:
  "checkRows cx sources channel rows d = Some d' \<Longrightarrow> sd_stream d' = sd_stream d \<and> sd_header d' = sd_header d \<and>
     sd_recordsSeen d' = sd_recordsSeen d \<and> sd_bodyBytes d' = sd_bodyBytes d \<and> sd_blocksSeen d' = sd_blocksSeen d \<and>
     sd_recordsCrc d' = sd_recordsCrc d \<and> sd_finished d' = sd_finished d"
  by (induction rows arbitrary: d) (auto simp: Let_def split: if_splits)

lemma readBlock_work:
  assumes "readBlock cx bound decode sources d = Some d'"
  shows "sd_position d' = 0" and "0 < length (sd_decoded d')"
    and "length (sd_decoded d') + 257 * length (sd_stream d') \<le> 257 * length (sd_stream d)"
proof -
  obtain bb rest encoded rest' rows where 1: "readBytes sizeof_BlockHeader (sd_stream d) = Some (bb, rest)"
    and b: "\<not> blockInvalid bound d bb" and 2: "readBytes (unat (bk_encodedBytes (marketBlock_of bb))) rest = Some (encoded, rest')"
    and d': "sd_position d' = 0" "sd_decoded d' = rows" "sd_stream d' = rest'"
    and rows: "length rows = unat (bk_recordCount (marketBlock_of bb))"
    using assms by (auto simp: readBlock_def Let_def array_of_def split: bind_splits if_splits prod.splits)
  have c: "bk_recordCount (marketBlock_of bb) \<noteq> 0" "length rows \<le> 256"
    using b rows by (auto simp: blockInvalid_def Let_def kBinaryMarketBlockRecords_def)
  have "length rest' + 64 \<le> length (sd_stream d)"
    using readBytes_SomeD [OF 1] readBytes_SomeD [OF 2] unfolding sizeof_BlockHeader_def
    by (metis add.commute diff_le_self le_diff_conv2 length_drop)
  then show "length (sd_decoded d') + 257 * length (sd_stream d') \<le> 257 * length (sd_stream d)" using c d' by simp
  show "sd_position d' = 0" by (rule d')
  show "0 < length (sd_decoded d')" using c(1) rows d' by (simp add: unat_gt_0)
qed

lemma decoder_next_work:
  assumes "decoder_next cx bound decode sources d = Some (Some r, d')"
  shows "decoderWork d' < decoderWork d"
proof (cases "length (sd_decoded d) \<le> sd_position d")
  case False
  then show ?thesis using assms by (auto simp: decoder_next_def releaseRow_def decoderWork_def split: if_splits)
next
  case True
  then obtain d1 where "readBlock cx bound decode sources d = Some d1" "d' = d1\<lparr>sd_position := sd_position d1 + 1\<rparr>"
    using assms by (auto simp: decoder_next_def releaseRow_def split: if_splits bind_splits)
  then show ?thesis using readBlock_work [of cx bound decode sources d d1]
    unfolding decoderWork_def by (cases "sd_decoded d1") simp_all
qed

lemma decoder_open_work:
  assumes "decoder_open fs root key epoch = Some d"
  obtains bs where "fs (segmentPath root (key_shard key) (key_number key) ''cxm'') = Some bs"
    "decoderWork d \<le> 257 * length bs"
  using assms
  by (auto simp: decoder_open_def decoderWork_def Let_def readBytes_def split: bind_splits if_splits prod.splits)

end
