(* ===== verification/CorpusReader.thy ===== *)
theory CorpusReader
  imports SegmentReader
begin

text \<open>
  The selection cursor of \<^verbatim>\<open>Corpus/BinaryMarketCorpusReader.cpp\<close>: the request, the checks of index and gaps, the
  physical preflight of every segment, the merge of the shards in arrival order, \<^verbatim>\<open>open\<close>, \<^verbatim>\<open>next\<close> and
  \<^verbatim>\<open>select\<close>. What the code uses of its environment is bundled in a record: the external market library,
  the compressor's size bound, the decompressor and the files. A failure is the status the code
  returns; the error text and the content of the output after a failure are not modelled.
\<close>

record corpusEnv =
  en_cx :: cxet
  en_bound :: "ByteBlockLayout \<Rightarrow> nat \<Rightarrow> nat"
  en_decode :: decompressor
  en_files :: files

record BinaryMarketSelectionRequest =
  rq_root :: string
  rq_exchange :: bytes
  rq_market :: bytes
  rq_canonicalSymbol :: bytes
  rq_beginReceiveNs :: i64
  rq_endReceiveNs :: i64
  rq_channelMask :: u16
  rq_requiredChannelMask :: u16
  rq_requireTraderReplayCompatibility :: bool
  rq_allSources :: bool
  rq_sourceIds :: "u32 list"

text \<open>The source is None where the code leaves it default constructed.\<close>

record BinaryMarketSelection =
  sl_manifest :: BinaryMarketManifest
  sl_source :: "BinaryMarketSource option"
  sl_records :: "BinaryMarketRecord list"
  sl_presentChannelMask :: u16
  sl_sourceGeneration :: u64
  sl_sourcePresentChannelMasks :: "u16 list"
  sl_sourceObservedChannelMasks :: "u16 list"
  sl_sourcesAtBegin :: "BinaryMarketSource list"
  sl_sourceLifecycleRevisionsAtBegin :: "u64 list"
  sl_sourceUnhealthyChannelMasksAtBegin :: "u16 list"
  sl_sourceAdministrativeUnhealthyChannelMasksAtBegin :: "u16 list"
  sl_sourceRecoveryPendingChannelMasksAtBegin :: "u16 list"

section \<open>Merge order\<close>

definition recordBefore :: "BinaryMarketRecord \<Rightarrow> BinaryMarketRecord \<Rightarrow> bool" where
  "recordBefore left right =
     (let l = header left; r = header right in
      if rh_receiveMonotonicNs l \<noteq> rh_receiveMonotonicNs r then rh_receiveMonotonicNs l < rh_receiveMonotonicNs r
      else if rh_shardIndex l \<noteq> rh_shardIndex r then rh_shardIndex l < rh_shardIndex r
      else if rh_shardSequence l \<noteq> rh_shardSequence r then rh_shardSequence l < rh_shardSequence r
      else if rh_receiveRealtimeNs l \<noteq> rh_receiveRealtimeNs r
        then sint (rh_receiveRealtimeNs l) < sint (rh_receiveRealtimeNs r)
      else if rh_frameSequence l \<noteq> rh_frameSequence r then rh_frameSequence l < rh_frameSequence r
      else if rh_eventOrdinal l \<noteq> rh_eventOrdinal r then rh_eventOrdinal l < rh_eventOrdinal r
      else rh_eventSequence l < rh_eventSequence r)"

definition rangesOverlap :: "i64 \<Rightarrow> i64 \<Rightarrow> i64 \<Rightarrow> i64 \<Rightarrow> bool" where
  "rangesOverlap first final from_ns to_ns \<longleftrightarrow>
     first \<noteq> 0 \<and> sint first \<le> sint final \<and> sint from_ns \<le> sint final \<and> sint first < sint to_ns"

section \<open>Shards of a cursor\<close>

record CursorShard =
  cs_segments :: "SegmentKey list"
  cs_position :: nat
  cs_decoder :: "SegmentDecoder option"
  cs_head :: BinaryMarketRecord
  cs_previousSequence :: u64
  cs_previousMonotonic :: u64
  cs_depthTransaction :: BinaryMarketDepthTransactionState
  cs_ready :: bool

record BinaryMarketCorpusCursorState =
  cu_request :: BinaryMarketSelectionRequest
  cu_manifest :: BinaryMarketManifest
  cu_sources :: "BinaryMarketSource list"
  cu_sourceStates :: "BinaryMarketSourceState list"
  cu_shards :: "CursorShard list"
  cu_includedSources :: "bool list"
  cu_failed :: bool

definition emptyShard :: "cxet \<Rightarrow> CursorShard" where
  "emptyShard cx = \<lparr>cs_segments = [], cs_position = 0, cs_decoder = None,
     cs_head = \<lparr>header = emptyRecordHeader, payload = replicate kBinaryMarketPayloadBytes 0\<rparr>,
     cs_previousSequence = 0, cs_previousMonotonic = 0, cs_depthTransaction = emptyDepthTransaction cx,
     cs_ready = False\<rparr>"

definition crossesOrder :: "BinaryMarketRecord \<Rightarrow> CursorShard \<Rightarrow> bool" where
  "crossesOrder r s \<longleftrightarrow>
     (cs_previousSequence s \<noteq> 0 \<and> rh_shardSequence (header r) \<le> cs_previousSequence s) \<or>
     (cs_previousMonotonic s \<noteq> 0 \<and> rh_receiveMonotonicNs (header r) < cs_previousMonotonic s)"

definition follow :: "BinaryMarketRecord \<Rightarrow> CursorShard \<Rightarrow> CursorShard" where
  "follow r s = s\<lparr>cs_previousSequence := rh_shardSequence (header r),
     cs_previousMonotonic := rh_receiveMonotonicNs (header r)\<rparr>"

text \<open>The loop ends with a record, a failure or the end of the last segment; the position never passes
  the number of segments.\<close>

function headLoop :: "corpusEnv \<Rightarrow> string \<Rightarrow> u64 \<Rightarrow> nat \<Rightarrow> CursorShard \<Rightarrow> CursorShard option" where
  "headLoop en root epoch sources s =
     (case cs_decoder s of
        None \<Rightarrow>
          if length (cs_segments s) \<le> cs_position s then Some s
          else (case decoder_open (en_files en) root (cs_segments s ! cs_position s) epoch of
            None \<Rightarrow> None
          | Some d \<Rightarrow> headLoop en root epoch sources (s\<lparr>cs_decoder := Some d, cs_position := cs_position s + 1\<rparr>))
      | Some d \<Rightarrow>
          (case decoder_next (en_cx en) (en_bound en) (en_decode en) sources d of
            None \<Rightarrow> None
          | Some (None, d') \<Rightarrow> headLoop en root epoch sources (s\<lparr>cs_decoder := None\<rparr>)
          | Some (Some r, d') \<Rightarrow>
              if crossesOrder r s then None
              else Some ((follow r s)\<lparr>cs_decoder := Some d', cs_head := r, cs_ready := True\<rparr>)))"
  by pat_completeness auto
termination
  by (relation "measure (\<lambda>(en, root, epoch, sources, s).
      2 * (length (cs_segments s) - cs_position s) + (if cs_decoder s = None then 0 else 1))") auto

declare headLoop.simps [simp del]

definition fillHead :: "corpusEnv \<Rightarrow> BinaryMarketCorpusCursorState \<Rightarrow> CursorShard \<Rightarrow> CursorShard option" where
  "fillHead en st s = headLoop en (rq_root (cu_request st)) (mf_producerEpoch (cu_manifest st))
     (length (cu_sources st)) (s\<lparr>cs_ready := False\<rparr>)"

fun pickHead :: "nat \<Rightarrow> (nat \<times> BinaryMarketRecord) option \<Rightarrow> CursorShard list \<Rightarrow> (nat \<times> BinaryMarketRecord) option" where
  "pickHead n best [] = best"
| "pickHead n best (s # ss) = pickHead (n + 1)
     (if cs_ready s \<and> (case best of None \<Rightarrow> True | Some (m, b) \<Rightarrow> recordBefore (cs_head s) b)
      then Some (n, cs_head s) else best) ss"

text \<open>One turn of the merge loop of \<^verbatim>\<open>open\<close> and \<^verbatim>\<open>next\<close>: the earliest head is taken, its depth transaction and its
  source advance, and its shard is refilled.\<close>

datatype MergeResult = MergeEnd | MergeFailed | Merged BinaryMarketRecord BinaryMarketCorpusCursorState

definition mergeStep :: "corpusEnv \<Rightarrow> BinaryMarketCorpusCursorState \<Rightarrow> MergeResult" where
  "mergeStep en st = (case pickHead 0 None (cu_shards st) of
     None \<Rightarrow> MergeEnd
   | Some (n, r) \<Rightarrow>
     let h = header r; shard = cu_shards st ! n; source = unat (rh_sourceId h) - 1 in
     (case advanceBinaryMarketDepthTransaction (en_cx en) r (cs_depthTransaction shard) of (depthOk, depth) \<Rightarrow>
       if \<not> depthOk then MergeFailed
       else (case advanceBinaryMarketSourceState r (binaryMarketDepthRecordIsNativeRebaseSnapshot (en_cx en) r)
           (cu_sourceStates st ! source) of (ok, state) \<Rightarrow>
         if \<not> ok then MergeFailed
         else (case fillHead en st (shard\<lparr>cs_depthTransaction := depth\<rparr>) of
           None \<Rightarrow> MergeFailed
         | Some shard' \<Rightarrow> Merged r (st\<lparr>cu_sourceStates := (cu_sourceStates st)[source := state],
             cu_shards := (cu_shards st)[n := shard']\<rparr>)))))"

section \<open>The merge terminates\<close>

definition fileWork :: "corpusEnv \<Rightarrow> string \<Rightarrow> SegmentKey \<Rightarrow> nat" where
  "fileWork en root key = (case en_files en (segmentPath root (key_shard key) (key_number key) ''cxm'') of
     None \<Rightarrow> 0 | Some bs \<Rightarrow> 257 * length bs)"

definition shardWork :: "corpusEnv \<Rightarrow> string \<Rightarrow> CursorShard \<Rightarrow> nat" where
  "shardWork en root s = (case cs_decoder s of None \<Rightarrow> 0 | Some d \<Rightarrow> decoderWork d) +
     (\<Sum>key \<leftarrow> drop (cs_position s) (cs_segments s). fileWork en root key) + (if cs_ready s then 1 else 0)"

definition cursorWork :: "corpusEnv \<Rightarrow> BinaryMarketCorpusCursorState \<Rightarrow> nat" where
  "cursorWork en st = (\<Sum>s \<leftarrow> cu_shards st. shardWork en (rq_root (cu_request st)) s)"

lemma headLoop_work:
  assumes "headLoop en root epoch sources s = Some s'" and "\<not> cs_ready s"
  shows "shardWork en root s' \<le> shardWork en root s"
  using assms
proof (induction en root epoch sources s rule: headLoop.induct)
  case (1 en root epoch sources s)
  show ?case
  proof (cases "cs_decoder s")
    case None
    show ?thesis
    proof (cases "length (cs_segments s) \<le> cs_position s")
      case True
      then show ?thesis using 1 None by (simp add: headLoop.simps)
    next
      case False
      then obtain d where d: "decoder_open (en_files en) root (cs_segments s ! cs_position s) epoch = Some d"
        using 1 None by (auto simp: headLoop.simps [of en root epoch sources s] split: option.splits)
      have "drop (cs_position s) (cs_segments s) = cs_segments s ! cs_position s # drop (cs_position s + 1) (cs_segments s)"
        using False by (simp add: Cons_nth_drop_Suc)
      moreover have "decoderWork d \<le> fileWork en root (cs_segments s ! cs_position s)"
        by (rule decoder_open_work [OF d]) (simp add: fileWork_def)
      ultimately have le: "shardWork en root (s\<lparr>cs_decoder := Some d, cs_position := cs_position s + 1\<rparr>) \<le> shardWork en root s"
        using None by (simp add: shardWork_def)
      have run: "headLoop en root epoch sources (s\<lparr>cs_decoder := Some d, cs_position := cs_position s + 1\<rparr>) = Some s'"
        using 1(3) None False d by (simp add: headLoop.simps [of en root epoch sources s])
      show ?thesis using 1(1) [OF None False d run] 1(4) le by simp
    qed
  next
    case (Some d)
    obtain r d' where n: "decoder_next (en_cx en) (en_bound en) (en_decode en) sources d = Some (r, d')"
      using 1 Some by (auto simp: headLoop.simps [of en root epoch sources s] split: option.splits)
    show ?thesis
    proof (cases r)
      case None
      have run: "headLoop en root epoch sources (s\<lparr>cs_decoder := None\<rparr>) = Some s'"
        using 1(3) Some n None by (simp add: headLoop.simps [of en root epoch sources s])
      have "shardWork en root (s\<lparr>cs_decoder := None\<rparr>) \<le> shardWork en root s" by (simp add: shardWork_def)
      then show ?thesis using 1(2) [OF Some n refl None run] 1(4) by simp
    next
      case (Some q)
      then have "s' = (follow q s)\<lparr>cs_decoder := Some d', cs_head := q, cs_ready := True\<rparr>"
        using 1(3) \<open>cs_decoder s = Some d\<close> n by (simp add: headLoop.simps [of en root epoch sources s] split: if_splits)
      then show ?thesis using decoder_next_work n Some \<open>cs_decoder s = Some d\<close> 1(4)
        by (fastforce simp: shardWork_def follow_def)
    qed
  qed
qed

lemma pickHead_ready:
  assumes "pickHead n best ss = Some (m, r)"
  shows "best = Some (m, r) \<or> (\<exists>i < length ss. m = n + i \<and> cs_ready (ss ! i) \<and> r = cs_head (ss ! i))"
  using assms
proof (induction ss arbitrary: n best)
  case (Cons s ss)
  let ?best = "if cs_ready s \<and> (case best of None \<Rightarrow> True | Some (m, b) \<Rightarrow> recordBefore (cs_head s) b)
    then Some (n, cs_head s) else best"
  from Cons.IH [of "n + 1" ?best] Cons.prems consider "?best = Some (m, r)"
    | i where "i < length ss" "m = n + 1 + i" "cs_ready (ss ! i)" "r = cs_head (ss ! i)" by auto
  then show ?case
  proof cases
    case 1
    then show ?thesis by (auto split: if_splits intro: exI [of _ 0])
  next
    case (2 i)
    then show ?thesis by (intro disjI2 exI [of _ "Suc i"]) simp
  qed
qed simp

lemma sum_list_update:
  "n < length xs \<Longrightarrow> (\<Sum>x \<leftarrow> xs[n := y]. f x) + f (xs ! n) = (\<Sum>x \<leftarrow> xs. f x) + (f y :: nat)"
  by (induction xs arbitrary: n) (auto simp: nth_Cons split: nat.splits)

lemma mergeStep_Merged:
  assumes "mergeStep en st = Merged r st'"
  obtains n depth state s' where "pickHead 0 None (cu_shards st) = Some (n, r)"
    "n < length (cu_shards st)" "cs_ready (cu_shards st ! n)" "r = cs_head (cu_shards st ! n)"
    "advanceBinaryMarketDepthTransaction (en_cx en) r (cs_depthTransaction (cu_shards st ! n)) = (True, depth)"
    "fillHead en st ((cu_shards st ! n)\<lparr>cs_depthTransaction := depth\<rparr>) = Some s'"
    "st' = st\<lparr>cu_sourceStates := (cu_sourceStates st)[unat (rh_sourceId (header r)) - 1 := state],
      cu_shards := (cu_shards st)[n := s']\<rparr>"
proof -
  obtain n depth state s' where pick: "pickHead 0 None (cu_shards st) = Some (n, r)"
    and rest: "advanceBinaryMarketDepthTransaction (en_cx en) r (cs_depthTransaction (cu_shards st ! n)) = (True, depth)"
    "fillHead en st ((cu_shards st ! n)\<lparr>cs_depthTransaction := depth\<rparr>) = Some s'"
    "st' = st\<lparr>cu_sourceStates := (cu_sourceStates st)[unat (rh_sourceId (header r)) - 1 := state],
      cu_shards := (cu_shards st)[n := s']\<rparr>"
    using assms by (auto simp: mergeStep_def Let_def split: option.splits prod.splits if_splits)
  then show ?thesis using that pickHead_ready [OF pick] by auto
qed

lemma mergeStep_work:
  assumes "mergeStep en st = Merged r st'"
  shows "cursorWork en st' < cursorWork en st" and "cu_request st' = cu_request st"
proof -
  obtain n depth state s' where n: "n < length (cu_shards st)" "cs_ready (cu_shards st ! n)"
    and fill: "fillHead en st ((cu_shards st ! n)\<lparr>cs_depthTransaction := depth\<rparr>) = Some s'"
    and st': "st' = st\<lparr>cu_sourceStates := (cu_sourceStates st)[unat (rh_sourceId (header r)) - 1 := state],
      cu_shards := (cu_shards st)[n := s']\<rparr>"
    by (rule mergeStep_Merged [OF assms])
  let ?s = "cu_shards st ! n"
  let ?root = "rq_root (cu_request st)"
  have "shardWork en ?root s' \<le> shardWork en ?root (?s\<lparr>cs_depthTransaction := depth, cs_ready := False\<rparr>)"
    using headLoop_work fill by (simp add: fillHead_def)
  then have "shardWork en ?root s' < shardWork en ?root ?s" using n by (simp add: shardWork_def)
  then show "cursorWork en st' < cursorWork en st"
    using sum_list_update [OF n(1), where y = s' and f = "shardWork en ?root"] by (simp add: cursorWork_def st')
  show "cu_request st' = cu_request st" by (simp add: st')
qed

end
