(* ===== verification/CorpusCursor.thy ===== *)
theory CorpusCursor
  imports CorpusReader
begin

text \<open>
  \<^verbatim>\<open>BinaryMarketCorpusCursor::open\<close>, \<^verbatim>\<open>BinaryMarketCorpusCursor::next\<close> and
  \<^verbatim>\<open>BinaryMarketCorpusReader::select\<close>. An opened cursor has passed every check of the files before its
  first row is released.
\<close>

section \<open>Selection of sources\<close>

definition requestInvalid :: "BinaryMarketSelectionRequest \<Rightarrow> bool" where
  "requestInvalid rq \<longleftrightarrow> rq_root rq = [] \<or>
     (if rq_allSources rq then rq_exchange rq \<noteq> [] \<or> rq_market rq \<noteq> [] \<or> rq_canonicalSymbol rq \<noteq> []
      else rq_exchange rq = [] \<or> rq_market rq = [] \<or> rq_canonicalSymbol rq = []) \<or>
     (\<not> rq_allSources rq \<and> rq_sourceIds rq \<noteq> []) \<or> sint (rq_beginReceiveNs rq) \<le> 0 \<or>
     sint (rq_endReceiveNs rq) \<le> sint (rq_beginReceiveNs rq) \<or> rq_channelMask rq = 0 \<or>
     rq_channelMask rq AND NOT 0x00ff \<noteq> 0 \<or> rq_requiredChannelMask rq AND NOT (rq_channelMask rq) \<noteq> 0"

fun includeIds :: "u32 list \<Rightarrow> bool list \<Rightarrow> bool list option" where
  "includeIds [] included = Some included"
| "includeIds (i # is) included =
     (if i = 0 \<or> length included \<le> unat i then None
      else if included ! unat i then None
      else includeIds is (included[unat i := True]))"

definition matchesRequest :: "BinaryMarketSelectionRequest \<Rightarrow> BinaryMarketSource \<Rightarrow> bool" where
  "matchesRequest rq s \<longleftrightarrow> fixedText (venue s) (venueBytes s) = rq_exchange rq \<and>
     fixedText (market s) (marketBytes s) = rq_market rq \<and>
     fixedText (canonicalSymbol s) (canonicalSymbolBytes s) = rq_canonicalSymbol rq"

text \<open>None when two sources match.\<close>

fun findSource :: "BinaryMarketSelectionRequest \<Rightarrow> BinaryMarketSource option \<Rightarrow> BinaryMarketSource list \<Rightarrow>
    BinaryMarketSource option option" where
  "findSource rq selected [] = Some selected"
| "findSource rq selected (s # ss) =
     (if matchesRequest rq s then if selected \<noteq> None then None else findSource rq (Some s) ss
      else findSource rq selected ss)"

definition chooseSources :: "BinaryMarketSelectionRequest \<Rightarrow> BinaryMarketSource list \<Rightarrow>
    status + (BinaryMarketSource option \<times> bool list)" where
  "chooseSources rq sources =
     (let all = (rq_allSources rq \<and> rq_sourceIds rq = []) in
      if length sources < length (rq_sourceIds rq) then Inl InvalidArgument
      else case includeIds (rq_sourceIds rq) (False # replicate (length sources) all) of
        None \<Rightarrow> Inl InvalidArgument
      | Some included \<Rightarrow>
        if rq_allSources rq then Inr (None, included)
        else case findSource rq None sources of
          None \<Rightarrow> Inl InvalidArgument
        | Some None \<Rightarrow> Inl OutOfRange
        | Some (Some s) \<Rightarrow> Inr (Some s, included[unat (sourceId s) := True]))"

section \<open>Index and gaps\<close>

definition indexEntryInvalid :: "BinaryMarketManifest \<Rightarrow> BinaryMarketSource list \<Rightarrow> BinaryMarketIndexEntry \<Rightarrow> bool" where
  "indexEntryInvalid m sources e =
     (let hasRecordedOnly = (ix_flags e AND IndexHasRecordedOnly \<noteq> 0); hasGap = (ix_flags e AND IndexHasGap \<noteq> 0) in
      ix_segmentNumber e = 0 \<or> mf_segmentCount m < ix_segmentNumber e \<or> ix_sourceId e = 0 \<or>
      length sources < unat (ix_sourceId e) \<or> ix_sourceGeneration e = 0 \<or> ix_recordCount e = 0 \<or>
      ix_firstEventSequence e = 0 \<or> ix_lastEventSequence e = 0 \<or> sint (ix_firstReceiveNs e) \<le> 0 \<or>
      sint (ix_lastReceiveNs e) < sint (ix_firstReceiveNs e) \<or> mf_shardCount m \<le> ix_shardIndex e \<or>
      \<not> validBinaryMarketRecordChannel (ix_channel e) \<or>
      ix_flags e AND NOT (IndexHasGap OR IndexHasRecordedOnly) \<noteq> 0 \<or> hasGap \<noteq> (ix_gapCount e \<noteq> 0) \<or>
      \<not> validBinaryMarketCompatibility (ix_compatibility e) \<or> ix_compatibility e = compatUnavailable \<or>
      hasRecordedOnly \<noteq> (ix_compatibility e = compatRecordedOnly))"

record IndexScan =
  is_segmentShards :: "u16 list"
  is_allSegments :: "SegmentKey list"
  is_identities :: "(SegmentKey \<times> u32 \<times> u64 \<times> u8) list"
  is_recordCount :: u64

fun scanIndex :: "BinaryMarketManifest \<Rightarrow> BinaryMarketSource list \<Rightarrow> BinaryMarketIndexEntry list \<Rightarrow> IndexScan \<Rightarrow>
    IndexScan option" where
  "scanIndex m sources [] sc = Some sc"
| "scanIndex m sources (e # es) sc =
     (if indexEntryInvalid m sources e then None
      else if ix_sourceGeneration e < initialSourceGeneration (sources ! (unat (ix_sourceId e) - 1)) then None
      else let number = unat (ix_segmentNumber e); key = \<lparr>key_number = ix_segmentNumber e, key_shard = ix_shardIndex e\<rparr>;
               known = is_segmentShards sc ! number; who = (key, ix_sourceId e, ix_sourceGeneration e, ix_channel e) in
        if known \<noteq> 0xffff \<and> known \<noteq> ix_shardIndex e then None
        else if who \<in> set (is_identities sc) \<or> 0xffffffffffffffff - ix_recordCount e < is_recordCount sc then None
        else scanIndex m sources es \<lparr>is_segmentShards = (is_segmentShards sc)[number := ix_shardIndex e],
          is_allSegments = List.insert key (is_allSegments sc), is_identities = who # is_identities sc,
          is_recordCount = is_recordCount sc + ix_recordCount e\<rparr>)"

definition checkIndex :: "BinaryMarketManifest \<Rightarrow> BinaryMarketSource list \<Rightarrow> BinaryMarketIndexEntry list \<Rightarrow> u16 list option" where
  "checkIndex m sources index =
     (case scanIndex m sources index \<lparr>is_segmentShards = replicate (unat (mf_segmentCount m) + 1) 0xffff,
         is_allSegments = [], is_identities = [], is_recordCount = 0\<rparr> of
        None \<Rightarrow> None
      | Some sc \<Rightarrow>
        if is_recordCount sc \<noteq> mf_recordCount m \<or> length (is_allSegments sc) \<noteq> unat (mf_segmentCount m) then None
        else Some (is_segmentShards sc))"

definition gapEntryInvalid :: "BinaryMarketManifest \<Rightarrow> BinaryMarketSource list \<Rightarrow> BinaryMarketGap \<Rightarrow> bool" where
  "gapEntryInvalid m sources g \<longleftrightarrow>
     gp_sourceId g = 0 \<or> length sources < unat (gp_sourceId g) \<or> gp_sourceGeneration g = 0 \<or> gp_gapEpoch g = 0 \<or>
     gp_droppedRecords g = 0 \<or> sint (gp_observedReceiveNs g) \<le> 0 \<or>
     \<not> ((0 < sint (gp_minimumDroppedReceiveNs g) \<and>
          sint (gp_minimumDroppedReceiveNs g) \<le> sint (gp_maximumDroppedReceiveNs g)) \<or>
        (gp_minimumDroppedReceiveNs g = 0 \<and> gp_maximumDroppedReceiveNs g = 0)) \<or>
     gp_firstDroppedEventSequence g = 0 \<or> gp_lastDroppedEventSequence g = 0 \<or>
     gp_gapEpoch g \<noteq> gp_droppedRecords g \<or> mf_shardCount m \<le> gp_shardIndex g \<or>
     \<not> validBinaryMarketRecordChannel (gp_channel g) \<or> gp_reserved32 g \<noteq> 0 \<or> gp_reserved8 g \<noteq> 0"

definition gapSelected :: "BinaryMarketSelectionRequest \<Rightarrow> bool list \<Rightarrow> BinaryMarketGap \<Rightarrow> bool" where
  "gapSelected rq included g \<longleftrightarrow> gp_channel g = chSourceLifecycle \<or>
     (included ! unat (gp_sourceId g) \<and> rq_channelMask rq AND binaryMarketChannelBit (gp_channel g) \<noteq> 0 \<and>
      ((gp_minimumDroppedReceiveNs g = 0 \<and> gp_maximumDroppedReceiveNs g = 0) \<or>
       rangesOverlap (gp_minimumDroppedReceiveNs g) (gp_maximumDroppedReceiveNs g)
         (rq_beginReceiveNs rq) (rq_endReceiveNs rq)))"

fun selectGaps :: "BinaryMarketSelectionRequest \<Rightarrow> BinaryMarketManifest \<Rightarrow> BinaryMarketSource list \<Rightarrow> bool list \<Rightarrow>
    BinaryMarketGap list \<Rightarrow> BinaryMarketGap list option" where
  "selectGaps rq m sources included [] = Some []"
| "selectGaps rq m sources included (g # gs) =
     (if gapEntryInvalid m sources g then None
      else if gp_sourceGeneration g < initialSourceGeneration (sources ! (unat (gp_sourceId g) - 1)) then None
      else case selectGaps rq m sources included gs of None \<Rightarrow> None
        | Some gaps \<Rightarrow> Some (if gapSelected rq included g then g # gaps else gaps))"

section \<open>Physical preflight\<close>

definition countObserved :: "BinaryMarketRecordHeader \<Rightarrow> BinaryMarketIndexEntry \<Rightarrow> BinaryMarketIndexEntry" where
  "countObserved h e =
     (let ns = rh_receiveRealtimeNs h;
          e1 = e\<lparr>ix_recordCount := ix_recordCount e + 1,
            ix_firstEventSequence := (if ix_firstEventSequence e = 0 then rh_eventSequence h else ix_firstEventSequence e),
            ix_lastEventSequence := rh_eventSequence h,
            ix_firstReceiveNs := (if ix_firstReceiveNs e = 0 \<or> sint ns < sint (ix_firstReceiveNs e) then ns
              else ix_firstReceiveNs e),
            ix_lastReceiveNs := (if sint (ix_lastReceiveNs e) < sint ns then ns else ix_lastReceiveNs e)\<rparr>;
          e2 = (if rh_flags h AND RecordTraderReplayCompatible = 0
            then e1\<lparr>ix_flags := ix_flags e1 OR IndexHasRecordedOnly, ix_compatibility := compatRecordedOnly\<rparr> else e1)
      in if rh_flags h AND RecordGapBoundary \<noteq> 0
         then e2\<lparr>ix_flags := ix_flags e2 OR IndexHasGap, ix_gapCount := ix_gapCount e2 + 1\<rparr> else e2)"

definition sameIdentity :: "u32 \<Rightarrow> u64 \<Rightarrow> u8 \<Rightarrow> BinaryMarketIndexEntry \<Rightarrow> bool" where
  "sameIdentity source sourceGen channel e \<longleftrightarrow>
     ix_sourceId e = source \<and> ix_sourceGeneration e = sourceGen \<and> ix_channel e = channel"

fun observe :: "SegmentKey \<Rightarrow> BinaryMarketRecordHeader \<Rightarrow> BinaryMarketIndexEntry list \<Rightarrow> BinaryMarketIndexEntry list" where
  "observe key h [] = [countObserved h \<lparr>ix_segmentNumber = key_number key, ix_sourceId = rh_sourceId h,
     ix_sourceGeneration = rh_sourceGeneration h, ix_recordCount = 0, ix_gapCount = 0, ix_firstEventSequence = 0,
     ix_lastEventSequence = 0, ix_firstReceiveNs = 0, ix_lastReceiveNs = 0, ix_flags = 0,
     ix_shardIndex = key_shard key, ix_channel = rh_channel h, ix_compatibility = compatExactTraderReplay\<rparr>]"
| "observe key h (e # es) =
     (if sameIdentity (rh_sourceId h) (rh_sourceGeneration h) (rh_channel h) e then countObserved h e # es
      else e # observe key h es)"

record SegmentScan =
  sc_shard :: CursorShard
  sc_observed :: "BinaryMarketIndexEntry list"
  sc_records :: u64

function scanSegment :: "corpusEnv \<Rightarrow> nat \<Rightarrow> SegmentKey \<Rightarrow> SegmentDecoder \<Rightarrow> SegmentScan \<Rightarrow> SegmentScan option" where
  "scanSegment en sources key d sc =
     (case decoder_next (en_cx en) (en_bound en) (en_decode en) sources d of
        None \<Rightarrow> None
      | Some (None, d') \<Rightarrow> Some sc
      | Some (Some r, d') \<Rightarrow>
          if crossesOrder r (sc_shard sc) then None
          else scanSegment en sources key d' \<lparr>sc_shard = follow r (sc_shard sc),
            sc_observed = observe key (header r) (sc_observed sc), sc_records = sc_records sc + 1\<rparr>)"
  by pat_completeness auto
termination
  by (relation "measure (\<lambda>(en, sources, key, d, sc). decoderWork d)") (auto intro: decoder_next_work)

declare scanSegment.simps [simp del]

definition sameTotals :: "BinaryMarketIndexEntry \<Rightarrow> BinaryMarketIndexEntry \<Rightarrow> bool" where
  "sameTotals e a \<longleftrightarrow> ix_sourceGeneration e = ix_sourceGeneration a \<and> ix_recordCount e = ix_recordCount a \<and>
     ix_gapCount e = ix_gapCount a \<and> ix_firstEventSequence e = ix_firstEventSequence a \<and>
     ix_lastEventSequence e = ix_lastEventSequence a \<and> ix_firstReceiveNs e = ix_firstReceiveNs a \<and>
     ix_lastReceiveNs e = ix_lastReceiveNs a \<and> ix_flags e = ix_flags a \<and> ix_compatibility e = ix_compatibility a"

definition indexAgrees :: "BinaryMarketIndexEntry list \<Rightarrow> u32 \<Rightarrow> BinaryMarketIndexEntry list \<Rightarrow> bool" where
  "indexAgrees index number observed =
     (length (filter (\<lambda>e. ix_segmentNumber e = number) index) = length observed \<and>
      list_all (\<lambda>a. case List.find (\<lambda>e. ix_segmentNumber e = number \<and>
          sameIdentity (ix_sourceId a) (ix_sourceGeneration a) (ix_channel a) e) index of
        None \<Rightarrow> False | Some e \<Rightarrow> sameTotals e a) observed)"

definition metadataBytes :: "nat \<Rightarrow> nat \<Rightarrow> nat \<Rightarrow> u64" where
  "metadataBytes sources index gaps = word_of_nat sizeof_Manifest + 3 * 64 +
     word_of_nat sources * word_of_nat sizeof_BinaryMarketSource + word_of_nat index * word_of_nat sizeof_IndexEntry +
     word_of_nat gaps * word_of_nat sizeof_Gap"

text \<open>The loop over the segment numbers; the state is the shards, the physical bytes and the observed
  records.\<close>

fun scanSegments :: "corpusEnv \<Rightarrow> string \<Rightarrow> BinaryMarketManifest \<Rightarrow> nat \<Rightarrow> BinaryMarketIndexEntry list \<Rightarrow> u16 list \<Rightarrow>
    nat list \<Rightarrow> CursorShard list \<times> u64 \<times> u64 \<Rightarrow> (CursorShard list \<times> u64 \<times> u64) option" where
  "scanSegments en root m sources index segmentShards [] st = Some st"
| "scanSegments en root m sources index segmentShards (number # numbers) (shards, physicalBytes, observed) =
     (let key = \<lparr>key_number = word_of_nat number, key_shard = segmentShards ! number\<rparr>; n = unat (key_shard key) in
      case decoder_open (en_files en) root key (mf_producerEpoch m) of
        None \<Rightarrow> None
      | Some d \<Rightarrow>
        let segmentBytes = word_of_nat sizeof_SegmentHeader + sh_storedBlockBytes (sd_header d) +
              word_of_nat sizeof_SegmentFooter in
        if mf_projectedBytes m < physicalBytes \<or> mf_projectedBytes m - physicalBytes < segmentBytes then None
        else case scanSegment en sources key d \<lparr>sc_shard = shards ! n, sc_observed = [], sc_records = observed\<rparr> of
          None \<Rightarrow> None
        | Some sc \<Rightarrow>
          if \<not> indexAgrees index (key_number key) (sc_observed sc) then None
          else scanSegments en root m sources index segmentShards numbers
            (shards[n := (sc_shard sc)\<lparr>cs_segments := cs_segments (sc_shard sc) @ [key]\<rparr>],
             physicalBytes + segmentBytes, sc_records sc))"

fun fillAll :: "corpusEnv \<Rightarrow> BinaryMarketCorpusCursorState \<Rightarrow> CursorShard list \<Rightarrow> CursorShard list option" where
  "fillAll en st [] = Some []"
| "fillAll en st (s # ss) = do { s' \<leftarrow> fillHead en st s; ss' \<leftarrow> fillAll en st ss; Some (s' # ss') }"

section \<open>Merge preflight\<close>

definition outsideRequest :: "BinaryMarketSelectionRequest \<Rightarrow> bool list \<Rightarrow> BinaryMarketRecord \<Rightarrow> bool" where
  "outsideRequest rq included r \<longleftrightarrow> (let h = header r in
     \<not> included ! unat (rh_sourceId h) \<or>
     (rh_channel h \<noteq> chSourceLifecycle \<and> rq_channelMask rq AND binaryMarketChannelBit (rh_channel h) = 0) \<or>
     sint (rh_receiveRealtimeNs h) < sint (rq_beginReceiveNs rq) \<or>
     sint (rq_endReceiveNs rq) \<le> sint (rh_receiveRealtimeNs h))"

definition noteBegin :: "nat \<Rightarrow> BinaryMarketSourceState \<Rightarrow> BinaryMarketSelection \<Rightarrow> BinaryMarketSelection" where
  "noteBegin n s sel = sel\<lparr>sl_sourcesAtBegin := (sl_sourcesAtBegin sel)[n := effectiveBinaryMarketSource s],
     sl_sourceLifecycleRevisionsAtBegin := (sl_sourceLifecycleRevisionsAtBegin sel)[n := st_directoryRevision s],
     sl_sourceUnhealthyChannelMasksAtBegin := (sl_sourceUnhealthyChannelMasksAtBegin sel)[n := unhealthyMask s],
     sl_sourceAdministrativeUnhealthyChannelMasksAtBegin :=
       (sl_sourceAdministrativeUnhealthyChannelMasksAtBegin sel)[n := administrativeUnhealthyMask s],
     sl_sourceRecoveryPendingChannelMasksAtBegin :=
       (sl_sourceRecoveryPendingChannelMasksAtBegin sel)[n := recoveryPendingMask s]\<rparr>"

definition readyDepth :: "cxet \<Rightarrow> BinaryMarketRecord \<Rightarrow> BinaryMarketSourceState \<Rightarrow> bool" where
  "readyDepth cx r s = (let h = header r in
     if rh_channel h \<noteq> chDepth then True
     else if rh_flags h AND RecordDepthCoverage = 0 \<and> unhealthyMask s AND binaryMarketChannelBit (rh_channel h) = 0
     then dc_state (depthOf r) = depthHealthy \<or> dc_state (depthOf r) = depthPartial \<or>
       binaryMarketDepthRecordIsNativeRebaseSnapshot cx r
     else False)"

text \<open>What the preflight notes of a record inside the request.\<close>

definition noteRecord :: "cxet \<Rightarrow> BinaryMarketSelectionRequest \<Rightarrow> BinaryMarketRecord \<Rightarrow> BinaryMarketSourceState \<Rightarrow>
    BinaryMarketSelection \<Rightarrow> status + BinaryMarketSelection" where
  "noteRecord cx rq r s sel =
     (let h = header r; n = unat (rh_sourceId h) - 1; bit = binaryMarketChannelBit (rh_channel h);
          health = binaryMarketRecordIsSourceHealth r; compatible = (rh_flags h AND RecordTraderReplayCompatible \<noteq> 0);
          observed = (\<lambda>m sel. sel\<lparr>sl_sourceObservedChannelMasks :=
            (sl_sourceObservedChannelMasks sel)[n := sl_sourceObservedChannelMasks sel ! n OR m]\<rparr>) in
      if rh_flags h AND RecordGapBoundary \<noteq> 0 then Inl CorruptData
      else let sel1 = (if rh_channel h = chSourceLifecycle \<and> lp_cause (lifecycleOf r) \<noteq> causeSubscription
             then observed (binaryMarketChannelBit (lp_affectedChannel (lifecycleOf r))) sel else sel);
           sel2 = (if health \<or> compatible then observed bit sel1 else sel1);
           sel3 = (if \<not> health \<and> compatible \<and> readyDepth cx r s
             then sel2\<lparr>sl_presentChannelMask := sl_presentChannelMask sel2 OR bit,
               sl_sourcePresentChannelMasks :=
                 (sl_sourcePresentChannelMasks sel2)[n := sl_sourcePresentChannelMasks sel2 ! n OR bit]\<rparr> else sel2);
           sel4 = (if sl_source sel3 \<noteq> None \<and> sl_sourceGeneration sel3 = 0
             then sel3\<lparr>sl_sourceGeneration := rh_sourceGeneration h\<rparr> else sel3) in
        if rq_requireTraderReplayCompatibility rq \<and> \<not> health \<and> \<not> compatible then Inl Unimplemented
        else Inr sel4)"

function preflight :: "corpusEnv \<Rightarrow> BinaryMarketCorpusCursorState \<Rightarrow> BinaryMarketSelection \<Rightarrow>
    status + (BinaryMarketCorpusCursorState \<times> BinaryMarketSelection)" where
  "preflight en st sel = (case mergeStep en st of
     MergeEnd \<Rightarrow> Inr (st, sel)
   | MergeFailed \<Rightarrow> Inl CorruptData
   | Merged r st' \<Rightarrow>
     let rq = cu_request st; n = unat (rh_sourceId (header r)) - 1;
         sel1 = (if sint (rh_receiveRealtimeNs (header r)) < sint (rq_beginReceiveNs rq)
           then noteBegin n (cu_sourceStates st' ! n) sel else sel) in
     if outsideRequest (cu_request st) (cu_includedSources st) r then preflight en st' sel1
     else (case noteRecord (en_cx en) rq r (cu_sourceStates st' ! n) sel1 of
       Inl status \<Rightarrow> Inl status
     | Inr sel2 \<Rightarrow> preflight en st' sel2))"
  by pat_completeness auto
termination
  by (relation "measure (\<lambda>(en, st, sel). cursorWork en st)") (auto intro: mergeStep_work)

declare preflight.simps [simp del]

definition resetShard :: "cxet \<Rightarrow> CursorShard \<Rightarrow> CursorShard" where
  "resetShard cx s = s\<lparr>cs_decoder := None, cs_position := 0, cs_ready := False, cs_previousSequence := 0,
     cs_previousMonotonic := 0, cs_depthTransaction := emptyDepthTransaction cx\<rparr>"

section \<open>Open, next and select\<close>

definition initialSelection :: "BinaryMarketManifest \<Rightarrow> BinaryMarketSource option \<Rightarrow> BinaryMarketSource list \<Rightarrow>
    BinaryMarketSelection" where
  "initialSelection m selected sources = (let zeros = replicate (length sources) 0 in
     \<lparr>sl_manifest = m, sl_source = selected, sl_records = [], sl_presentChannelMask = 0, sl_sourceGeneration = 0,
      sl_sourcePresentChannelMasks = zeros, sl_sourceObservedChannelMasks = zeros,
      sl_sourcesAtBegin = map (effectiveBinaryMarketSource \<circ> initialBinaryMarketSourceState) sources,
      sl_sourceLifecycleRevisionsAtBegin = replicate (length sources) 0,
      sl_sourceUnhealthyChannelMasksAtBegin = zeros,
      sl_sourceAdministrativeUnhealthyChannelMasksAtBegin = zeros,
      sl_sourceRecoveryPendingChannelMasksAtBegin = zeros\<rparr>)"

text \<open>The selection is checked against the catalog, index and gaps, before any segment is read.\<close>

definition planSelection :: "corpusEnv \<Rightarrow> BinaryMarketSelectionRequest \<Rightarrow> status + (BinaryMarketManifest \<times>
    BinaryMarketSource list \<times> BinaryMarketSource option \<times> bool list \<times> BinaryMarketIndexEntry list \<times> nat \<times> u16 list)" where
  "planSelection en rq =
     (if requestInvalid rq then Inl InvalidArgument
      else case catalog (en_files en) (rq_root rq) of
        Inl st \<Rightarrow> Inl st
      | Inr (m, sources) \<Rightarrow>
        if sint (rq_beginReceiveNs rq) < sint (mf_startedReceiveNs m) \<or>
           sint (mf_finalizedReceiveNs m) < sint (rq_endReceiveNs rq) then Inl OutOfRange
        else case chooseSources rq sources of
          Inl st \<Rightarrow> Inl st
        | Inr (selected, included) \<Rightarrow>
          (case (readTable sizeof_IndexEntry indexEntry_of (en_files en) (rq_root rq @ ''/index.bin'')
              kBinaryMarketIndexMagic (mf_indexCrc32c m) (mf_maximumBytes m) (ucast (mf_indexCount m)),
            readTable sizeof_Gap gap_of (en_files en) (rq_root rq @ ''/gaps.bin'')
              kBinaryMarketGapsMagic (mf_gapsCrc32c m) (mf_maximumBytes m) (mf_gapCount m)) of
            (Some index, Some gaps) \<Rightarrow>
              if length index \<noteq> unat (mf_indexCount m) \<or> length gaps \<noteq> unat (mf_gapCount m) then Inl CorruptData
              else (case checkIndex m sources index of
                None \<Rightarrow> Inl CorruptData
              | Some segmentShards \<Rightarrow>
                (case selectGaps rq m sources included gaps of
                  None \<Rightarrow> Inl CorruptData
                | Some selectedGaps \<Rightarrow>
                  if selectedGaps \<noteq> [] then Inl CorruptData
                  else Inr (m, sources, selected, included, index, length gaps, segmentShards)))
          | _ \<Rightarrow> Inl CorruptData))"

definition cursor_open :: "corpusEnv \<Rightarrow> BinaryMarketSelectionRequest \<Rightarrow>
    status + (BinaryMarketSelection \<times> BinaryMarketCorpusCursorState)" where
  "cursor_open en rq = (case planSelection en rq of
     Inl st \<Rightarrow> Inl st
   | Inr (m, sources, selected, included, index, gaps, segmentShards) \<Rightarrow>
     (case scanSegments en (rq_root rq) m (length sources) index segmentShards
         (map Suc [0..<unat (mf_segmentCount m)])
         (replicate (unat (mf_shardCount m)) (emptyShard (en_cx en)),
          metadataBytes (length sources) (length index) gaps, 0) of
       None \<Rightarrow> Inl CorruptData
     | Some (shards, physicalBytes, observed) \<Rightarrow>
       if mf_projectedBytes m < physicalBytes \<or> observed \<noteq> mf_recordCount m then Inl CorruptData
       else let st = \<lparr>cu_request = rq, cu_manifest = m, cu_sources = sources,
                  cu_sourceStates = map initialBinaryMarketSourceState sources, cu_shards = shards,
                  cu_includedSources = included, cu_failed = False\<rparr> in
         (case fillAll en st (map (\<lambda>s. s\<lparr>cs_previousSequence := 0, cs_previousMonotonic := 0\<rparr>) shards) of
           None \<Rightarrow> Inl CorruptData
         | Some heads \<Rightarrow>
           (case preflight en (st\<lparr>cu_shards := heads\<rparr>) (initialSelection m selected sources) of
             Inl status \<Rightarrow> Inl status
           | Inr (st1, sel) \<Rightarrow>
             if list_ex (active \<circ> cs_depthTransaction) (cu_shards st1) then Inl CorruptData
             else if rq_requiredChannelMask rq AND NOT (sl_presentChannelMask sel) \<noteq> 0 then Inl OutOfRange
             else (case fillAll en st (map (resetShard (en_cx en)) (cu_shards st1)) of
               None \<Rightarrow> Inl CorruptData
             | Some heads' \<Rightarrow> Inr (sel, st\<lparr>cu_shards := heads'\<rparr>))))))"

function nextLoop :: "corpusEnv \<Rightarrow> BinaryMarketCorpusCursorState \<Rightarrow>
    status \<times> BinaryMarketRecord option \<times> BinaryMarketCorpusCursorState" where
  "nextLoop en st = (case mergeStep en st of
     MergeEnd \<Rightarrow> (Ok, None, st)
   | MergeFailed \<Rightarrow> (CorruptData, None, st\<lparr>cu_failed := True\<rparr>)
   | Merged r st' \<Rightarrow>
     if outsideRequest (cu_request st) (cu_includedSources st) r then nextLoop en st'
     else if rh_flags (header r) AND RecordGapBoundary \<noteq> 0 \<or>
       (rq_requireTraderReplayCompatibility (cu_request st) \<and> \<not> binaryMarketRecordIsSourceHealth r \<and>
        rh_flags (header r) AND RecordTraderReplayCompatible = 0)
     then (CorruptData, None, st'\<lparr>cu_failed := True\<rparr>)
     else (Ok, Some r, st'))"
  by pat_completeness auto
termination
  by (relation "measure (\<lambda>(en, st). cursorWork en st)") (auto intro: mergeStep_work)

declare nextLoop.simps [simp del]

definition cursor_next :: "corpusEnv \<Rightarrow> BinaryMarketCorpusCursorState option \<Rightarrow>
    status \<times> BinaryMarketRecord option \<times> BinaryMarketCorpusCursorState option" where
  "cursor_next en s = (case s of None \<Rightarrow> (InvalidArgument, None, None)
     | Some st \<Rightarrow> if cu_failed st then (InvalidArgument, None, Some st)
       else case nextLoop en st of (status, r, st') \<Rightarrow> (status, r, Some st'))"

lemma nextLoop_work: "nextLoop en st = (status, Some r, st') \<Longrightarrow> cursorWork en st' < cursorWork en st"
proof (induction en st rule: nextLoop.induct)
  case (1 en st)
  show ?case
  proof (cases "mergeStep en st")
    case (Merged q st1)
    note w = mergeStep_work(1) [OF Merged]
    show ?thesis
    proof (cases "outsideRequest (cu_request st) (cu_includedSources st) q")
      case True
      then have "nextLoop en st1 = (status, Some r, st')" using 1(2) Merged by (simp add: nextLoop.simps [of en st])
      then show ?thesis using 1(1) [OF Merged True] w by simp
    next
      case False
      then show ?thesis using 1(2) Merged w by (auto simp: nextLoop.simps [of en st] split: if_splits)
    qed
  qed (use 1 in \<open>simp_all add: nextLoop.simps [of en st]\<close>)
qed

text \<open>The records before a failure are dropped.\<close>

function selectLoop :: "corpusEnv \<Rightarrow> BinaryMarketCorpusCursorState \<Rightarrow> BinaryMarketRecord list \<Rightarrow>
    status \<times> BinaryMarketRecord list" where
  "selectLoop en st rs =
     (if cu_failed st then (InvalidArgument, [])
      else case nextLoop en st of (status, r, st') \<Rightarrow>
        if \<not> isOk status then (status, [])
        else (case r of None \<Rightarrow> (Ok, rs) | Some q \<Rightarrow> selectLoop en st' (rs @ [q])))"
  by pat_completeness auto
termination
  by (relation "measure (\<lambda>(en, st, rs). cursorWork en st)") (auto intro: nextLoop_work [OF sym])

declare selectLoop.simps [simp del]

definition select :: "corpusEnv \<Rightarrow> BinaryMarketSelectionRequest \<Rightarrow> status + BinaryMarketSelection" where
  "select en rq = (case cursor_open en rq of
     Inl st \<Rightarrow> Inl st
   | Inr (sel, st) \<Rightarrow> (case selectLoop en st [] of (status, rs) \<Rightarrow>
       if isOk status then Inr (sel\<lparr>sl_records := rs\<rparr>) else Inl status))"

end
