(* ===== verification/SegmentFiles.thy ===== *)
theory SegmentFiles
  imports SegmentReader WriterBlocks
begin

text \<open>
  What a sealed segment file contains, as a function of the records of its blocks, and that the segment
  decoder returns exactly these records. Of the decompressor it is assumed that it undoes the compressor.
\<close>

definition decompressor_contract :: "compressor \<Rightarrow> decompressor \<Rightarrow> bool" where
  "decompressor_contract cz decode \<longleftrightarrow> (\<forall>layout raw capacity encoded.
     cz_encode cz layout raw capacity = Some encoded \<longrightarrow> decode layout encoded (length raw) = Some raw)"

section \<open>Blocks\<close>

definition images :: "BinaryMarketRecord list \<Rightarrow> bytes" where
  "images rs = concat (map record_image rs)"

definition blockHeader :: "nat \<Rightarrow> BinaryMarketRecord list \<Rightarrow> bytes \<Rightarrow> BinaryMarketBlockHeader" where
  "blockHeader k rs encoded =
     (let b = \<lparr>bk_magic = kBinaryMarketBlockMagic, bk_headerBytes = 64, bk_blockNumber = word_of_nat k,
        bk_recordCount = word_of_nat (length rs), bk_rawBytes = word_of_nat (length rs * sizeof_BinaryMarketRecord),
        bk_encodedBytes = word_of_nat (length encoded), bk_rawCrc32c = crc32c (images rs),
        bk_encodedCrc32c = crc32c encoded, bk_firstShardSequence = rh_shardSequence (header (hd rs)),
        bk_lastShardSequence = rh_shardSequence (header (last rs)), bk_headerCrc32c = 0,
        bk_channel = rh_channel (header (hd rs)), bk_reserved = replicate 11 0\<rparr>
      in b\<lparr>bk_headerCrc32c := crc32c (marketBlock_image b)\<rparr>)"

definition encoding :: "compressor \<Rightarrow> BinaryMarketRecord list \<Rightarrow> bytes option" where
  "encoding cz rs = cz_encode cz (binaryMarketBlockLayout (rh_channel (header (hd rs)))) (images rs)
     (cz_bound cz (binaryMarketBlockLayout chDepth) kBinaryMarketBlockRecords)"

definition blockFile :: "compressor \<Rightarrow> nat \<Rightarrow> BinaryMarketRecord list \<Rightarrow> bytes" where
  "blockFile cz k rs = marketBlock_image (blockHeader k rs (the (encoding cz rs))) @ the (encoding cz rs)"

fun blockFiles :: "compressor \<Rightarrow> nat \<Rightarrow> BinaryMarketRecord list list \<Rightarrow> bytes" where
  "blockFiles cz k [] = []"
| "blockFiles cz k (rs # rss) = blockFile cz k rs @ blockFiles cz (k + 1) rss"

lemma blockFiles_append: "blockFiles cz k (xs @ ys) = blockFiles cz k xs @ blockFiles cz (k + length xs) ys"
  by (induction xs arbitrary: k) simp_all

definition arrival :: "BinaryMarketRecord \<Rightarrow> BinaryMarketRecord \<Rightarrow> bool" where
  "arrival a b \<longleftrightarrow> rh_shardSequence (header a) < rh_shardSequence (header b) \<and>
     rh_receiveMonotonicNs (header a) \<le> rh_receiveMonotonicNs (header b)"

definition row_ok :: "cxet \<Rightarrow> nat \<Rightarrow> u16 \<Rightarrow> BinaryMarketRecord \<Rightarrow> bool" where
  "row_ok cx sources shard r \<longleftrightarrow> validBinaryMarketRecord cx r \<and> record_wf r \<and> rh_shardIndex (header r) = shard \<and>
     unat (rh_sourceId (header r)) \<le> sources \<and> all_zero (drop (unat (rh_payloadBytes (header r))) (payload r))"

definition block_ok :: "compressor \<Rightarrow> BinaryMarketRecord list \<Rightarrow> bool" where
  "block_ok cz rs \<longleftrightarrow> rs \<noteq> [] \<and> length rs \<le> kBinaryMarketBlockRecords \<and>
     (\<forall>r \<in> set rs. rh_channel (header r) = rh_channel (header (hd rs))) \<and>
     encoding cz rs \<noteq> None \<and> the (encoding cz rs) \<noteq> []"

lemma images_simps [simp]: "images [] = []" "images (r # rs) = record_image r @ images rs" "images (rs @ rs') = images rs @ images rs'"
  by (simp_all add: images_def)

lemma length_images: "\<forall>r \<in> set rs. record_wf r \<Longrightarrow> length (images rs) = length rs * 1024"
  by (simp add: images_def length_records)

lemma blockHeader_simps [simp]:
  "bk_magic (blockHeader k rs e) = kBinaryMarketBlockMagic" "bk_headerBytes (blockHeader k rs e) = 64"
  "bk_blockNumber (blockHeader k rs e) = word_of_nat k" "bk_recordCount (blockHeader k rs e) = word_of_nat (length rs)"
  "bk_rawBytes (blockHeader k rs e) = word_of_nat (length rs * 1024)"
  "bk_encodedBytes (blockHeader k rs e) = word_of_nat (length e)" "bk_rawCrc32c (blockHeader k rs e) = crc32c (images rs)"
  "bk_encodedCrc32c (blockHeader k rs e) = crc32c e"
  "bk_firstShardSequence (blockHeader k rs e) = rh_shardSequence (header (hd rs))"
  "bk_lastShardSequence (blockHeader k rs e) = rh_shardSequence (header (last rs))"
  "bk_channel (blockHeader k rs e) = rh_channel (header (hd rs))" "bk_reserved (blockHeader k rs e) = replicate 11 0"
  "blockHeader_wf (blockHeader k rs e)"
  by (simp_all add: blockHeader_def Let_def sizeof_BinaryMarketRecord_def blockHeader_wf_def)

lemma blockHeader_checksum:
  "bk_headerCrc32c (blockHeader k rs e) = crc32c (zero4 48 (marketBlock_image (blockHeader k rs e)))"
  by (simp add: zero4_marketBlock) (simp add: blockHeader_def Let_def)

lemma length_blockFile: "length (blockFile cz k rs) = 64 + length (the (encoding cz rs))"
  by (simp add: blockFile_def)

lemma encoded_bounds:
  assumes "compressor_contract cz" and "block_ok cz rs" and "\<forall>r \<in> set rs. record_wf r"
  shows "length (the (encoding cz rs)) \<le> cz_bound cz (binaryMarketBlockLayout (rh_channel (header (hd rs)))) (length rs)"
    and "length (the (encoding cz rs)) < 2 ^ 32" and "0 < length (the (encoding cz rs))"
proof -
  let ?layout = "binaryMarketBlockLayout (rh_channel (header (hd rs)))"
  obtain e where e: "encoding cz rs = Some e" "e \<noteq> []" using assms(2) by (auto simp: block_ok_def)
  have "length (images rs) div bl_recordBytes ?layout = length rs"
    using length_images [OF assms(3)] by (simp add: binaryMarketBlockLayout_def sizeof_BinaryMarketRecord_def)
  then have b: "length e \<le> cz_bound cz ?layout (length rs)"
    using assms(1) e(1) unfolding compressor_contract_def encoding_def by metis
  moreover have "cz_bound cz ?layout (length rs) < 2 ^ 32"
    using assms(1,2) unfolding compressor_contract_def block_ok_def by blast
  ultimately show "length (the (encoding cz rs)) \<le> cz_bound cz ?layout (length rs)"
    and "length (the (encoding cz rs)) < 2 ^ 32" and "0 < length (the (encoding cz rs))" using e by auto
qed

section \<open>Segment headers\<close>

definition countRecord :: "BinaryMarketSegmentHeader \<Rightarrow> BinaryMarketRecord \<Rightarrow> BinaryMarketSegmentHeader" where
  "countRecord sh r = sh\<lparr>sh_recordsCrc32c := crc32cUpdate (sh_recordsCrc32c sh) (record_image r),
     sh_recordCount := sh_recordCount sh + 1,
     sh_firstReceiveNs := earliest (sh_firstReceiveNs sh) (rh_receiveRealtimeNs (header r)),
     sh_lastReceiveNs := latest (sh_lastReceiveNs sh) (rh_receiveRealtimeNs (header r))\<rparr>"

definition firstReceive :: "i64 \<Rightarrow> BinaryMarketRecord list \<Rightarrow> i64" where
  "firstReceive = foldl (\<lambda>t r. earliest t (rh_receiveRealtimeNs (header r)))"

definition lastReceive :: "i64 \<Rightarrow> BinaryMarketRecord list \<Rightarrow> i64" where
  "lastReceive = foldl (\<lambda>t r. latest t (rh_receiveRealtimeNs (header r)))"

definition baseHeader :: "u64 \<Rightarrow> u16 \<Rightarrow> u32 \<Rightarrow> BinaryMarketSegmentHeader" where
  "baseHeader epoch shard number = emptySegmentHeader\<lparr>sh_headerBytes := word_of_nat sizeof_SegmentHeader,
     sh_recordBytes := word_of_nat sizeof_BinaryMarketRecord, sh_segmentNumber := number,
     sh_producerEpoch := epoch, sh_shardIndex := shard\<rparr>"

definition segmentHeaderFor :: "compressor \<Rightarrow> u64 \<Rightarrow> u16 \<Rightarrow> u32 \<Rightarrow> BinaryMarketRecord list list \<Rightarrow>
    BinaryMarketRecord list \<Rightarrow> BinaryMarketSegmentHeader" where
  "segmentHeaderFor cz epoch shard number blocks pending =
     (foldl countRecord (baseHeader epoch shard number) (concat blocks @ pending))
       \<lparr>sh_storedBlockBytes := word_of_nat (length (blockFiles cz 1 blocks)), sh_blockCount := word_of_nat (length blocks)\<rparr>"

definition segmentFile :: "compressor \<Rightarrow> u64 \<Rightarrow> u16 \<Rightarrow> u32 \<Rightarrow> BinaryMarketRecord list list \<Rightarrow> bytes" where
  "segmentFile cz epoch shard number blocks =
     (let h = segmentHeaderFor cz epoch shard number blocks [] in
      segmentHeader_image (sealHeader h) @ blockFiles cz 1 blocks @ segmentFooter_image (footerFor h))"

lemma foldl_countRecord:
  "foldl countRecord h rs = h\<lparr>sh_recordsCrc32c := crc32cUpdate (sh_recordsCrc32c h) (images rs),
     sh_recordCount := sh_recordCount h + word_of_nat (length rs),
     sh_firstReceiveNs := firstReceive (sh_firstReceiveNs h) rs, sh_lastReceiveNs := lastReceive (sh_lastReceiveNs h) rs\<rparr>"
proof (induction rs arbitrary: h)
  case Nil
  then show ?case by (simp add: firstReceive_def lastReceive_def crc32cUpdate_def xor.assoc)
next
  case (Cons r rs)
  then show ?case
    by (simp add: countRecord_def firstReceive_def lastReceive_def crc32cUpdate_append add.assoc add.commute)
qed

lemma segmentHeaderFor_simps [simp]:
  "sh_magic (segmentHeaderFor cz epoch shard number blocks ps) = kBinaryMarketSegmentMagic"
  "sh_headerBytes (segmentHeaderFor cz epoch shard number blocks ps) = 128"
  "sh_recordBytes (segmentHeaderFor cz epoch shard number blocks ps) = 1024"
  "sh_segmentNumber (segmentHeaderFor cz epoch shard number blocks ps) = number"
  "sh_producerEpoch (segmentHeaderFor cz epoch shard number blocks ps) = epoch"
  "sh_shardIndex (segmentHeaderFor cz epoch shard number blocks ps) = shard"
  "sh_reserved16 (segmentHeaderFor cz epoch shard number blocks ps) = 0"
  "sh_codecId (segmentHeaderFor cz epoch shard number blocks ps) = 1"
  "sh_reserved (segmentHeaderFor cz epoch shard number blocks ps) = replicate 48 0"
  "sh_recordsCrc32c (segmentHeaderFor cz epoch shard number blocks ps) = crc32c (images (concat blocks @ ps))"
  "sh_recordCount (segmentHeaderFor cz epoch shard number blocks ps) = word_of_nat (length (concat blocks @ ps))"
  "sh_firstReceiveNs (segmentHeaderFor cz epoch shard number blocks ps) = firstReceive 0 (concat blocks @ ps)"
  "sh_lastReceiveNs (segmentHeaderFor cz epoch shard number blocks ps) = lastReceive 0 (concat blocks @ ps)"
  "sh_storedBlockBytes (segmentHeaderFor cz epoch shard number blocks ps) = word_of_nat (length (blockFiles cz 1 blocks))"
  "sh_blockCount (segmentHeaderFor cz epoch shard number blocks ps) = word_of_nat (length blocks)"
  by (simp_all add: segmentHeaderFor_def foldl_countRecord baseHeader_def emptySegmentHeader_def sizeof_SegmentHeader_def
      sizeof_BinaryMarketRecord_def crc32c_def del: of_nat_add foldl_append)

section \<open>Rows of a block\<close>

definition arrived :: "u64 \<Rightarrow> u64 \<Rightarrow> BinaryMarketRecord list \<Rightarrow> bool" where
  "arrived seq ns rs \<longleftrightarrow> sorted_wrt arrival rs \<and>
     (\<forall>r \<in> set rs. (seq \<noteq> 0 \<longrightarrow> seq < rh_shardSequence (header r)) \<and> (ns \<noteq> 0 \<longrightarrow> ns \<le> rh_receiveMonotonicNs (header r)))"

definition lastSequence :: "u64 \<Rightarrow> BinaryMarketRecord list \<Rightarrow> u64" where
  "lastSequence seq rs = (if rs = [] then seq else rh_shardSequence (header (last rs)))"

definition lastMonotonic :: "u64 \<Rightarrow> BinaryMarketRecord list \<Rightarrow> u64" where
  "lastMonotonic ns rs = (if rs = [] then ns else rh_receiveMonotonicNs (header (last rs)))"

lemma arrived_Cons:
  assumes "arrived seq ns (r # rs)"
  shows "arrived (rh_shardSequence (header r)) (rh_receiveMonotonicNs (header r)) rs"
  using assms by (auto simp: arrived_def arrival_def)

lemma last_fields [simp]:
  "lastSequence seq [] = seq" "lastSequence seq (r # rs) = lastSequence (rh_shardSequence (header r)) rs"
  "lastMonotonic ns [] = ns" "lastMonotonic ns (r # rs) = lastMonotonic (rh_receiveMonotonicNs (header r)) rs"
  "lastSequence (lastSequence seq rs) rs' = lastSequence seq (rs @ rs')"
  "lastMonotonic (lastMonotonic ns rs) rs' = lastMonotonic ns (rs @ rs')"
  by (simp_all add: lastSequence_def lastMonotonic_def)

lemma receive_fields [simp]:
  "firstReceive t [] = t" "firstReceive t (r # rs) = firstReceive (earliest t (rh_receiveRealtimeNs (header r))) rs"
  "lastReceive t [] = t" "lastReceive t (r # rs) = lastReceive (latest t (rh_receiveRealtimeNs (header r))) rs"
  by (simp_all add: firstReceive_def lastReceive_def)

lemma receive_append:
  "firstReceive t (rs @ rs') = firstReceive (firstReceive t rs) rs'"
  "lastReceive t (rs @ rs') = lastReceive (lastReceive t rs) rs'"
  by (simp_all add: firstReceive_def lastReceive_def)

lemma checkRows_accepts:
  assumes "\<forall>r \<in> set rs. row_ok cx sources (sh_shardIndex (sd_header d)) r \<and> rh_channel (header r) = channel"
    and "arrived (sd_previousSequence d) (sd_previousMonotonic d) rs"
  shows "checkRows cx sources channel rs d = Some (d\<lparr>sd_previousSequence := lastSequence (sd_previousSequence d) rs,
    sd_previousMonotonic := lastMonotonic (sd_previousMonotonic d) rs,
    sd_firstReceive := firstReceive (sd_firstReceive d) rs, sd_lastReceive := lastReceive (sd_lastReceive d) rs\<rparr>)"
  using assms
proof (induction rs arbitrary: d)
  case (Cons r rs)
  have ok: "row_ok cx sources (sh_shardIndex (sd_header d)) r" "rh_channel (header r) = channel" using Cons.prems(1) by simp_all
  have "sd_previousSequence d \<noteq> 0 \<longrightarrow> sd_previousSequence d < rh_shardSequence (header r)"
    "sd_previousMonotonic d \<noteq> 0 \<longrightarrow> sd_previousMonotonic d \<le> rh_receiveMonotonicNs (header r)"
    using Cons.prems(2) by (simp_all add: arrived_def)
  then have "\<not> rowInvalid cx sources channel d r"
    using ok unfolding rowInvalid_def Let_def row_ok_def by (simp add: not_le not_less) blast
  then have step: "checkRows cx sources channel (r # rs) d = checkRows cx sources channel rs
      (d\<lparr>sd_previousSequence := rh_shardSequence (header r), sd_previousMonotonic := rh_receiveMonotonicNs (header r),
        sd_firstReceive := earliest (sd_firstReceive d) (rh_receiveRealtimeNs (header r)),
        sd_lastReceive := latest (sd_lastReceive d) (rh_receiveRealtimeNs (header r))\<rparr>)" (is "_ = checkRows _ _ _ _ ?d")
    by (simp only: checkRows.simps Let_def if_False earliest_def latest_def)
  have "checkRows cx sources channel rs ?d = Some (?d\<lparr>sd_previousSequence := lastSequence (sd_previousSequence ?d) rs,
      sd_previousMonotonic := lastMonotonic (sd_previousMonotonic ?d) rs,
      sd_firstReceive := firstReceive (sd_firstReceive ?d) rs, sd_lastReceive := lastReceive (sd_lastReceive ?d) rs\<rparr>)"
    by (rule Cons.IH) (use Cons.prems(1) arrived_Cons [OF Cons.prems(2)] in simp_all)
  then show ?case unfolding step by simp
qed simp

lemma arrived_hd_last:
  assumes "arrived seq ns rs" and "rs \<noteq> []"
  shows "rh_shardSequence (header (hd rs)) \<le> rh_shardSequence (header (last rs))"
  using sorted_hd_last [of arrival rs] assms by (auto simp: arrived_def arrival_def)

section \<open>Reading a block\<close>

definition reading :: "compressor \<Rightarrow> BinaryMarketSegmentHeader \<Rightarrow> BinaryMarketRecord list list \<Rightarrow> SegmentDecoder \<Rightarrow> bool" where
  "reading cz h bs d \<longleftrightarrow> sd_header d = h \<and> sd_recordsSeen d = word_of_nat (length (concat bs)) \<and>
     sd_bodyBytes d = word_of_nat (length (blockFiles cz 1 bs)) \<and> sd_blocksSeen d = word_of_nat (length bs) \<and>
     sd_recordsCrc d = crc32c (images (concat bs)) \<and> sd_firstReceive d = firstReceive 0 (concat bs) \<and>
     sd_lastReceive d = lastReceive 0 (concat bs) \<and> sd_previousSequence d = lastSequence 0 (concat bs) \<and>
     sd_previousMonotonic d = lastMonotonic 0 (concat bs) \<and> \<not> sd_finished d"

lemma ucast_of_nat32: "n < 2 ^ 32 \<Longrightarrow> (ucast (word_of_nat n :: u32) :: u64) = word_of_nat n"
  by (rule word_unat_eq_iff [THEN iffD2]) (simp add: unsigned_ucast_eq unat_of_nat take_bit_eq_mod)

lemma of_nat_less64: "n < 2 ^ 64 \<Longrightarrow> m < 2 ^ 64 \<Longrightarrow> (word_of_nat n :: u64) < word_of_nat m \<longleftrightarrow> n < m"
  by (simp add: word_less_nat_alt unat_of_nat)

lemma enough_left64:
  assumes "a + b \<le> n" and "n < 2 ^ 64"
  shows "\<not> (word_of_nat n - word_of_nat a :: u64) < word_of_nat b" and "\<not> (word_of_nat n :: u64) < word_of_nat a"
proof -
  have "(word_of_nat n - word_of_nat a :: u64) = word_of_nat (n - a)" using assms by (simp add: of_nat_diff)
  then show "\<not> (word_of_nat n - word_of_nat a :: u64) < word_of_nat b"
    using of_nat_less64 [of "n - a" b] assms by (simp del: of_nat_diff)
  show "\<not> (word_of_nat n :: u64) < word_of_nat a" using of_nat_less64 [of n a] assms by simp
qed

lemma arrived_append:
  assumes "arrived 0 0 (xs @ ys)" and "\<forall>r \<in> set xs. rh_shardSequence (header r) \<noteq> 0"
  shows "arrived (lastSequence 0 xs) (lastMonotonic 0 xs) ys"
  using assms by (auto simp: arrived_def sorted_wrt_append arrival_def lastSequence_def lastMonotonic_def split: if_splits)

lemma blockFile_accepted:
  assumes cz: "compressor_contract cz" and d: "reading cz h bs d" and ok: "block_ok cz rs"
    and wf: "\<forall>r \<in> set rs. record_wf r \<and> validBinaryMarketRecord cx r"
    and h: "sh_recordBytes h = 1024" "sh_storedBlockBytes h = word_of_nat B" "sh_recordCount h = word_of_nat R"
    and B: "length (blockFiles cz 1 (bs @ [rs])) \<le> B" "B < 2 ^ 64" and R: "length (concat (bs @ [rs])) \<le> R" "R < 2 ^ 64"
    and arr: "arrived s ns rs"
  shows "\<not> blockInvalid (cz_bound cz) d (marketBlock_image (blockHeader (length bs + 1) rs (the (encoding cz rs))))"
proof -
  let ?e = "the (encoding cz rs)"
  let ?b = "blockHeader (length bs + 1) rs ?e"
  have wf': "\<forall>r \<in> set rs. record_wf r" using wf by simp
  note e = encoded_bounds [OF cz ok wf']
  have n: "0 < length rs" "length rs \<le> 256" using ok by (auto simp: block_ok_def kBinaryMarketBlockRecords_def)
  have hd: "validBinaryMarketRecord cx (hd rs)" using wf n(1) by simp
  note v = valid_recordD [OF hd]
  have of: "marketBlock_of (marketBlock_image ?b) = ?b" by (simp add: marketBlock_of_image)
  have body: "length (blockFiles cz 1 bs) + (64 + length ?e) \<le> B"
    using B(1) by (simp add: blockFiles_append length_blockFile)
  have seen: "length (concat bs) + length rs \<le> R" using R(1) by simp
  have u: "ucast (bk_encodedBytes ?b) = (word_of_nat (length ?e) :: u64)" "ucast (bk_recordCount ?b) = (word_of_nat (length rs) :: u64)"
    using e(2) n(2) by (simp_all add: ucast_of_nat32)
  have le: "rh_shardSequence (header (hd rs)) \<le> rh_shardSequence (header (last rs))"
    by (rule arrived_hd_last [OF arr]) (use n in auto)
  have raw: "bk_rawBytes ?b = bk_recordCount ?b * 1024" by (simp add: mult.commute)
  have width: "word_of_nat sizeof_BlockHeader + ucast (bk_encodedBytes ?b) = (word_of_nat (64 + length ?e) :: u64)"
    unfolding u by (simp add: sizeof_BlockHeader_def)
  have b1: "\<not> sh_storedBlockBytes h < sd_bodyBytes d"
    "\<not> sh_storedBlockBytes h - sd_bodyBytes d < word_of_nat sizeof_BlockHeader + ucast (bk_encodedBytes ?b)"
    using enough_left64 [OF body B(2)] d h(2) unfolding width reading_def by simp_all
  have b3: "\<not> sh_recordCount h < sd_recordsSeen d" "\<not> sh_recordCount h - sd_recordsSeen d < ucast (bk_recordCount ?b)"
    using enough_left64 [OF seen R(2)] d h(3) unfolding u reading_def by simp_all
  have nz: "bk_recordCount ?b \<noteq> 0" "unat (bk_recordCount ?b) = length rs" "bk_encodedBytes ?b \<noteq> 0"
    "unat (bk_encodedBytes ?b) = length ?e"
    using n e by (simp_all add: word_unat_eq_iff unat_of_nat)
  have "bk_blockNumber ?b = sd_blocksSeen d + 1" using d by (simp add: reading_def)
  then show ?thesis unfolding blockInvalid_def Let_def of
    using b1 b3 raw le nz e(1) n v h(1) d
    by (simp add: blockHeader_checksum [symmetric] reading_def sizeof_BlockHeader_def kBinaryMarketBlockRecords_def all_zero_def
        not_less list_all_iff del: of_nat_mult)
qed

lemma array_of_images:
  assumes "\<forall>r \<in> set rs. record_wf r"
  shows "array_of 1024 record_of (length rs) (images rs) = rs"
  using array_of_concat [of rs record_image 1024 record_of "[]"] assms
  by (simp add: images_def length_record_image record_of_image)

definition stream_ok :: "cxet \<Rightarrow> compressor \<Rightarrow> nat \<Rightarrow> u16 \<Rightarrow> BinaryMarketRecord list list \<Rightarrow> bool" where
  "stream_ok cx cz sources shard blocks \<longleftrightarrow> list_all (block_ok cz) blocks \<and>
     (\<forall>r \<in> set (concat blocks). row_ok cx sources shard r) \<and> sorted_wrt arrival (concat blocks)"

lemma sequence_nonzero: "row_ok cx sources shard r \<Longrightarrow> rh_shardSequence (header r) \<noteq> 0"
  using valid_recordD(1) by (auto simp: row_ok_def)

lemma readBlock_reads:
  assumes cz: "compressor_contract cz" "decompressor_contract cz decode" and d: "reading cz h bs d"
    and stream: "sd_stream d = blockFile cz (length bs + 1) rs @ rest"
    and ok: "stream_ok cx cz sources shard (bs @ [rs])"
    and h: "sh_recordBytes h = 1024" "sh_shardIndex h = shard" "sh_storedBlockBytes h = word_of_nat B" "sh_recordCount h = word_of_nat R"
    and B: "length (blockFiles cz 1 (bs @ [rs])) \<le> B" "B < 2 ^ 64" and R: "length (concat (bs @ [rs])) \<le> R" "R < 2 ^ 64"
  obtains d' where "readBlock cx (cz_bound cz) decode sources d = Some d'" "reading cz h (bs @ [rs]) d'"
    "sd_stream d' = rest" "sd_decoded d' = rs" "sd_position d' = 0"
proof -
  let ?e = "the (encoding cz rs)"
  define b where "b = blockHeader (length bs + 1) rs ?e"
  let ?layout = "binaryMarketBlockLayout (rh_channel (header (hd rs)))"
  have bok: "block_ok cz rs" and rows: "\<forall>r \<in> set rs. row_ok cx sources shard r" "\<forall>r \<in> set (concat bs). row_ok cx sources shard r"
    using ok by (simp_all add: stream_ok_def)
  have wf: "\<forall>r \<in> set rs. record_wf r \<and> validBinaryMarketRecord cx r" using rows(1) by (simp add: row_ok_def)
  then have wf': "\<forall>r \<in> set rs. record_wf r" by simp
  note e = encoded_bounds [OF cz(1) bok wf']
  have n: "rs \<noteq> []" "0 < length rs" "length rs \<le> 256" and ch: "\<forall>r \<in> set rs. rh_channel (header r) = rh_channel (header (hd rs))"
    and enc: "encoding cz rs = Some ?e"
    using bok unfolding block_ok_def kBinaryMarketBlockRecords_def by (blast, blast, blast, blast, metis option.collapse)
  have "arrived 0 0 (concat bs @ rs)" using ok by (simp add: arrived_def stream_ok_def)
  moreover have "\<forall>r \<in> set (concat bs). rh_shardSequence (header r) \<noteq> 0" using rows(2) sequence_nonzero by blast
  ultimately have arr: "arrived (sd_previousSequence d) (sd_previousMonotonic d) rs"
    using arrived_append d unfolding reading_def by simp
  have of: "marketBlock_of (marketBlock_image b) = b" "length (marketBlock_image b) = 64"
    by (simp_all add: b_def marketBlock_of_image)
  have fields: "bk_channel b = rh_channel (header (hd rs))" "bk_rawCrc32c b = crc32c (images rs)" "bk_encodedCrc32c b = crc32c ?e"
    "bk_firstShardSequence b = rh_shardSequence (header (hd rs))" "bk_lastShardSequence b = rh_shardSequence (header (last rs))"
    "bk_recordCount b = word_of_nat (length rs)" "bk_encodedBytes b = word_of_nat (length ?e)"
    by (simp_all add: b_def)
  have valid: "\<not> blockInvalid (cz_bound cz) d (marketBlock_image b)"
    unfolding b_def by (rule blockFile_accepted [OF cz(1) d bok wf h(1,3,4) B R arr])
  have u: "unat (bk_encodedBytes b) = length ?e" "unat (bk_recordCount b) = length rs" "unat (bk_rawBytes b) = length (images rs)"
    using e(2) n length_images [OF wf'] by (simp_all add: b_def unat_of_nat del: of_nat_mult)
  have dec: "decode ?layout ?e (length (images rs)) = Some (images rs)"
    using cz(2) enc unfolding decompressor_contract_def encoding_def by blast
  have arrays: "array_of sizeof_BinaryMarketRecord record_of (length rs) (images rs) = rs"
    using array_of_images [OF wf'] by (simp add: sizeof_BinaryMarketRecord_def)
  have ends: "rs ! 0 = hd rs" "rs ! (length rs - 1) = last rs" using n by (simp_all add: hd_conv_nth last_conv_nth)
  have h1: "sh_shardIndex (sd_header d) = shard" using d h(2) by (simp add: reading_def)
  define d1 where "d1 = d\<lparr>sd_previousSequence := lastSequence (sd_previousSequence d) rs,
    sd_previousMonotonic := lastMonotonic (sd_previousMonotonic d) rs,
    sd_firstReceive := firstReceive (sd_firstReceive d) rs, sd_lastReceive := lastReceive (sd_lastReceive d) rs\<rparr>"
  have check: "checkRows cx sources (rh_channel (header (hd rs))) rs d = Some d1"
    unfolding d1_def by (rule checkRows_accepts) (use rows(1) ch arr h1 in auto)
  have head: "readBytes sizeof_BlockHeader (sd_stream d) = Some (marketBlock_image b, ?e @ rest)"
    unfolding stream blockFile_def b_def [symmetric] using of(2) by (simp add: readBytes_append sizeof_BlockHeader_def)
  have body: "readBytes (length ?e) (?e @ rest) = Some (?e, rest)" by (rule readBytes_append) simp
  let ?d = "d1\<lparr>sd_stream := rest, sd_decoded := rs, sd_position := 0,
    sd_recordsCrc := crc32cUpdate (sd_recordsCrc d1) (images rs),
    sd_recordsSeen := sd_recordsSeen d1 + ucast (bk_recordCount b),
    sd_bodyBytes := sd_bodyBytes d1 + (word_of_nat sizeof_BlockHeader + ucast (bk_encodedBytes b)),
    sd_blocksSeen := sd_blocksSeen d1 + 1\<rparr>"
  have "readBlock cx (cz_bound cz) decode sources d = Some ?d"
    unfolding readBlock_def head Let_def by (simp add: of valid body dec arrays ends [simplified] check u fields(1-5))
  moreover have "reading cz h (bs @ [rs]) ?d"
    using d e(2) n(3)
    by (simp add: reading_def d1_def fields receive_append crc32c_def crc32cUpdate_append blockFiles_append length_blockFile
        sizeof_BlockHeader_def ucast_of_nat32)
  ultimately show ?thesis using that by simp
qed

section \<open>Reading a segment\<close>

function decodeRest :: "cxet \<Rightarrow> (ByteBlockLayout \<Rightarrow> nat \<Rightarrow> nat) \<Rightarrow> decompressor \<Rightarrow> nat \<Rightarrow> SegmentDecoder \<Rightarrow>
    BinaryMarketRecord list option" where
  "decodeRest cx bound decode sources d = (case decoder_next cx bound decode sources d of
     None \<Rightarrow> None
   | Some (None, d') \<Rightarrow> Some []
   | Some (Some r, d') \<Rightarrow> map_option ((#) r) (decodeRest cx bound decode sources d'))"
  by pat_completeness auto
termination
  by (relation "measure (\<lambda>(cx, bound, decode, sources, d). decoderWork d)") (auto intro: decoder_next_work)

declare decodeRest.simps [simp del]

lemma decodeRest_rows:
  assumes "\<not> sd_finished d" and "sd_position d \<le> length (sd_decoded d)"
  shows "decodeRest cx bound decode sources d = map_option ((@) (drop (sd_position d) (sd_decoded d)))
    (decodeRest cx bound decode sources (d\<lparr>sd_position := length (sd_decoded d)\<rparr>))"
  using assms
proof (induction "length (sd_decoded d) - sd_position d" arbitrary: d)
  case 0
  then have eq: "d\<lparr>sd_position := length (sd_decoded d)\<rparr> = d" by simp
  show ?case unfolding eq using 0 by (simp add: option.map_ident)
next
  case (Suc n)
  then have less: "sd_position d < length (sd_decoded d)" by simp
  let ?d = "d\<lparr>sd_position := sd_position d + 1\<rparr>"
  have "decodeRest cx bound decode sources d = map_option ((#) (sd_decoded d ! sd_position d)) (decodeRest cx bound decode sources ?d)"
    using Suc.prems less by (subst decodeRest.simps) (simp add: decoder_next_def releaseRow_def)
  moreover have "decodeRest cx bound decode sources ?d = map_option ((@) (drop (sd_position ?d) (sd_decoded ?d)))
      (decodeRest cx bound decode sources (?d\<lparr>sd_position := length (sd_decoded ?d)\<rparr>))"
    by (rule Suc.hyps(1)) (use Suc in simp_all)
  ultimately show ?case using Cons_nth_drop_Suc [OF less]
    by (simp add: option.map_comp comp_def) (metis append_Cons)
qed

lemma sealHeader_simps [simp]:
  "sh_magic (sealHeader h) = sh_magic h" "sh_headerBytes (sealHeader h) = sh_headerBytes h"
  "sh_recordBytes (sealHeader h) = sh_recordBytes h" "sh_segmentNumber (sealHeader h) = sh_segmentNumber h"
  "sh_producerEpoch (sealHeader h) = sh_producerEpoch h" "sh_shardIndex (sealHeader h) = sh_shardIndex h"
  "sh_reserved16 (sealHeader h) = sh_reserved16 h" "sh_codecId (sealHeader h) = sh_codecId h"
  "sh_reserved (sealHeader h) = sh_reserved h" "sh_recordsCrc32c (sealHeader h) = sh_recordsCrc32c h"
  "sh_recordCount (sealHeader h) = sh_recordCount h" "sh_firstReceiveNs (sealHeader h) = sh_firstReceiveNs h"
  "sh_lastReceiveNs (sealHeader h) = sh_lastReceiveNs h" "sh_storedBlockBytes (sealHeader h) = sh_storedBlockBytes h"
  "sh_blockCount (sealHeader h) = sh_blockCount h" "footerFor (sealHeader h) = footerFor h"
  by (simp_all add: sealHeader_def footerFor_def)

lemma sealHeader_checksum: "sh_headerCrc32c (sealHeader h) = crc32c (zero4 56 (segmentHeader_image (sealHeader h)))"
  by (simp add: zero4_segmentHeader) (simp add: sealHeader_def)

lemma footerFor_simps [simp]:
  "sf_magic (footerFor h) = kBinaryMarketSegmentFooterMagic" "sf_footerBytes (footerFor h) = 64"
  "sf_segmentNumber (footerFor h) = sh_segmentNumber h" "sf_recordsCrc32c (footerFor h) = sh_recordsCrc32c h"
  "sf_recordCount (footerFor h) = sh_recordCount h" "sf_firstReceiveNs (footerFor h) = sh_firstReceiveNs h"
  "sf_lastReceiveNs (footerFor h) = sh_lastReceiveNs h" "sf_reserved (footerFor h) = replicate 20 0"
  by (simp_all add: footerFor_def Let_def sizeof_SegmentFooter_def)

lemma footerFor_checksum: "sf_footerCrc32c (footerFor h) = crc32c (zero4 40 (segmentFooter_image (footerFor h)))"
  by (simp add: zero4_segmentFooter) (simp add: footerFor_def Let_def)

lemma footer_accepted:
  assumes "reading cz (sealHeader (segmentHeaderFor cz epoch shard number blocks [])) blocks d"
  shows "\<not> footerInvalid d (segmentFooter_image (footerFor (segmentHeaderFor cz epoch shard number blocks [])))"
  using assms footerFor_checksum [symmetric]
  by (simp add: footerInvalid_def Let_def segmentFooter_of_image reading_def sizeof_SegmentFooter_def all_zero_def list_all_iff)

lemma decode_blocks:
  assumes cz: "compressor_contract cz" "decompressor_contract cz decode"
    and ok: "stream_ok cx cz sources shard (bs @ todo)" and d: "reading cz (sealHeader h) bs d"
    and h: "h = segmentHeaderFor cz epoch shard number (bs @ todo) []"
    and stream: "sd_stream d = blockFiles cz (length bs + 1) todo @ segmentFooter_image (footerFor h)"
    and pos: "sd_position d = length (sd_decoded d)"
    and size: "length (blockFiles cz 1 (bs @ todo)) < 2 ^ 64" "length (concat (bs @ todo)) < 2 ^ 64" "length (bs @ todo) < 2 ^ 32"
  shows "decodeRest cx (cz_bound cz) decode sources d = Some (concat todo)"
  using ok d h stream pos size
proof (induction todo arbitrary: bs d)
  case Nil
  have "sd_blocksSeen d = sh_blockCount (sd_header d)" using Nil by (simp add: reading_def)
  moreover have "readBytes sizeof_SegmentFooter (sd_stream d) = Some (segmentFooter_image (footerFor h), [])"
    using Nil readBytes_append [of "segmentFooter_image (footerFor h)" 64 "[]"] by (simp add: sizeof_SegmentFooter_def)
  moreover have "\<not> footerInvalid d (segmentFooter_image (footerFor h))" using footer_accepted Nil by simp
  ultimately show ?case using Nil by (subst decodeRest.simps) (simp add: decoder_next_def reading_def)
next
  case (Cons rs todo)
  let ?D = "decodeRest cx (cz_bound cz) decode sources"
  have ok: "stream_ok cx cz sources shard (bs @ [rs])"
    using Cons.prems(1) by (auto simp: stream_ok_def sorted_wrt_append)
  have stream: "sd_stream d = blockFile cz (length bs + 1) rs @ blockFiles cz (length (bs @ [rs]) + 1) todo @
      segmentFooter_image (footerFor h)" using Cons.prems(4) by simp
  have len: "length (blockFiles cz 1 (bs @ [rs])) \<le> length (blockFiles cz 1 (bs @ rs # todo))"
    "length (concat (bs @ [rs])) \<le> length (concat (bs @ rs # todo))" by (simp_all add: blockFiles_append)
  obtain d' where d': "readBlock cx (cz_bound cz) decode sources d = Some d'" "reading cz (sealHeader h) (bs @ [rs]) d'"
    "sd_stream d' = blockFiles cz (length (bs @ [rs]) + 1) todo @ segmentFooter_image (footerFor h)" "sd_decoded d' = rs" "sd_position d' = 0"
    by (rule readBlock_reads [OF cz Cons.prems(2) stream ok _ _ _ _ len(1) Cons.prems(6) len(2) Cons.prems(7)])
      (simp_all add: Cons.prems(3))
  have ne: "rs \<noteq> []" using ok by (simp add: stream_ok_def block_ok_def)
  have todo: "sd_blocksSeen d \<noteq> sh_blockCount (sd_header d)"
    using Cons.prems(2,8) by (simp add: reading_def Cons.prems(3) word_unat_eq_iff unat_of_nat del: of_nat_Suc of_nat_add)
  have fin: "\<not> sd_finished d" "\<not> sd_finished d'" using Cons.prems(2) d'(2) by (simp_all add: reading_def)
  have "decoder_next cx (cz_bound cz) decode sources d = decoder_next cx (cz_bound cz) decode sources d'"
    using Cons.prems(5) todo fin d'(1,4,5) ne by (simp add: decoder_next_def)
  then have "?D d = ?D d'" by (simp add: decodeRest.simps [of cx "cz_bound cz" decode sources d]
      decodeRest.simps [of cx "cz_bound cz" decode sources d'])
  also have "\<dots> = map_option ((@) rs) (?D (d'\<lparr>sd_position := length rs\<rparr>))"
    using decodeRest_rows [of d'] fin d'(4,5) by simp
  also have "?D (d'\<lparr>sd_position := length rs\<rparr>) = Some (concat todo)"
  proof (rule Cons.IH)
    show "reading cz (sealHeader h) (bs @ [rs]) (d'\<lparr>sd_position := length rs\<rparr>)" using d'(2) by (simp add: reading_def)
  qed (use Cons.prems d' in simp_all)
  finally show ?case by simp
qed

lemma receive_range:
  assumes "\<forall>r \<in> set rs. 0 < sint (rh_receiveRealtimeNs (header r))" and "0 < sint a" and "sint a \<le> sint b"
  shows "0 < sint (firstReceive a rs) \<and> sint (firstReceive a rs) \<le> sint (lastReceive b rs)"
  using assms
proof (induction rs arbitrary: a b)
  case (Cons r rs)
  show ?case unfolding receive_fields
    by (rule Cons.IH) (use Cons.prems in \<open>auto simp: earliest_def latest_def\<close>)
qed simp

lemma receive_positive:
  assumes "\<forall>r \<in> set rs. 0 < sint (rh_receiveRealtimeNs (header r))" and "rs \<noteq> []"
  shows "0 < sint (firstReceive 0 rs)" and "sint (firstReceive 0 rs) \<le> sint (lastReceive 0 rs)"
proof -
  obtain r rs' where rs: "rs = r # rs'" using assms(2) by (cases rs) auto
  have "earliest 0 (rh_receiveRealtimeNs (header r)) = rh_receiveRealtimeNs (header r)"
    "latest 0 (rh_receiveRealtimeNs (header r)) = rh_receiveRealtimeNs (header r)"
    using assms(1) rs by (simp_all add: earliest_def latest_def)
  then show "0 < sint (firstReceive 0 rs)" and "sint (firstReceive 0 rs) \<le> sint (lastReceive 0 rs)"
    using receive_range [of rs' "rh_receiveRealtimeNs (header r)" "rh_receiveRealtimeNs (header r)"] assms(1) rs by simp_all
qed

lemma stream_counts:
  assumes "list_all (block_ok cz) blocks"
  shows "length blocks \<le> length (concat blocks)" and "length (concat blocks) \<le> 256 * length blocks"
proof -
  have size: "0 < length rs \<and> length rs \<le> 256" if "block_ok cz rs" for rs
    using that unfolding block_ok_def kBinaryMarketBlockRecords_def by blast
  have "length blocks \<le> length (concat blocks) \<and> length (concat blocks) \<le> 256 * length blocks" using assms
  proof (induction blocks)
    case (Cons rs blocks)
    then have "0 < length rs" "length rs \<le> 256" using size [of rs] by simp_all
    then show ?case using Cons by (cases rs) simp_all
  qed simp
  then show "length blocks \<le> length (concat blocks)" and "length (concat blocks) \<le> 256 * length blocks" by simp_all
qed

lemma segmentHeader_accepted:
  assumes ok: "stream_ok cx cz sources shard blocks" and ne: "blocks \<noteq> []"
    and size: "length (blockFiles cz 1 blocks) + 192 < 2 ^ 64" "length blocks < 2 ^ 32"
    and h: "h = sealHeader (segmentHeaderFor cz epoch shard number blocks [])"
  shows "\<not> segmentHeaderInvalid \<lparr>key_number = number, key_shard = shard\<rparr> epoch (segmentHeader_image h)"
proof -
  have "list_all (block_ok cz) blocks" using ok by (simp add: stream_ok_def)
  note n = stream_counts [OF this]
  have some: "0 < length blocks" using ne by simp
  have "0 < length (concat blocks)" using some n(1) by (rule less_le_trans)
  then have ne': "concat blocks \<noteq> []" "0 < length (concat blocks)" by (metis length_greater_0_conv, simp only:)
  have pos: "\<forall>r \<in> set (concat blocks). 0 < sint (rh_receiveRealtimeNs (header r))"
    using ok valid_recordD(3) by (fastforce simp: stream_ok_def row_ok_def)
  note t = receive_positive [OF pos ne'(1)]
  have u: "unat (word_of_nat (length (concat blocks)) :: u64) = length (concat blocks)"
    "unat (word_of_nat (length blocks) :: u32) = length blocks" "unat (ucast (word_of_nat (length blocks) :: u32) :: u64) = length blocks"
    "unat (word_of_nat (length (blockFiles cz 1 blocks)) :: u64) = length (blockFiles cz 1 blocks)"
    using n(2) size by (simp_all add: unat_of_nat ucast_of_nat32)
  have h0: "h = sealHeader (segmentHeaderFor cz epoch shard number blocks [])" by (rule h)
  have of: "segmentHeader_of (segmentHeader_image h) = h" by (simp add: h0 segmentHeader_of_image)
  have count: "sh_recordCount h \<noteq> 0" "sh_blockCount h \<noteq> 0" "\<not> sh_recordCount h < ucast (sh_blockCount h)"
    using u n(1) ne' some unfolding h0 by (simp_all add: word_less_nat_alt word_unat_eq_iff del: length_concat)
  have stored: "\<not> 0xffffffffffffffff - word_of_nat sizeof_SegmentHeader - word_of_nat sizeof_SegmentFooter < sh_storedBlockBytes h"
    using u(4) size(1) by (simp add: h0 word_less_nat_alt sizeof_SegmentHeader_def sizeof_SegmentFooter_def)
  have crc: "sh_headerCrc32c h = crc32c (zero4 56 (segmentHeader_image h))" unfolding h0 by (rule sealHeader_checksum)
  show ?thesis unfolding segmentHeaderInvalid_def Let_def of using count stored crc t
    by (simp add: h0 sizeof_SegmentHeader_def binaryMarketBlockLayout_def sizeof_BinaryMarketRecord_def all_zero_def list_all_iff not_less)
qed

theorem segment_reads_back:
  assumes cz: "compressor_contract cz" "decompressor_contract cz decode" and ok: "stream_ok cx cz sources shard blocks" and ne: "blocks \<noteq> []"
    and size: "length (blockFiles cz 1 blocks) + 192 < 2 ^ 64" "length blocks < 2 ^ 32"
    and disk: "fs (segmentPath root shard number ''cxm'') = Some (segmentFile cz epoch shard number blocks)"
  obtains d where "decoder_open fs root \<lparr>key_number = number, key_shard = shard\<rparr> epoch = Some d"
    "decodeRest cx (cz_bound cz) decode sources d = Some (concat blocks)"
    "sh_storedBlockBytes (sd_header d) = word_of_nat (length (blockFiles cz 1 blocks))"
proof -
  let ?h0 = "segmentHeaderFor cz epoch shard number blocks []"
  define h where "h = sealHeader ?h0"
  let ?key = "\<lparr>key_number = number, key_shard = shard\<rparr>"
  define rest where "rest = blockFiles cz 1 blocks @ segmentFooter_image (footerFor ?h0)"
  have bs: "segmentFile cz epoch shard number blocks = segmentHeader_image h @ rest"
    by (simp add: segmentFile_def h_def rest_def Let_def)
  have len: "length (segmentHeader_image h) = 128" by (simp add: h_def)
  have of: "segmentHeader_of (segmentHeader_image h) = h" by (simp add: h_def segmentHeader_of_image)
  have "unat (sh_storedBlockBytes h) = length (blockFiles cz 1 blocks)" using size(1) by (simp add: h_def unat_of_nat)
  then have exact: "exactFileBytes fs (segmentPath root shard number ''cxm'')
      (sizeof_SegmentHeader + unat (sh_storedBlockBytes h) + sizeof_SegmentFooter)"
    using disk len by (simp add: exactFileBytes_def bs rest_def sizeof_SegmentHeader_def sizeof_SegmentFooter_def)
  have head: "readBytes sizeof_SegmentHeader (segmentHeader_image h @ rest) = Some (segmentHeader_image h, rest)"
    by (rule readBytes_append) (simp add: len sizeof_SegmentHeader_def)
  have valid: "\<not> segmentHeaderInvalid ?key epoch (segmentHeader_image h)"
    by (rule segmentHeader_accepted [OF ok ne size h_def])
  let ?d = "\<lparr>sd_stream = rest, sd_header = h, sd_decoded = [], sd_position = 0, sd_recordsSeen = 0,
    sd_bodyBytes = 0, sd_previousSequence = 0, sd_previousMonotonic = 0, sd_blocksSeen = 0,
    sd_recordsCrc = 0, sd_firstReceive = 0, sd_lastReceive = 0, sd_finished = False\<rparr>"
  have "decoder_open fs root ?key epoch = Some ?d"
    using disk by (simp add: decoder_open_def bs head of valid exact Let_def)
  moreover have "decodeRest cx (cz_bound cz) decode sources ?d = Some (concat blocks)"
  proof (rule decode_blocks [where bs = "[]" and h = ?h0, OF cz])
    show "reading cz (sealHeader ?h0) [] ?d" by (simp add: reading_def h_def crc32c_def crc32cUpdate_def)
    have "list_all (block_ok cz) blocks" using ok by (simp add: stream_ok_def)
    note n = stream_counts(2) [OF this]
    show "length (concat ([] @ blocks)) < 2 ^ 64" using n size(2) by simp
  qed (use ok size in \<open>simp_all add: rest_def\<close>)
  moreover have "sh_storedBlockBytes (sd_header ?d) = word_of_nat (length (blockFiles cz 1 blocks))" by (simp add: h_def)
  ultimately show ?thesis using that by blast
qed

end
