(* ===== verification/Spec2Isabelle.thy ===== *)
theory Spec2Isabelle
  imports Crc VarInt Block EventLines Book SpscRing SourceState DepthTransaction CutCodec WriterDrain WriterShards
    CorpusCursor SegmentFiles
begin

text \<open>
  A verification library of hft-recorder, which records market data of exchanges into files and reads
  them back for replay. Paths below are relative to \<^verbatim>\<open>src/src/Runtime/src\<close>; the public structs are under
  \<^verbatim>\<open>src/src/Contracts/include/hftrec\<close>.

  \<^bold>\<open>The program.\<close> A capture thread passes rows through a ring to a consumer. Session recordings are JSON
  lines, one file per channel, which the replay parses into rows and applies to an order book. Market
  corpora are binary: the corpus writer takes records of many sources on several shards, checks them
  against the state of their source and the depth transaction of their shard, collects blocks of one
  channel, compresses them into segment files, keeps an index, gaps and sources, publishes durable cuts
  for readers of the running recording, and seals everything with a manifest. The corpus reader checks a
  sealed corpus completely and merges its shards in arrival order.

  \<^bold>\<open>Theories and sources.\<close>
  \<^item> \<open>Prelude\<close>: machine integers, status codes (\<^verbatim>\<open>Status.hpp\<close>), byte images, lemma collections.
  \<^item> \<open>Crc\<close>, \<open>VarInt\<close>, \<open>Block\<close>: \<^verbatim>\<open>Corpus/Codec\<close>, \<^verbatim>\<open>Corpus/Block\<close> headers. \<open>Json\<close>: \<^verbatim>\<open>Common/MiniJsonParser.hpp\<close>,
    \<^verbatim>\<open>Common/JsonString.hpp\<close>.
  \<^item> \<open>EventRows\<close>, \<open>EventWriter\<close>, \<open>EventReader\<close>, \<open>EventLines\<close>: the rows, \<^verbatim>\<open>Capture/Serialization/JsonSerializers.cpp\<close>,
    \<^verbatim>\<open>Replay/JsonLineParser.cpp\<close> and their round trips. \<open>Book\<close>: \<^verbatim>\<open>Replay/BookState.cpp\<close>.
    \<open>SpscRing\<close>: \<^verbatim>\<open>Capture/Session/Stream/SpscRing.hpp\<close>.
  \<^item> \<open>CorpusFormat\<close>, \<open>CorpusRecord\<close>, \<open>CorpusFiles\<close>: the structs and predicates of
    \<^verbatim>\<open>CorpusContract/BinaryMarketCorpusFormat.hpp\<close> and \<^verbatim>\<open>CorpusCut.hpp\<close>. \<open>SampleCorpus\<close> holds concrete values.
  \<^item> \<open>Checker\<close>, \<open>SourceState\<close>, \<open>DepthTransaction\<close>: the record checks of \<^verbatim>\<open>Corpus/BinaryMarketSourceState.hpp\<close> and
    \<^verbatim>\<open>BinaryMarketDepthTransaction.hpp\<close>, two interpretations of the locale \<open>checker\<close>.
  \<^item> \<open>Metadata\<close>, \<open>Publication\<close>, \<open>CutCodec\<close>: \<^verbatim>\<open>Corpus/BinaryMarketMetadataValidation.hpp\<close>, the retained blocks of
    \<^verbatim>\<open>Corpus/CorpusCutStorage.hpp\<close>, and encoder and decoder of the cut file in \<^verbatim>\<open>Corpus/CorpusCut.cpp\<close>.
  \<^item> \<open>WriterBase\<close>, \<open>Writer\<close>: \<^verbatim>\<open>Corpus/BinaryMarketCorpusWriter.cpp\<close>, state and file operations first, then every
    member function. \<open>WriterSteps\<close>, \<open>WriterCalls\<close>: every call is a sequence of elementary steps.
    \<open>WriterInv\<close>, \<open>WriterTables\<close>, \<open>WriterBlocks\<close>, \<open>WriterCounts\<close>: the invariants, proved once per step;
    \<open>WriterStart\<close>: a start establishes them. \<open>WriterProperties\<close>, \<open>WriterFinal\<close>, \<open>WriterDrain\<close>, \<open>WriterShards\<close>: what
    follows for the caller.
  \<^item> \<open>SegmentReader\<close>, \<open>CorpusReader\<close>, \<open>CorpusCursor\<close>: \<^verbatim>\<open>Corpus/BinaryMarketCorpusReader.cpp\<close>, tables and segment
    decoder first, then the merge of the shards, then \<^verbatim>\<open>open\<close>, \<^verbatim>\<open>next\<close> and \<^verbatim>\<open>select\<close>. \<open>SegmentFiles\<close>: what a segment
    file contains and that the decoder returns it.

  \<^bold>\<open>State and effects.\<close> Structs are records with the members of the source, integers keep their width,
  a class is a state passed through its member functions, and a failure is the status the code returns
  together with the state it leaves. Structs that the code copies to files byte by byte have an image
  and its inverse. The disk is a map from paths to contents with the list of the outcomes of the system
  calls to come, so every theorem about the writer holds for every pattern of failures. The ring is
  modelled once sequentially and once with producer and consumer interleaved at every load and store.

  \<^bold>\<open>Parameters.\<close> Code that is not part of the repository is a parameter: the market library's validity
  checks and sizes (record \<open>cxet\<close>), the block compressor (record \<open>compressor\<close>; \<open>compressor_contract\<close> says
  that its output respects its bound and that the bounds fit 32 bits) and the decompressor
  (\<open>decompressor_contract\<close> says that it undoes the compressor). The iteration order of a hash map is a
  parameter as well. Theorems that rely on a contract are applied to an instance that satisfies it.

  \<^bold>\<open>Fuel and termination.\<close> The mutually recursive skip functions of the JSON parser carry fuel, the length
  of the text, which is proved to be enough. All other loops are recursive functions with a termination
  proof; those of the corpus reader decrease the bytes that are still to be read.

  \<^bold>\<open>Not modelled.\<close> Error texts, allocation failures and logging everywhere; file system walks, threads,
  sockets, processes and clocks; the graphical interface, the service and the command line tools, which
  are such effects around the modelled code; the adapters of the external parser, compressor and zip
  libraries, whose types are not under \<^verbatim>\<open>src\<close>; the readers of a running recording in
  \<^verbatim>\<open>Corpus/CorpusCut.cpp\<close> beyond the cut file itself; the laboratory, partly in floating point. Memory
  orders weaker than sequential consistency are not modelled for the ring.
\<close>

end
